(* ===== verification/Cansat_Prelude.thy ===== *)
theory Cansat_Prelude
  imports Main "HOL-Library.Word" "HOL-Library.Signed_Division" "HOL-Library.Char_ord"
begin

text \<open>
  What the components share: the machine integers of the C code, undefined behaviour as a
  value, C strings, and the little algebra of lists, options and words their proofs need.

  \<^item> Unsigned C integers are words (\<open>u8\<close>, \<open>u16\<close>, \<open>u32\<close>). Signed C arithmetic is done on
    \<open>int\<close> and checked: \<open>chk32\<close> is \<open>None\<close> when the result does not fit the type, which is what
    the C standard calls undefined behaviour. No theorem of the development treats \<open>None\<close> as
    a result.
  \<^item> A C string is the list of its bytes before the terminating NUL; reading at the end of the
    list yields the NUL (\<open>peek\<close>). \<open>c_string\<close> cuts a buffer at its first NUL.
  \<^item> \<open>parse\<close> is the outcome of a scanner: a value, the \<open>goto parse_error\<close> of the code, or
    undefined behaviour.
  \<^item> \<open>cint\<close> collects the facts about bounded integers, \<open>cstr\<close> those about strings.
\<close>

unbundle bit_operations_syntax

named_theorems cint \<open>facts about bounded C integers\<close>
named_theorems cstr \<open>facts about C strings and characters\<close>

type_synonym u8 = "8 word"
type_synonym u16 = "16 word"
type_synonym u32 = "32 word"

section \<open>Signed integers with a width\<close>

definition INT32_MAX :: int where "INT32_MAX = 2147483647"
definition INT32_MIN :: int where "INT32_MIN = -2147483648"

definition int32_ok :: "int \<Rightarrow> bool" where
  "int32_ok x \<longleftrightarrow> INT32_MIN \<le> x \<and> x \<le> INT32_MAX"

definition int16_ok :: "int \<Rightarrow> bool" where
  "int16_ok x \<longleftrightarrow> -32768 \<le> x \<and> x \<le> 32767"

definition uint32_ok :: "int \<Rightarrow> bool" where
  "uint32_ok x \<longleftrightarrow> 0 \<le> x \<and> x < 4294967296"

definition chk32 :: "int \<Rightarrow> int option" where
  "chk32 x = (if int32_ok x then Some x else None)"

lemmas int_range_defs [cint] =
  int32_ok_def int16_ok_def uint32_ok_def INT32_MAX_def INT32_MIN_def

lemma chk32_Some_iff [simp]: "chk32 x = Some y \<longleftrightarrow> y = x \<and> int32_ok x"
  by (auto simp: chk32_def)

lemma chk32_None_iff [simp]: "chk32 x = None \<longleftrightarrow> \<not> int32_ok x"
  by (simp add: chk32_def)

lemma int32_ok_small [intro]: "-2147483648 \<le> x \<Longrightarrow> x \<le> 2147483647 \<Longrightarrow> int32_ok x"
  by (simp add: int_range_defs)

lemma int32_ok_uminus: "0 \<le> x \<Longrightarrow> int32_ok x \<Longrightarrow> int32_ok (- x)"
  by (simp add: int_range_defs)

text \<open>Signed division by a positive divisor is floor division for a non-negative dividend.\<close>

lemma sdiv_nonneg [cint]: "(0::int) \<le> a \<Longrightarrow> 0 < b \<Longrightarrow> a sdiv b = a div b"
  by (cases "a = 0") (simp_all add: signed_divide_int_def)

lemma smod_nonneg [cint]: "(0::int) \<le> a \<Longrightarrow> 0 < b \<Longrightarrow> a smod b = a mod b"
  by (cases "a = 0") (simp_all add: signed_modulo_int_def)

lemma sdiv_uminus [cint]: "(- a :: int) sdiv b = - (a sdiv b)"
  by (simp add: signed_divide_int_def sgn_minus)

lemma smod_uminus [cint]: "(- a :: int) smod b = - (a smod b)"
  by (simp add: signed_modulo_int_def sdiv_uminus)

section \<open>Outcomes\<close>

text \<open>A scanner returns a value, bails out, or runs into undefined behaviour.\<close>

datatype 'a parse = Parsed 'a | ParseError | Undefined

fun map_parse_result :: "('a \<Rightarrow> 'b) \<Rightarrow> 'a parse \<Rightarrow> 'b parse" where
  "map_parse_result f (Parsed a) = Parsed (f a)"
| "map_parse_result f ParseError = ParseError"
| "map_parse_result f Undefined = Undefined"

lemma map_parse_result_Parsed_iff [simp]:
  "map_parse_result f r = Parsed b \<longleftrightarrow> (\<exists>a. r = Parsed a \<and> b = f a)"
  by (cases r) auto

lemma map_parse_result_cong_iff [simp]:
  "map_parse_result f r = ParseError \<longleftrightarrow> r = ParseError"
  "map_parse_result f r = Undefined \<longleftrightarrow> r = Undefined"
  by (cases r; simp)+

section \<open>Lists\<close>

text \<open>The longest prefix with a property ends where the first element without it stands.\<close>

lemma span_append:
  assumes "\<forall>x\<in>set xs. P x" "ys = [] \<or> \<not> P (hd ys)"
  shows "takeWhile P (xs @ ys) = xs" "dropWhile P (xs @ ys) = ys"
proof -
  have "takeWhile P ys = []" "dropWhile P ys = ys"
    using assms(2) by (cases ys; simp)+
  then show "takeWhile P (xs @ ys) = xs" "dropWhile P (xs @ ys) = ys"
    using assms(1) by (simp_all add: takeWhile_append2 dropWhile_append2)
qed

section \<open>C strings\<close>

definition NUL :: char where "NUL = CHR 0x00"

definition peek :: "string \<Rightarrow> char" where
  "peek s = (case s of [] \<Rightarrow> NUL | c # _ \<Rightarrow> c)"

lemma peek_simps [simp]: "peek [] = NUL" "peek (c # cs) = c"
  by (simp_all add: peek_def)

definition c_string :: "string \<Rightarrow> string" where
  "c_string buf = takeWhile (\<lambda>c. c \<noteq> NUL) buf"

lemma c_string_append_NUL [cstr]: "NUL \<notin> set s \<Longrightarrow> c_string (s @ NUL # rest) = s"
  unfolding c_string_def by (subst takeWhile_append2) auto

lemma NUL_notin_c_string [cstr]: "NUL \<notin> set (c_string buf)"
  by (auto simp: c_string_def dest: set_takeWhileD)

text \<open>\<open>ctype.h\<close> in the C locale.\<close>

definition char_code :: "char \<Rightarrow> nat" where
  "char_code c = of_char c"

definition isprint :: "char \<Rightarrow> bool" where
  "isprint c \<longleftrightarrow> 32 \<le> char_code c \<and> char_code c < 127"

definition isdigit :: "char \<Rightarrow> bool" where
  "isdigit c \<longleftrightarrow> 48 \<le> char_code c \<and> char_code c \<le> 57"

definition isspace :: "char \<Rightarrow> bool" where
  "isspace c \<longleftrightarrow> char_code c = 32 \<or> 9 \<le> char_code c \<and> char_code c \<le> 13"

definition digit_val :: "char \<Rightarrow> int" where
  "digit_val c = int (char_code c) - 48"

definition digit_char :: "nat \<Rightarrow> char" where
  "digit_char d = char_of (48 + d)"

lemmas ctype_defs = isprint_def isdigit_def isspace_def

lemma char_code_digit_char [simp]: "d < 10 \<Longrightarrow> char_code (digit_char d) = 48 + d"
  by (simp add: char_code_def digit_char_def)

lemma isdigit_digit_char [simp]: "d < 10 \<Longrightarrow> isdigit (digit_char d)"
  by (simp add: isdigit_def)

lemma digit_val_digit_char [simp]: "d < 10 \<Longrightarrow> digit_val (digit_char d) = int d"
  by (simp add: digit_val_def)

lemma isdigit_digit_val [cstr]: "isdigit c \<Longrightarrow> 0 \<le> digit_val c \<and> digit_val c \<le> 9"
  by (simp add: isdigit_def digit_val_def)

lemma isdigit_isprint [cstr]: "isdigit c \<Longrightarrow> isprint c"
  by (simp add: ctype_defs)

lemma NUL_not_ctype [simp]: "\<not> isprint NUL" "\<not> isdigit NUL" "\<not> isspace NUL"
  by (simp_all add: ctype_defs NUL_def char_code_def)

lemma char_code_eq_iff [cstr]: "char_code c = char_code d \<longleftrightarrow> c = d"
  by (simp add: char_code_def of_char_eq_iff)

lemma char_code_less [simp]: "char_code c < 256"
proof -
  have "char_code c mod 256 = char_code c"
    by (simp add: char_code_def)
  then show ?thesis by (metis mod_less_divisor zero_less_numeral)
qed

end
