(* ===== verification/Minmea_Check.thy ===== *)
theory Minmea_Check
  imports Cansat_Prelude
begin

text \<open>
  The sentence validity check of \<^verbatim>\<open>gpsutils/minmea/minmea.c\<close>: \<open>hex2int\<close>, \<open>minmea_isfield\<close>,
  \<open>minmea_checksum\<close> and \<open>minmea_check\<close>. The pointer into the sentence is the rest of the
  string; every \<^verbatim>\<open>*sentence\<close> of the code is a \<open>peek\<close>.

  The lemmas give the language \<open>minmea_check\<close> accepts, in closed form, and show that the
  checksum detects every corruption of one byte of the body.
\<close>

section \<open>The code\<close>

fun hex2int :: "char \<Rightarrow> int" where
  "hex2int c =
     (if CHR ''0'' \<le> c \<and> c \<le> CHR ''9'' then int (char_code c) - int (char_code (CHR ''0''))
      else if CHR ''A'' \<le> c \<and> c \<le> CHR ''F'' then int (char_code c) - int (char_code (CHR ''A'')) + 10
      else if CHR ''a'' \<le> c \<and> c \<le> CHR ''f'' then int (char_code c) - int (char_code (CHR ''a'')) + 10
      else -1)"

definition minmea_isfield :: "char \<Rightarrow> bool" where
  "minmea_isfield c \<longleftrightarrow> isprint c \<and> c \<noteq> CHR '','' \<and> c \<noteq> CHR ''*''"

definition MINMEA_MAX_LENGTH :: nat where
  "MINMEA_MAX_LENGTH = 100"

definition byte_of :: "char \<Rightarrow> u8" where
  "byte_of c = of_nat (char_code c)"

text \<open>\<^verbatim>\<open>while (*sentence && *sentence != '*') checksum ^= *sentence++;\<close>\<close>

fun checksum_loop :: "string \<Rightarrow> u8 \<Rightarrow> u8" where
  "checksum_loop [] checksum = checksum"
| "checksum_loop (c # cs) checksum =
     (if c \<noteq> NUL \<and> c \<noteq> CHR ''*'' then checksum_loop cs (checksum XOR byte_of c) else checksum)"

definition minmea_checksum :: "string \<Rightarrow> u8" where
  "minmea_checksum sentence =
     (if peek sentence = CHR ''$'' then checksum_loop (tl sentence) 0 else checksum_loop sentence 0)"

text \<open>The same loop in \<open>minmea_check\<close> stops at a non-printable byte too, and leaves the pointer there.\<close>

fun check_loop :: "string \<Rightarrow> u8 \<Rightarrow> u8 \<times> string" where
  "check_loop [] checksum = (checksum, [])"
| "check_loop (c # cs) checksum =
     (if c \<noteq> NUL \<and> c \<noteq> CHR ''*'' \<and> isprint c then check_loop cs (checksum XOR byte_of c)
      else (checksum, c # cs))"

definition LF :: char where "LF = CHR 0x0A"
definition CR :: char where "CR = CHR 0x0D"

definition check_tail :: "string \<Rightarrow> bool" where
  "check_tail sentence \<longleftrightarrow> \<not> (peek sentence \<noteq> NUL \<and> sentence \<noteq> [LF] \<and> sentence \<noteq> [CR, LF])"

definition minmea_check :: "string \<Rightarrow> bool \<Rightarrow> bool" where
  "minmea_check sentence strict =
     (if length sentence > MINMEA_MAX_LENGTH + 3 then False
      else if peek sentence \<noteq> CHR ''$'' then False
      else
        let (checksum, s) = check_loop (tl sentence) 0 in
        if peek s = CHR ''*'' then
          let s1 = tl s; upper = hex2int (peek s1) in
          if upper = -1 then False
          else
            let s2 = tl s1; lower = hex2int (peek s2) in
            if lower = -1 then False
            else
              let expected = push_bit 4 upper OR lower in
              if uint checksum \<noteq> expected then False else check_tail (tl s2)
        else if strict then False
        else check_tail s)"

section \<open>Specification\<close>

text \<open>The exclusive or of a list of bytes.\<close>

definition xor_all :: "string \<Rightarrow> u8" where
  "xor_all s = foldr (\<lambda>c x. byte_of c XOR x) s 0"

definition body_char :: "char \<Rightarrow> bool" where
  "body_char c \<longleftrightarrow> isprint c \<and> c \<noteq> CHR ''*''"

definition newline :: "string \<Rightarrow> bool" where
  "newline s \<longleftrightarrow> s = [] \<or> s = [LF] \<or> s = [CR, LF]"

text \<open>What the check is meant to accept: a body of printable characters between \<open>$\<close> and \<open>*\<close>,
  the two hexadecimal digits of its exclusive or, and a newline.\<close>

definition checksummed :: "string \<Rightarrow> char \<Rightarrow> char \<Rightarrow> string \<Rightarrow> bool" where
  "checksummed body h l nl \<longleftrightarrow>
     list_all body_char body \<and> newline nl \<and> hex2int h \<noteq> -1 \<and> hex2int l \<noteq> -1 \<and>
     uint (xor_all body) = 16 * hex2int h + hex2int l"

definition plain :: "string \<Rightarrow> string \<Rightarrow> bool" where
  "plain body nl \<longleftrightarrow> list_all body_char body \<and> newline nl"

section \<open>Lemmas\<close>

lemma body_char_NUL [simp]: "\<not> body_char NUL" "body_char c \<Longrightarrow> c \<noteq> NUL"
  by (auto simp: body_char_def)

lemma star_neq_NUL [simp]: "CHR ''*'' \<noteq> NUL" "NUL \<noteq> CHR ''*''"
  by (simp_all add: NUL_def)

lemma body_char_star [simp]: "\<not> body_char (CHR ''*'')"
  by (simp add: body_char_def)

lemma control_not_body [simp]: "\<not> body_char LF" "\<not> body_char CR" "LF \<noteq> NUL" "CR \<noteq> NUL" "NUL \<noteq> LF" "NUL \<noteq> CR"
  "LF \<noteq> CHR ''*''" "CR \<noteq> CHR ''*''"
  by (simp_all add: body_char_def isprint_def LF_def CR_def NUL_def char_code_def)

lemma minmea_isfield_body: "minmea_isfield c \<Longrightarrow> body_char c"
  by (simp add: minmea_isfield_def body_char_def)

lemma xor_all_simps [simp]: "xor_all [] = 0" "xor_all (c # s) = byte_of c XOR xor_all s"
  by (simp_all add: xor_all_def)

lemma xor_all_append: "xor_all (s @ t) = xor_all s XOR xor_all t"
  by (induction s) (simp_all add: xor.assoc)

lemma check_loop_Cons:
  "check_loop (c # cs) a = (if body_char c then check_loop cs (a XOR byte_of c) else (a, c # cs))"
  by (auto simp: body_char_def)

declare check_loop.simps(2) [simp del] check_loop_Cons [simp]

lemma check_loop_body:
  "list_all body_char s \<Longrightarrow> check_loop (s @ t) a = check_loop t (a XOR xor_all s)"
  by (induction s arbitrary: a) (simp_all add: xor.assoc)

text \<open>The loop splits its input into the longest printable body and the rest.\<close>

lemma check_loop_span:
  "check_loop s a = (a XOR xor_all (takeWhile body_char s), dropWhile body_char s)"
  by (induction s arbitrary: a) (simp_all add: xor.assoc)

lemma checksum_loop_body:
  "list_all body_char s \<Longrightarrow> checksum_loop (s @ CHR ''*'' # t) a = a XOR xor_all s"
  by (induction s arbitrary: a) (auto simp: xor.assoc)

lemma minmea_checksum_body:
  "list_all body_char s \<Longrightarrow> minmea_checksum (CHR ''$'' # s @ CHR ''*'' # t) = xor_all s"
  by (simp add: minmea_checksum_def checksum_loop_body)

lemma check_tail_newline: "NUL \<notin> set s \<Longrightarrow> check_tail s \<longleftrightarrow> newline s"
  by (cases s) (auto simp: check_tail_def newline_def)

lemma hex2int_NUL [simp]: "hex2int NUL = -1"
  by (simp add: NUL_def less_eq_char_def char_code_def)

lemma hex2int_star [simp]: "hex2int (CHR ''*'') = -1"
  by (simp add: less_eq_char_def char_code_def)

lemma hex2int_range: "hex2int c \<noteq> -1 \<Longrightarrow> 0 \<le> hex2int c \<and> hex2int c < 16"
  by (auto simp: less_eq_char_def char_code_def split: if_splits)

declare hex2int.simps [simp del]

lemma hex_or:
  assumes "(0::int) \<le> l" "l < 16"
  shows "push_bit 4 h OR l = 16 * h + l"
proof -
  have l: "take_bit 4 l = l"
    using assms by (simp add: take_bit_int_eq_self)
  have "push_bit 4 h OR l = concat_bit 4 l h"
    by (simp add: concat_bit_def l or.commute)
  also have "\<dots> = 16 * h + l"
    by (simp add: concat_bit_eq l push_bit_eq_mult)
  finally show ?thesis .
qed

text \<open>\<open>minmea_check\<close> on the two shapes of input it can accept, and on every other input.\<close>

lemma minmea_check_dollar:
  assumes "length s \<le> 102"
  shows "minmea_check (CHR ''$'' # s) strict =
    (let checksum = xor_all (takeWhile body_char s); r = dropWhile body_char s in
     if peek r = CHR ''*'' then
       hex2int (peek (tl r)) \<noteq> -1 \<and> hex2int (peek (tl (tl r))) \<noteq> -1 \<and>
       uint checksum = 16 * hex2int (peek (tl r)) + hex2int (peek (tl (tl r))) \<and>
       check_tail (tl (tl (tl r)))
     else \<not> strict \<and> check_tail r)"
  using assms hex2int_range
  by (auto simp: minmea_check_def MINMEA_MAX_LENGTH_def check_loop_span Let_def hex_or)

lemma minmea_check_checksummed:
  assumes "checksummed body h l nl" "length body + length nl \<le> 99"
  shows "minmea_check (CHR ''$'' # body @ [CHR ''*'', h, l] @ nl) strict"
proof -
  have "NUL \<notin> set nl"
    using assms(1) by (auto simp: checksummed_def newline_def)
  with assms show ?thesis
    by (subst minmea_check_dollar)
      (auto simp: checksummed_def Let_def list_all_iff takeWhile_append2 dropWhile_append2
        check_tail_newline)
qed

lemma minmea_check_plain:
  assumes "plain body nl" "length body + length nl \<le> 102"
  shows "minmea_check (CHR ''$'' # body @ nl) False"
proof -
  have nl: "nl = [] \<or> \<not> body_char (hd nl)" "peek nl \<noteq> CHR ''*''" "check_tail nl"
    using assms(1) by (auto simp: plain_def newline_def check_tail_def)
  have "\<forall>x\<in>set body. body_char x"
    using assms(1) by (simp add: plain_def list_all_iff)
  note span = span_append [OF this nl(1)]
  with assms(2) nl show ?thesis
    by (simp add: minmea_check_dollar Let_def span)
qed

lemma byte_of_inj: "byte_of c = byte_of d \<longleftrightarrow> c = d"
proof
  assume "byte_of c = byte_of d"
  then have "unat (byte_of c) = unat (byte_of d)" by simp
  then have "char_code c = char_code d"
    by (simp add: byte_of_def unat_of_nat)
  then show "c = d" by (simp add: char_code_eq_iff)
qed simp

lemma xor_all_update:
  "i < length s \<Longrightarrow> xor_all (s[i := c]) = xor_all s XOR byte_of (s ! i) XOR byte_of c"
proof (induction s arbitrary: i)
  case (Cons a s)
  then show ?case
    by (cases i) (simp_all add: xor.assoc xor.left_commute xor.commute)
qed simp

lemma xor_all_update_neq:
  assumes "i < length s" "c \<noteq> s ! i"
  shows "xor_all (s[i := c]) \<noteq> xor_all s"
proof
  assume "xor_all (s[i := c]) = xor_all s"
  with assms(1) have "xor_all s XOR (xor_all s XOR byte_of (s ! i) XOR byte_of c) = 0"
    by (simp add: xor_all_update)
  then have "byte_of (s ! i) XOR byte_of c = 0"
    by (simp add: xor.assoc [symmetric])
  then have "byte_of (s ! i) XOR (byte_of (s ! i) XOR byte_of c) = byte_of (s ! i)"
    by simp
  then have "byte_of c = byte_of (s ! i)"
    by (simp add: xor.assoc [symmetric])
  with assms(2) show False by (simp add: byte_of_inj)
qed

lemma star_notin_newline: "newline s \<Longrightarrow> CHR ''*'' \<notin> set s"
  by (auto simp: newline_def LF_def CR_def)

lemma check_tail_star: "NUL \<notin> set s \<Longrightarrow> CHR ''*'' \<in> set s \<Longrightarrow> \<not> check_tail s"
  using check_tail_newline star_notin_newline by blast

section \<open>Properties\<close>

text \<open>What is accepted has one of the two forms.\<close>

lemma minmea_check_forms:
  assumes "NUL \<notin> set s" and check: "minmea_check s strict"
  shows "length s \<le> 103"
    and "(\<exists>body h l nl. s = CHR ''$'' # body @ [CHR ''*'', h, l] @ nl \<and> checksummed body h l nl) \<or>
     (\<not> strict \<and> (\<exists>body nl. s = CHR ''$'' # body @ nl \<and> plain body nl))" (is "?sum \<or> ?plain")
proof -
  from check show len: "length s \<le> 103"
    by (auto simp: minmea_check_def MINMEA_MAX_LENGTH_def split: if_splits)
  from check obtain t where s: "s = CHR ''$'' # t"
    by (cases s) (auto simp: minmea_check_def NUL_def split: if_splits)
  define b r where "b = takeWhile body_char t" and "r = dropWhile body_char t"
  have t: "t = b @ r" and b: "list_all body_char b"
    by (simp_all add: b_def r_def list_all_iff) (meson set_takeWhileD)
  have nul: "NUL \<notin> set r" using assms s t by simp
  show "?sum \<or> ?plain"
  proof (cases "peek r = CHR ''*''")
    case True
    with check s len have c: "hex2int (peek (tl r)) \<noteq> -1" "hex2int (peek (tl (tl r))) \<noteq> -1"
      "uint (xor_all b) = 16 * hex2int (peek (tl r)) + hex2int (peek (tl (tl r)))"
      "check_tail (tl (tl (tl r)))"
      by (simp_all add: minmea_check_dollar b_def r_def Let_def)
    then obtain h l nl where "r = [CHR ''*'', h, l] @ nl"
      using True by (cases r; cases "tl r"; cases "tl (tl r)") auto
    with c b nul have "checksummed b h l nl" and "r = [CHR ''*'', h, l] @ nl"
      by (simp_all add: checksummed_def check_tail_newline)
    with s t show ?thesis by blast
  next
    case False
    with check s len have "\<not> strict" "check_tail r"
      by (simp_all add: minmea_check_dollar b_def r_def Let_def split: if_splits)
    with b nul have "\<not> strict" "plain b r"
      by (simp_all add: plain_def check_tail_newline)
    with s t show ?thesis by blast
  qed
qed

text \<open>C8. \<open>minmea_check\<close> accepts exactly the sentences of at most 103 bytes that are a dollar
  sign, a body of printable characters, and either a matching two-digit checksum or (not in
  strict mode) none, up to a final newline.\<close>

theorem minmea_check_iff:
  assumes "NUL \<notin> set s"
  shows "minmea_check s strict \<longleftrightarrow>
    length s \<le> 103 \<and>
    ((\<exists>body h l nl. s = CHR ''$'' # body @ [CHR ''*'', h, l] @ nl \<and> checksummed body h l nl) \<or>
     (\<not> strict \<and> (\<exists>body nl. s = CHR ''$'' # body @ nl \<and> plain body nl)))"
    (is "?check \<longleftrightarrow> ?len \<and> (?sum \<or> ?plain)")
proof
  assume ?check
  with minmea_check_forms [OF assms] show "?len \<and> (?sum \<or> ?plain)" by blast
next
  assume rhs: "?len \<and> (?sum \<or> ?plain)"
  then consider
      body h l nl where "s = CHR ''$'' # body @ [CHR ''*'', h, l] @ nl" "checksummed body h l nl"
    | body nl where "\<not> strict" "s = CHR ''$'' # body @ nl" "plain body nl"
    by blast
  then show ?check
  proof cases
    case 1
    with rhs have "length body + length nl \<le> 99" by simp
    with 1 show ?thesis using minmea_check_checksummed by simp
  next
    case 2
    with rhs have "length body + length nl \<le> 102" by simp
    with 2 show ?thesis using minmea_check_plain by simp
  qed
qed

text \<open>The witness: a receiver's sentence with its checksum, in strict mode.\<close>

theorem minmea_check_iff_witness:
  "minmea_check ''$GPGSV,4,4,13*7B'' True"
proof -
  have nul: "NUL \<notin> set ''$GPGSV,4,4,13*7B''"
    by (simp add: NUL_def)
  have "checksummed ''GPGSV,4,4,13'' (CHR ''7'') (CHR ''B'') []"
    by code_simp
  then have "\<exists>body h l nl. ''$GPGSV,4,4,13*7B'' = CHR ''$'' # body @ [CHR ''*'', h, l] @ nl \<and>
      checksummed body h l nl"
    by (intro exI [of _ "''GPGSV,4,4,13''"] exI [of _ "CHR ''7''"] exI [of _ "CHR ''B''"]
        exI [of _ "[]"]) simp
  then show ?thesis
    by (subst minmea_check_iff [OF nul]) simp
qed

text \<open>A corrupted byte of the body that is still printable changes the checksum; any other ends the body.\<close>

lemma printable_corruption:
  assumes ok: "checksummed body h l nl" and i: "i < length body" and c: "c \<noteq> body ! i" "c \<noteq> NUL"
    and len: "length (body[i := c] @ [CHR ''*'', h, l] @ nl) \<le> 102" and char: "body_char c"
  shows "\<not> minmea_check (CHR ''$'' # body[i := c] @ [CHR ''*'', h, l] @ nl) strict"
proof
  let ?s = "body[i := c] @ [CHR ''*'', h, l] @ nl"
  assume check: "minmea_check (CHR ''$'' # ?s) strict"
  have body: "list_all body_char body" using ok by (simp add: checksummed_def)
  have "\<forall>x\<in>set (body[i := c]). body_char x"
    using char body set_update_subset_insert [of body i c] by (auto simp: list_all_iff)
  then have "uint (xor_all (body[i := c])) = 16 * hex2int h + hex2int l"
    using check len by (simp add: minmea_check_dollar Let_def takeWhile_append2 dropWhile_append2)
  then have "xor_all (body[i := c]) = xor_all body"
    using ok by (simp add: checksummed_def word_uint_eq_iff)
  then show False using xor_all_update_neq [OF i c(1)] by simp
qed

lemma control_corruption:
  assumes ok: "checksummed body h l nl" and i: "i < length body" and c: "c \<noteq> body ! i" "c \<noteq> NUL"
    and len: "length (body[i := c] @ [CHR ''*'', h, l] @ nl) \<le> 102" and char: "\<not> body_char c"
  shows "\<not> minmea_check (CHR ''$'' # body[i := c] @ [CHR ''*'', h, l] @ nl) strict"
proof
  let ?s = "body[i := c] @ [CHR ''*'', h, l] @ nl"
  assume check: "minmea_check (CHR ''$'' # ?s) strict"
  have body: "list_all body_char body" using ok by (simp add: checksummed_def)
  let ?r = "drop (Suc i) body @ [CHR ''*'', h, l] @ nl"
  have s: "?s = take i body @ c # ?r"
    using i by (simp add: upd_conv_take_nth_drop)
  have pre: "\<forall>x\<in>set (take i body). body_char x"
    using body by (auto simp: list_all_iff dest: in_set_takeD)
  have dw: "dropWhile body_char ?s = c # ?r"
    unfolding s using pre char by (simp add: dropWhile_append2)
  have "NUL \<notin> set body"
    using body by (auto simp: list_all_iff)
  moreover have "h \<noteq> NUL" "l \<noteq> NUL" "NUL \<notin> set nl"
    using ok by (auto simp: checksummed_def newline_def)
  ultimately have nul: "NUL \<notin> set ?r"
    using set_drop_subset [of "Suc i" body] by auto
  have "check_tail (tl (tl ?r)) \<and> hex2int (peek ?r) \<noteq> -1 \<and> hex2int (peek (tl ?r)) \<noteq> -1
      \<or> check_tail (c # ?r)"
    using check len dw by (auto simp: minmea_check_dollar Let_def split: if_splits)
  then show False
  proof (elim disjE conjE)
    assume "check_tail (c # ?r)"
    moreover have "NUL \<notin> set (c # ?r)" "CHR ''*'' \<in> set (c # ?r)" using nul c(2) by simp_all
    ultimately show False using check_tail_star by blast
  next
    assume t: "check_tail (tl (tl ?r))" "hex2int (peek ?r) \<noteq> -1" "hex2int (peek (tl ?r)) \<noteq> -1"
    then obtain x y d where d: "drop (Suc i) body = x # y # d"
      by (cases "drop (Suc i) body"; cases "tl (drop (Suc i) body)") auto
    with nul have "NUL \<notin> set (tl (tl ?r))" "CHR ''*'' \<in> set (tl (tl ?r))" by simp_all
    with t(1) show False using check_tail_star by blast
  qed
qed

text \<open>A byte that becomes NUL ends the sentence for the C code: what is left has no checksum, so strict mode
rejects it, and the other mode accepts it.\<close>

lemma dollar_neq_NUL [simp]: "CHR ''$'' \<noteq> NUL" "NUL \<noteq> CHR ''$''"
  by (simp_all add: NUL_def)

lemma body_no_NUL: "list_all body_char s \<Longrightarrow> NUL \<notin> set s"
  by (auto simp: list_all_iff)

lemma c_string_of_NUL:
  assumes "checksummed body h l nl" "i < length body"
  shows "c_string (CHR ''$'' # body[i := NUL] @ r) = CHR ''$'' # take i body"
proof -
  have body: "NUL \<notin> set (CHR ''$'' # take i body)"
    using assms(1) body_no_NUL [of body] by (auto simp: checksummed_def dest: in_set_takeD)
  have "CHR ''$'' # body[i := NUL] @ r = (CHR ''$'' # take i body) @ NUL # drop (Suc i) body @ r"
    using assms(2) by (simp add: upd_conv_take_nth_drop)
  then show ?thesis using c_string_append_NUL [OF body] by metis
qed

lemma NUL_corruption:
  assumes ok: "checksummed body h l nl" and i: "i < length body"
  shows "\<not> minmea_check (c_string (CHR ''$'' # body[i := NUL] @ [CHR ''*'', h, l] @ nl)) True"
    and "i \<le> 102 \<Longrightarrow> minmea_check (c_string (CHR ''$'' # body[i := NUL] @ [CHR ''*'', h, l] @ nl)) False"
proof -
  have t: "list_all body_char (take i body)"
    using ok by (auto simp: checksummed_def list_all_iff dest: in_set_takeD)
  note c = c_string_of_NUL [OF assms, of "[CHR ''*'', h, l] @ nl"]
  show "\<not> minmea_check (c_string (CHR ''$'' # body[i := NUL] @ [CHR ''*'', h, l] @ nl)) True"
    unfolding c using check_loop_body [OF t, of "[]"] by (simp add: minmea_check_def)
  show "minmea_check (c_string (CHR ''$'' # body[i := NUL] @ [CHR ''*'', h, l] @ nl)) False" if "i \<le> 102"
    unfolding c using minmea_check_plain [of "take i body" "[]"] t that by (simp add: plain_def newline_def)
qed

text \<open>C11. A sentence with a valid checksum is no longer accepted, strict or not, once any single byte of its
body has been replaced by another one that is not NUL: by another printable character, by a \<open>*\<close> (which
moves the checksum field) or by a control character (which ends the body). In strict mode NUL is
detected too; in the other mode it is not (\<open>NUL_corruption\<close>): it cuts the checksum off.\<close>

theorem minmea_check_detects_corruption:
  assumes ok: "checksummed body h l nl" and i: "i < length body"
    and c: "c \<noteq> body ! i" "c \<noteq> NUL \<or> strict"
  shows "\<not> minmea_check (c_string (CHR ''$'' # body[i := c] @ [CHR ''*'', h, l] @ nl)) strict"
proof (cases "c = NUL")
  case True
  with c(2) NUL_corruption(1) [OF ok i] show ?thesis by simp
next
  case False
  let ?s = "CHR ''$'' # body[i := c] @ [CHR ''*'', h, l] @ nl"
  have "NUL \<notin> set ?s"
    using ok False set_update_subset_insert [of body i c] body_no_NUL [of body]
    by (auto simp: checksummed_def newline_def)
  then have s: "c_string ?s = ?s" by (auto simp: c_string_def takeWhile_eq_all_conv)
  show ?thesis
  proof (cases "length (body[i := c] @ [CHR ''*'', h, l] @ nl) \<le> 102")
    case True
    then show ?thesis unfolding s
      using printable_corruption [OF ok i c(1) False] control_corruption [OF ok i c(1) False] by blast
  next
    case False
    then show ?thesis unfolding s by (auto simp: minmea_check_def MINMEA_MAX_LENGTH_def split: if_splits)
  qed
qed

theorem minmea_check_detects_corruption_witness:
  "\<not> minmea_check (c_string (CHR ''$'' # ''GPGSV,4,4,13''[6 := CHR ''9''] @ [CHR ''*'', CHR ''7'', CHR ''B''] @ [])) False \<and>
   \<not> minmea_check (c_string (CHR ''$'' # ''GPGSV,4,4,13''[6 := NUL] @ [CHR ''*'', CHR ''7'', CHR ''B''] @ [])) True"
proof
  have ok: "checksummed ''GPGSV,4,4,13'' (CHR ''7'') (CHR ''B'') []"
    by code_simp
  show "\<not> minmea_check (c_string (CHR ''$'' # ''GPGSV,4,4,13''[6 := CHR ''9''] @ [CHR ''*'', CHR ''7'', CHR ''B''] @ [])) False"
    by (rule minmea_check_detects_corruption [OF ok]) (simp_all add: NUL_def)
  show "\<not> minmea_check (c_string (CHR ''$'' # ''GPGSV,4,4,13''[6 := NUL] @ [CHR ''*'', CHR ''7'', CHR ''B''] @ [])) True"
    by (rule minmea_check_detects_corruption [OF ok]) (simp_all add: NUL_def)
qed

end
