(* ===== verification/Minmea_Scan.thy ===== *)
theory Minmea_Scan
  imports Minmea_Check
begin

text \<open>
  \<open>minmea_scan\<close> of \<^verbatim>\<open>gpsutils/minmea/minmea.c\<close>, the scanf-like reader of comma-separated
  fields. Each \<^verbatim>\<open>case\<close> of its switch is a definition \<open>scan_x\<close> over the field pointer
  (\<open>None\<close> is the NULL the code stores when it runs out of fields); \<open>minmea_scan\<close> is the loop
  over the format, with \<open>next_field\<close> for the macro. The values written through the variadic
  pointers are returned as a list. Signed overflow of \<^verbatim>\<open>int_least32_t\<close> is \<open>Undefined\<close>.

  The locale \<open>field_scanner\<close> is the contract between the loop and the cases: a case looks at
  nothing behind the delimiter of its field. With it, \<open>minmea_scan\<close> on a joined sentence
  refines a reader that is given the list of fields.
\<close>

section \<open>Values\<close>

record minmea_float =
  mf_value :: int
  mf_scale :: int

record minmea_date =
  md_day :: int
  md_month :: int
  md_year :: int

record minmea_time =
  mt_hours :: int
  mt_minutes :: int
  mt_seconds :: int
  mt_microseconds :: int

datatype scan_val =
    VChar char
  | VInt int
  | VFloat minmea_float
  | VString string
  | VDate minmea_date
  | VTime minmea_time

section \<open>The standard library's \<open>strtol\<close>, base 10, 32-bit long\<close>

definition digits_val :: "string \<Rightarrow> int" where
  "digits_val ds = foldl (\<lambda>v c. 10 * v + digit_val c) 0 ds"

definition clamp32 :: "int \<Rightarrow> int" where
  "clamp32 v = max INT32_MIN (min INT32_MAX v)"

definition strtol10 :: "string \<Rightarrow> int \<times> string" where
  "strtol10 s =
     (let s1 = dropWhile isspace s;
          neg = (peek s1 = CHR ''-'');
          s2 = (if peek s1 = CHR ''-'' \<or> peek s1 = CHR ''+'' then tl s1 else s1);
          ds = takeWhile isdigit s2
      in if ds = [] then (0, s)
         else (clamp32 (if neg then - digits_val ds else digits_val ds), dropWhile isdigit s2))"

section \<open>The cases of the switch\<close>

text \<open>\<^verbatim>\<open>case 'c'\<close>: single character field.\<close>

definition scan_c :: "string option \<Rightarrow> char parse" where
  "scan_c field =
     Parsed (case field of None \<Rightarrow> NUL
      | Some f \<Rightarrow> if minmea_isfield (peek f) then peek f else NUL)"

text \<open>\<^verbatim>\<open>case 'd'\<close>: direction.\<close>

definition scan_d :: "string option \<Rightarrow> int parse" where
  "scan_d field =
     (case field of None \<Rightarrow> Parsed 0
      | Some f \<Rightarrow>
          if minmea_isfield (peek f) then
            (if peek f = CHR ''N'' \<or> peek f = CHR ''E'' then Parsed 1
             else if peek f = CHR ''S'' \<or> peek f = CHR ''W'' then Parsed (-1)
             else ParseError)
          else Parsed 0)"

text \<open>\<^verbatim>\<open>case 'f'\<close>: the loop over the characters, with its three variables, and what follows it.\<close>

fun scan_f_loop :: "string \<Rightarrow> int \<Rightarrow> int \<Rightarrow> int \<Rightarrow> (int \<times> int \<times> int) parse" where
  "scan_f_loop [] sign v scale = Parsed (sign, v, scale)"
| "scan_f_loop (c # cs) sign v scale =
     (if \<not> minmea_isfield c then Parsed (sign, v, scale)
      else if c = CHR ''+'' \<and> sign = 0 \<and> v = -1 then scan_f_loop cs 1 v scale
      else if c = CHR ''-'' \<and> sign = 0 \<and> v = -1 then scan_f_loop cs (-1) v scale
      else if isdigit c then
        let digit = digit_val c; v' = (if v = -1 then 0 else v) in
        if v' > (INT32_MAX - digit) sdiv 10 then
          (if scale \<noteq> 0 then Parsed (sign, v', scale) else ParseError)
        else
          let v'' = 10 * v' + digit; scale' = (if scale \<noteq> 0 then scale * 10 else scale) in
          if int32_ok v'' \<and> int32_ok scale' then scan_f_loop cs sign v'' scale' else Undefined
      else if c = CHR ''.'' \<and> scale = 0 then scan_f_loop cs sign v 1
      else if c = CHR '' '' then
        (if sign \<noteq> 0 \<or> v \<noteq> -1 \<or> scale \<noteq> 0 then ParseError else scan_f_loop cs sign v scale)
      else ParseError)"

definition scan_f_finish :: "int \<times> int \<times> int \<Rightarrow> minmea_float parse" where
  "scan_f_finish = (\<lambda>(sign, v, scale).
     if (sign \<noteq> 0 \<or> scale \<noteq> 0) \<and> v = -1 then ParseError
     else
       let (v', scale') = (if v = -1 then (0, 0) else if scale = 0 then (v, 1) else (v, scale));
           v'' = (if sign \<noteq> 0 then v' * sign else v')
       in Parsed \<lparr>mf_value = v'', mf_scale = scale'\<rparr>)"

definition scan_f :: "string option \<Rightarrow> minmea_float parse" where
  "scan_f field =
     (case (case field of None \<Rightarrow> Parsed (0, -1, 0) | Some f \<Rightarrow> scan_f_loop f 0 (-1) 0) of
        Parsed r \<Rightarrow> scan_f_finish r
      | ParseError \<Rightarrow> ParseError
      | Undefined \<Rightarrow> Undefined)"

text \<open>\<^verbatim>\<open>case 'i'\<close>: integer, default 0.\<close>

definition scan_i :: "string option \<Rightarrow> int parse" where
  "scan_i field =
     (case field of None \<Rightarrow> Parsed 0
      | Some f \<Rightarrow>
          let (v, endptr) = strtol10 f in
          if minmea_isfield (peek endptr) then ParseError else Parsed v)"

text \<open>\<^verbatim>\<open>case 's'\<close>: string.\<close>

definition scan_s :: "string option \<Rightarrow> string parse" where
  "scan_s field =
     Parsed (case field of None \<Rightarrow> [] | Some f \<Rightarrow> takeWhile minmea_isfield f)"

text \<open>\<^verbatim>\<open>case 't'\<close>: talker and sentence identifier, mandatory.\<close>

definition scan_t :: "string option \<Rightarrow> string parse" where
  "scan_t field =
     (case field of None \<Rightarrow> ParseError
      | Some f \<Rightarrow>
          if peek f \<noteq> CHR ''$'' then ParseError
          else if length (take 5 (tl f)) < 5 \<or> \<not> list_all minmea_isfield (take 5 (tl f)) then ParseError
          else Parsed (take 5 (tl f)))"

text \<open>The loop \<^verbatim>\<open>for (f = 0; f < 6; f++) if (!isdigit(field[f])) goto parse_error;\<close> of dates and
  times: the string ends in a NUL, which is no digit.\<close>

definition six_digits :: "string \<Rightarrow> bool" where
  "six_digits f \<longleftrightarrow> length (take 6 f) = 6 \<and> list_all isdigit (take 6 f)"

definition pair_at :: "string \<Rightarrow> nat \<Rightarrow> int" where
  "pair_at f k = fst (strtol10 [f ! k, f ! (k + 1)])"

text \<open>\<^verbatim>\<open>case 'D'\<close>: date.\<close>

definition scan_D :: "string option \<Rightarrow> minmea_date parse" where
  "scan_D field =
     (case field of None \<Rightarrow> Parsed \<lparr>md_day = -1, md_month = -1, md_year = -1\<rparr>
      | Some f \<Rightarrow>
          if minmea_isfield (peek f) then
            (if \<not> six_digits f then ParseError
             else Parsed \<lparr>md_day = pair_at f 0, md_month = pair_at f 2, md_year = pair_at f 4\<rparr>)
          else Parsed \<lparr>md_day = -1, md_month = -1, md_year = -1\<rparr>)"

text \<open>\<^verbatim>\<open>case 'T'\<close>: time, with the loop over the fraction.\<close>

fun scan_T_fraction :: "string \<Rightarrow> int \<Rightarrow> int \<Rightarrow> int \<times> int" where
  "scan_T_fraction [] v scale = (v, scale)"
| "scan_T_fraction (c # cs) v scale =
     (if isdigit c \<and> scale > 1 then scan_T_fraction cs (v * 10 + digit_val c) (scale sdiv 10)
      else (v, scale))"

definition scan_T :: "string option \<Rightarrow> minmea_time parse" where
  "scan_T field =
     (case field of
        None \<Rightarrow> Parsed \<lparr>mt_hours = -1, mt_minutes = -1, mt_seconds = -1, mt_microseconds = -1\<rparr>
      | Some f \<Rightarrow>
          if minmea_isfield (peek f) then
            (if \<not> six_digits f then ParseError
             else
               let g = drop 6 f;
                   u = (if peek g = CHR ''.''
                        then (let (v, scale) = scan_T_fraction (tl g) 0 1000000 in v * scale)
                        else 0)
               in Parsed \<lparr>mt_hours = pair_at f 0, mt_minutes = pair_at f 2, mt_seconds = pair_at f 4,
                          mt_microseconds = u\<rparr>)
          else Parsed \<lparr>mt_hours = -1, mt_minutes = -1, mt_seconds = -1, mt_microseconds = -1\<rparr>)"

section \<open>The switch and the loop over the format\<close>

definition scan_field :: "char \<Rightarrow> string option \<Rightarrow> scan_val list parse" where
  "scan_field type field =
     (if type = CHR ''c'' then map_parse_result (\<lambda>v. [VChar v]) (scan_c field)
      else if type = CHR ''d'' then map_parse_result (\<lambda>v. [VInt v]) (scan_d field)
      else if type = CHR ''f'' then map_parse_result (\<lambda>v. [VFloat v]) (scan_f field)
      else if type = CHR ''i'' then map_parse_result (\<lambda>v. [VInt v]) (scan_i field)
      else if type = CHR ''s'' then map_parse_result (\<lambda>v. [VString v]) (scan_s field)
      else if type = CHR ''t'' then map_parse_result (\<lambda>v. [VString v]) (scan_t field)
      else if type = CHR ''D'' then map_parse_result (\<lambda>v. [VDate v]) (scan_D field)
      else if type = CHR ''T'' then map_parse_result (\<lambda>v. [VTime v]) (scan_T field)
      else if type = CHR ''_'' then Parsed []
      else ParseError)"

definition next_field :: "string \<Rightarrow> string \<times> string option" where
  "next_field sentence =
     (let s = dropWhile minmea_isfield sentence in
      if peek s = CHR '','' then (tl s, Some (tl s)) else (s, None))"

text \<open>The result: \<open>Undefined\<close>, or the returned flag with the values written so far.\<close>

fun minmea_scan_loop ::
  "string \<Rightarrow> string \<Rightarrow> string option \<Rightarrow> bool \<Rightarrow> scan_val list \<Rightarrow> (bool \<times> scan_val list) parse" where
  "minmea_scan_loop [] sentence field optional acc = Parsed (True, acc)"
| "minmea_scan_loop (type # format) sentence field optional acc =
     (if type = CHR '';'' then minmea_scan_loop format sentence field True acc
      else if field = None \<and> \<not> optional then Parsed (False, acc)
      else
        case scan_field type field of
          ParseError \<Rightarrow> Parsed (False, acc)
        | Undefined \<Rightarrow> Undefined
        | Parsed vs \<Rightarrow>
            let (sentence', field') = next_field sentence in
            minmea_scan_loop format sentence' field' optional (acc @ vs))"

definition minmea_scan :: "string \<Rightarrow> string \<Rightarrow> (bool \<times> scan_val list) parse" where
  "minmea_scan sentence format = minmea_scan_loop format sentence (Some sentence) False []"

section \<open>Delimiters, and the contract of a case\<close>

text \<open>A field of a well-formed sentence ends at a comma, at the checksum, or at the end.\<close>

definition delim :: "string \<Rightarrow> bool" where
  "delim r \<longleftrightarrow> r = [] \<or> hd r = CHR '','' \<or> hd r = CHR ''*''"

lemma isfield_simps [simp]:
  "\<not> minmea_isfield NUL" "\<not> minmea_isfield (CHR '','')" "\<not> minmea_isfield (CHR ''*'')"
  by (simp_all add: minmea_isfield_def)

lemma isfield_digit [simp]: "isdigit c \<Longrightarrow> minmea_isfield c"
  by (auto simp: minmea_isfield_def isdigit_isprint) (simp_all add: isdigit_def char_code_def)

lemma delim_cases: "delim r \<Longrightarrow> r = [] \<or> (\<exists>t. r = CHR '','' # t) \<or> (\<exists>t. r = CHR ''*'' # t)"
  by (cases r) (auto simp: delim_def)

lemma delim_simps [simp]: "delim []" "delim (CHR '','' # t)" "delim (CHR ''*'' # t)"
  by (simp_all add: delim_def)

lemma delim_ctype [simp]:
  "\<not> isdigit (CHR '','')" "\<not> isdigit (CHR ''*'')" "\<not> isspace (CHR '','')" "\<not> isspace (CHR ''*'')"
  by (simp_all add: ctype_defs char_code_def)

lemma NUL_neq [simp]:
  "NUL \<noteq> CHR ''$''" "NUL \<noteq> CHR ''.''" "NUL \<noteq> CHR ''+''" "NUL \<noteq> CHR ''-''" "NUL \<noteq> CHR '',''"
  "CHR ''$'' \<noteq> NUL" "CHR ''.'' \<noteq> NUL" "CHR ''+'' \<noteq> NUL" "CHR ''-'' \<noteq> NUL" "CHR '','' \<noteq> NUL"
  by (simp_all add: NUL_def)

lemma delim_peek_cases: "delim r \<Longrightarrow> peek r = NUL \<or> peek r = CHR '','' \<or> peek r = CHR ''*''"
  using delim_cases by fastforce

lemma delim_peek [simp]:
  assumes "delim r"
  shows "\<not> minmea_isfield (peek r)" "\<not> isdigit (peek r)" "\<not> isspace (peek r)"
    "peek r \<noteq> CHR ''$''" "peek r \<noteq> CHR ''.''" "peek r \<noteq> CHR ''+''" "peek r \<noteq> CHR ''-''"
  using delim_peek_cases [OF assms] by auto

lemma peek_append: "peek (f @ r) = (if f = [] then peek r else hd f)"
  by (cases f) auto

lemma peek_hd: "f \<noteq> [] \<Longrightarrow> peek f = hd f"
  by (cases f) auto

lemma delim_peek_append:
  assumes "delim r"
  shows "peek (s @ r) = CHR ''-'' \<longleftrightarrow> peek s = CHR ''-''"
    "peek (s @ r) = CHR ''+'' \<longleftrightarrow> peek s = CHR ''+''"
    "peek (s @ r) = CHR ''.'' \<longleftrightarrow> peek s = CHR ''.''"
    "minmea_isfield (peek (s @ r)) \<longleftrightarrow> minmea_isfield (peek s)"
  using assms by (cases s; simp)+

lemma tl_append_peek: "peek s \<noteq> NUL \<Longrightarrow> tl (s @ r) = tl s @ r"
  by (cases s) auto

lemma delim_span:
  assumes "delim r" "\<not> P (CHR '','')" "\<not> P (CHR ''*'')"
  shows "takeWhile P (f @ r) = takeWhile P f"
    "dropWhile P (f @ r) = dropWhile P f @ r"
proof -
  have "takeWhile P r = []" "dropWhile P r = r"
    using delim_cases [OF assms(1)] assms(2,3) by auto
  then show "takeWhile P (f @ r) = takeWhile P f" "dropWhile P (f @ r) = dropWhile P f @ r"
    by (induction f) auto
qed

lemmas delim_spans =
  delim_span [where P = minmea_isfield] delim_span [where P = isdigit] delim_span [where P = isspace]

text \<open>A case of the switch, applied to a field inside a sentence, gives what it gives on the field
  alone. The loop needs nothing else of it.\<close>

locale field_scanner =
  fixes scan :: "string \<Rightarrow> 'a parse"
  assumes local: "list_all minmea_isfield f \<Longrightarrow> delim r \<Longrightarrow> scan (f @ r) = scan f"
begin

lemma scan_comma: "list_all minmea_isfield f \<Longrightarrow> scan (f @ CHR '','' # t) = scan f"
  by (simp add: local)

lemma scan_star: "list_all minmea_isfield f \<Longrightarrow> scan (f @ CHR ''*'' # t) = scan f"
  by (simp add: local)

lemma scan_prefix:
  assumes "delim (dropWhile minmea_isfield s)"
  shows "scan s = scan (takeWhile minmea_isfield s)"
proof -
  have "list_all minmea_isfield (takeWhile minmea_isfield s)"
    by (auto simp: list_all_iff dest: set_takeWhileD)
  from local [OF this assms] show ?thesis by simp
qed

lemma scan_empty: "delim r \<Longrightarrow> scan r = scan []"
  using local [of "[]" r] by simp

end

text \<open>The cases satisfy it.\<close>

interpretation field_c: field_scanner "\<lambda>f. scan_c (Some f)"
  by unfold_locales (auto simp: scan_c_def peek_append peek_hd)

interpretation field_d: field_scanner "\<lambda>f. scan_d (Some f)"
  by unfold_locales (auto simp: scan_d_def peek_append peek_hd)

lemma scan_f_loop_delim: "delim r \<Longrightarrow> scan_f_loop (f @ r) sg v k = scan_f_loop f sg v k"
proof (induction f arbitrary: sg v k)
  case Nil
  then show ?case by (auto dest!: delim_cases)
qed (simp add: Let_def)

interpretation field_f: field_scanner "\<lambda>f. scan_f (Some f)"
  by unfold_locales (simp add: scan_f_def scan_f_loop_delim)

lemma list_all_dropWhile: "list_all P s \<Longrightarrow> list_all P (dropWhile Q s)"
  by (auto simp: list_all_iff dest: set_dropWhileD)

lemma strtol10_delim:
  assumes "delim r"
  shows "strtol10 (f @ r) = (fst (strtol10 f), snd (strtol10 f) @ r)"
proof -
  let ?s = "dropWhile isspace f"
  let ?t = "if peek ?s = CHR ''-'' \<or> peek ?s = CHR ''+'' then tl ?s else ?s"
  have "(if peek (?s @ r) = CHR ''-'' \<or> peek (?s @ r) = CHR ''+'' then tl (?s @ r) else ?s @ r) = ?t @ r"
    using assms tl_append_peek [of ?s r] by (auto simp: delim_peek_append)
  then show ?thesis
    using assms
    by (simp only: strtol10_def Let_def delim_spans delim_ctype delim_peek_append simp_thms) auto
qed

interpretation field_i: field_scanner "\<lambda>f. scan_i (Some f)"
proof unfold_locales
  fix f r :: string
  assume "delim r"
  then show "scan_i (Some (f @ r)) = scan_i (Some f)"
    by (cases "strtol10 f") (simp add: scan_i_def strtol10_delim delim_peek_append)
qed

interpretation field_s: field_scanner "\<lambda>f. scan_s (Some f)"
  by unfold_locales (simp only: scan_s_def option.case delim_spans isfield_simps simp_thms)

lemma take_delim:
  assumes "delim r" "\<not> P (CHR '','')" "\<not> P (CHR ''*'')"
  shows "length (take n (f @ r)) = n \<and> list_all P (take n (f @ r)) \<longleftrightarrow>
    length (take n f) = n \<and> list_all P (take n f)"
proof (cases "n \<le> length f")
  case False
  then have "\<not> list_all P (take n (f @ r))" if "r \<noteq> []"
    using that delim_cases [OF assms(1)] assms(2,3) by (cases "n - length f") auto
  with False show ?thesis by (cases r) auto
qed simp

lemma six_digits_delim: "delim r \<Longrightarrow> six_digits (f @ r) \<longleftrightarrow> six_digits f"
  unfolding six_digits_def by (rule take_delim) auto

lemma six_digits_length: "six_digits f \<Longrightarrow> 6 \<le> length f"
  by (simp add: six_digits_def min_def split: if_splits)

lemma scan_t_alt:
  "scan_t (Some f) =
     (if peek f = CHR ''$'' \<and> length (take 5 (tl f)) = 5 \<and> list_all minmea_isfield (take 5 (tl f))
      then Parsed (take 5 (tl f)) else ParseError)"
  by (auto simp: scan_t_def min_def)

interpretation field_t: field_scanner "\<lambda>f. scan_t (Some f)"
proof unfold_locales
  fix f r :: string
  assume d: "delim r"
  show "scan_t (Some (f @ r)) = scan_t (Some f)"
  proof (cases f)
    case Nil
    with d show ?thesis by (simp add: scan_t_def)
  next
    case (Cons a g)
    note t = take_delim [OF d, of minmea_isfield 5 g]
    have "take 5 (g @ r) = take 5 g" if "length (take 5 g) = 5"
      using that by (simp add: min_def split: if_splits)
    with t show ?thesis
      by (simp only: scan_t_alt Cons append_Cons peek_simps list.sel isfield_simps simp_thms) auto
  qed
qed

lemma pair_at_append: "k + 1 < length f \<Longrightarrow> pair_at (f @ r) k = pair_at f k"
  by (simp add: pair_at_def nth_append)

interpretation field_D: field_scanner "\<lambda>f. scan_D (Some f)"
proof unfold_locales
  fix f r :: string
  assume "delim r"
  then show "scan_D (Some (f @ r)) = scan_D (Some f)"
    using six_digits_length [of f]
    by (auto simp: scan_D_def six_digits_delim pair_at_append peek_append peek_hd)
qed

lemma scan_T_fraction_delim: "delim r \<Longrightarrow> scan_T_fraction (f @ r) v k = scan_T_fraction f v k"
proof (induction f arbitrary: v k)
  case Nil
  then show ?case by (auto dest!: delim_cases)
qed simp

interpretation field_T: field_scanner "\<lambda>f. scan_T (Some f)"
proof unfold_locales
  fix f r :: string
  assume d: "delim r"
  have "tl (drop 6 f @ r) = tl (drop 6 f) @ r" if "peek (drop 6 f) = CHR ''.''"
    using that by (simp add: tl_append_peek)
  moreover have "drop 6 (f @ r) = drop 6 f @ r" "pair_at (f @ r) 0 = pair_at f 0"
      "pair_at (f @ r) 2 = pair_at f 2" "pair_at (f @ r) 4 = pair_at f 4" if "six_digits f"
    using six_digits_length [OF that] by (simp_all add: pair_at_append)
  ultimately show "scan_T (Some (f @ r)) = scan_T (Some f)"
    using d by (simp add: scan_T_def delim_peek_append six_digits_delim scan_T_fraction_delim Let_def)
qed

lemma scan_field_local:
  assumes "list_all minmea_isfield f" "delim r"
  shows "scan_field type (Some (f @ r)) = scan_field type (Some f)"
  using field_c.local [OF assms] field_d.local [OF assms] field_f.local [OF assms]
    field_i.local [OF assms] field_s.local [OF assms] field_t.local [OF assms]
    field_D.local [OF assms] field_T.local [OF assms]
  by (simp add: scan_field_def)

end
