(* ===== verification/Minmea_Fields.thy ===== *)
theory Minmea_Fields
  imports Minmea_Scan
begin

text \<open>
  What \<open>minmea_scan\<close> computes: the value of a decimal field and of a time field, the range of
  every decimal the scanner returns, the exact source of its only undefined behaviour (the
  scale of a fraction with ten or more digits), and the refinement of \<open>minmea_scan\<close> on a
  sentence to \<open>read_fields\<close> on the list of its fields.
\<close>

section \<open>Decimal digits\<close>

definition digits_from :: "int \<Rightarrow> string \<Rightarrow> int" where
  "digits_from v ds = foldl (\<lambda>v c. 10 * v + digit_val c) v ds"

lemma digits_from_simps [simp]:
  "digits_from v [] = v"
  "digits_from v (c # ds) = digits_from (10 * v + digit_val c) ds"
  "digits_from v (ds @ es) = digits_from (digits_from v ds) es"
  by (simp_all add: digits_from_def)

lemma digits_val_from: "digits_val ds = digits_from 0 ds"
  by (simp add: digits_val_def digits_from_def)

lemma digits_from_ge: "list_all isdigit ds \<Longrightarrow> 0 \<le> v \<Longrightarrow> v \<le> digits_from v ds"
proof (induction ds arbitrary: v)
  case (Cons c ds)
  then have "0 \<le> 10 * v + digit_val c" "v \<le> 10 * v + digit_val c"
    using isdigit_digit_val [of c] by simp_all
  with Cons.IH [of "10 * v + digit_val c"] Cons.prems show ?case by simp
qed simp

lemma digits_from_less: "list_all isdigit ds \<Longrightarrow> digits_from v ds < (v + 1) * 10 ^ length ds"
proof (induction ds arbitrary: v)
  case (Cons c ds)
  then have "digits_from (10 * v + digit_val c) ds < (10 * v + digit_val c + 1) * 10 ^ length ds"
    by simp
  also have "\<dots> \<le> (10 * (v + 1)) * 10 ^ length ds"
    using Cons.prems isdigit_digit_val [of c] by (intro mult_right_mono) simp_all
  finally show ?case by (simp add: algebra_simps)
qed simp

section \<open>The loop of \<open>scan_f\<close>\<close>

lemma isdigit_sign [simp]:
  "isdigit c \<Longrightarrow> c \<noteq> CHR ''+''" "isdigit c \<Longrightarrow> c \<noteq> CHR ''-''" "isdigit c \<Longrightarrow> c \<noteq> CHR ''.''"
  by (auto simp: isdigit_def char_code_def)

lemma guard_iff:
  "0 \<le> d \<Longrightarrow> d \<le> 9 \<Longrightarrow> 0 \<le> v \<Longrightarrow> v > (INT32_MAX - d) sdiv 10 \<longleftrightarrow> INT32_MAX < 10 * v + d"
  by (simp add: cint) linarith

text \<open>One digit: with a value already scanned, or as the first one (\<open>v = -1\<close>).\<close>

lemma scan_f_loop_digit:
  assumes "isdigit c" "0 \<le> v" "10 * v + digit_val c \<le> INT32_MAX"
    and "v' = v \<or> v = 0 \<and> v' = -1" and "int32_ok (10 * k)"
  shows "scan_f_loop (c # cs) sg v' k = scan_f_loop cs sg (10 * v + digit_val c) (10 * k)"
proof -
  have d: "0 \<le> digit_val c" "digit_val c \<le> 9"
    using isdigit_digit_val [OF assms(1)] by simp_all
  have "\<not> v > (INT32_MAX - digit_val c) sdiv 10"
    using guard_iff [OF d assms(2)] assms(3) by simp
  moreover have "int32_ok (10 * v + digit_val c)"
    using d assms(2,3) by (simp add: int_range_defs)
  moreover have "(if k \<noteq> 0 then k * 10 else k) = 10 * k" by simp
  ultimately show ?thesis
    using assms by (auto simp: Let_def)
qed

declare scan_f_loop.simps(2) [simp del]

lemma scan_f_loop_digits:
  assumes "list_all isdigit ds" "0 \<le> v" "digits_from v ds \<le> INT32_MAX"
    and "0 \<le> k" "k * 10 ^ length ds \<le> INT32_MAX"
  shows "scan_f_loop (ds @ r) sg v k = scan_f_loop r sg (digits_from v ds) (k * 10 ^ length ds)"
  using assms
proof (induction ds arbitrary: v k)
  case (Cons c ds)
  let ?v = "10 * v + digit_val c"
  have v: "0 \<le> ?v"
    using Cons.prems isdigit_digit_val [of c] by simp
  then have le: "?v \<le> INT32_MAX"
    using digits_from_ge [of ds ?v] Cons.prems by simp
  have "10 * k * 1 \<le> 10 * k * 10 ^ length ds"
    using Cons.prems(4) by (intro mult_left_mono) simp_all
  then have k: "0 \<le> 10 * k" "int32_ok (10 * k)"
    using Cons.prems by (auto simp: int_range_defs)
  have "scan_f_loop ((c # ds) @ r) sg v k = scan_f_loop (ds @ r) sg ?v (10 * k)"
    using scan_f_loop_digit [OF _ Cons.prems(2) le disjI1 [OF refl] k(2)] Cons.prems by simp
  also have "\<dots> = scan_f_loop r sg (digits_from ?v ds) (10 * k * 10 ^ length ds)"
    using Cons.IH [OF _ v _ k(1)] Cons.prems by (simp add: mult_ac)
  finally show ?case by (simp add: mult_ac)
qed simp

lemma scan_f_loop_first:
  assumes "list_all isdigit ds" "ds \<noteq> []" "digits_val ds \<le> INT32_MAX"
    and "0 \<le> k" "k * 10 ^ length ds \<le> INT32_MAX"
  shows "scan_f_loop (ds @ r) sg (-1) k = scan_f_loop r sg (digits_val ds) (k * 10 ^ length ds)"
proof -
  obtain c cs where ds: "ds = c # cs" using assms(2) by (cases ds) auto
  have c: "isdigit c" "0 \<le> digit_val c" "digit_val c \<le> INT32_MAX"
    using isdigit_digit_val [of c] assms(1) ds by (simp_all add: int_range_defs)
  have "10 * k * 1 \<le> 10 * k * 10 ^ length cs"
    using assms(4) by (intro mult_left_mono) simp_all
  then have k: "int32_ok (10 * k)" "0 \<le> 10 * k"
    using assms(4,5) ds by (auto simp: int_range_defs)
  have "scan_f_loop (ds @ r) sg (-1) k = scan_f_loop (cs @ r) sg (digit_val c) (10 * k)"
    using scan_f_loop_digit [of c 0 "-1" k "cs @ r" sg] c k ds by simp
  also have "\<dots> = scan_f_loop r sg (digits_from (digit_val c) cs) (10 * k * 10 ^ length cs)"
    using scan_f_loop_digits [of cs "digit_val c" "10 * k" r sg] assms c k ds
    by (simp add: digits_val_from mult_ac)
  finally show ?thesis by (simp add: ds digits_val_from mult_ac)
qed

text \<open>The end of a field.\<close>

lemma scan_f_loop_end: "delim r \<Longrightarrow> scan_f_loop r sg v k = Parsed (sg, v, k)"
  by (auto simp: scan_f_loop.simps(2) dest!: delim_cases)

lemma isfield_punct [simp]:
  "minmea_isfield (CHR ''.'')" "minmea_isfield (CHR ''+'')" "minmea_isfield (CHR ''-'')"
  "\<not> isdigit (CHR ''.'')" "\<not> isdigit (CHR ''+'')" "\<not> isdigit (CHR ''-'')"
  by (simp_all add: minmea_isfield_def isprint_def isdigit_def char_code_def)

lemma scan_f_loop_dot:
  "scan_f_loop (CHR ''.'' # cs) sg v 0 = scan_f_loop cs sg v 1"
  by (simp add: scan_f_loop.simps(2))

text \<open>A sign, and the value it stands for.\<close>

definition sign_of :: "string \<Rightarrow> int" where
  "sign_of sg = (if sg = ''-'' then -1 else 1)"

definition sign_str :: "string \<Rightarrow> bool" where
  "sign_str sg \<longleftrightarrow> sg = [] \<or> sg = ''+'' \<or> sg = ''-''"

lemma scan_f_loop_sign:
  "sign_str sg \<Longrightarrow>
    scan_f_loop (sg @ cs) 0 (-1) 0 = scan_f_loop cs (if sg = [] then 0 else sign_of sg) (-1) 0"
  by (auto simp: sign_str_def sign_of_def scan_f_loop.simps(2))

lemma pow10_le: "n \<le> 9 \<Longrightarrow> (10::int) ^ n \<le> INT32_MAX"
  using power_increasing [of n 9 "10::int"] by (simp add: int_range_defs)

lemma digits_val_nonneg: "list_all isdigit ds \<Longrightarrow> 0 \<le> digits_val ds"
  using digits_from_ge [of ds 0] by (simp add: digits_val_from)

lemma scan_f_loop_fraction:
  assumes "list_all isdigit ds" "list_all isdigit fs" "ds @ fs \<noteq> []"
    and "digits_val (ds @ fs) \<le> INT32_MAX" "length fs \<le> 9"
  shows "scan_f_loop (ds @ CHR ''.'' # fs @ r) sg (-1) 0 =
    scan_f_loop r sg (digits_val (ds @ fs)) (10 ^ length fs)"
proof (cases "ds = []")
  case True
  with assms pow10_le [OF assms(5)] show ?thesis
    using scan_f_loop_first [of fs 1 r sg] by (simp add: scan_f_loop_dot)
next
  case False
  have "digits_val ds \<le> digits_val (ds @ fs)"
    using digits_from_ge [OF assms(2)] digits_val_nonneg [OF assms(1)]
    by (simp add: digits_val_from)
  with assms have "scan_f_loop (ds @ CHR ''.'' # fs @ r) sg (-1) 0 =
      scan_f_loop (fs @ r) sg (digits_val ds) 1"
    using scan_f_loop_first [OF assms(1) False, of 0 "CHR ''.'' # fs @ r" sg]
    by (simp add: INT32_MAX_def scan_f_loop_dot)
  also have "\<dots> = scan_f_loop r sg (digits_val (ds @ fs)) (10 ^ length fs)"
    using scan_f_loop_digits [OF assms(2), of "digits_val ds" 1 r sg] assms pow10_le [OF assms(5)]
      digits_val_nonneg [OF assms(1)]
    by (simp add: digits_val_from)
  finally show ?thesis .
qed

section \<open>The value of a decimal field\<close>

lemma scan_f_finish_value:
  assumes "0 \<le> v" "0 < k" "sign_str sg"
  shows "scan_f_finish (if sg = [] then 0 else sign_of sg, v, k) =
    Parsed \<lparr>mf_value = sign_of sg * v, mf_scale = k\<rparr>"
  using assms by (auto simp: scan_f_finish_def sign_of_def sign_str_def)

lemma scan_f_finish_int:
  assumes "0 \<le> v" "sign_str sg"
  shows "scan_f_finish (if sg = [] then 0 else sign_of sg, v, 0) =
    Parsed \<lparr>mf_value = sign_of sg * v, mf_scale = 1\<rparr>"
  using assms by (auto simp: scan_f_finish_def sign_of_def sign_str_def)

lemma scan_f_int:
  assumes "sign_str sg" "list_all isdigit ds" "ds \<noteq> []" "digits_val ds \<le> INT32_MAX" "delim r"
  shows "scan_f (Some (sg @ ds @ r)) = Parsed \<lparr>mf_value = sign_of sg * digits_val ds, mf_scale = 1\<rparr>"
proof -
  have "scan_f_loop (sg @ ds @ r) 0 (-1) 0 =
      Parsed (if sg = [] then 0 else sign_of sg, digits_val ds, 0)"
    using scan_f_loop_first [OF assms(2-4), of 0 r]
    by (simp add: scan_f_loop_sign assms scan_f_loop_end INT32_MAX_def)
  then show ?thesis
    using scan_f_finish_int [OF digits_val_nonneg [OF assms(2)] assms(1)]
    by (simp add: scan_f_def)
qed

lemma scan_f_empty: "delim r \<Longrightarrow> scan_f (Some r) = Parsed \<lparr>mf_value = 0, mf_scale = 0\<rparr>"
  by (simp add: scan_f_def scan_f_loop_end scan_f_finish_def)

text \<open>C12. A decimal field (a sign, digits, a point, at most nine more digits) whose digits make a
  number of at most 31 bits is read exactly: the value is the signed number its digits spell and
  the scale is the power of ten of the fraction's length, so value / scale is the decimal.\<close>

theorem scan_f_decimal:
  assumes "sign_str sg" "list_all isdigit ds" "list_all isdigit fs" "ds @ fs \<noteq> []"
    and "digits_val (ds @ fs) \<le> INT32_MAX" "length fs \<le> 9" "delim r"
  shows "scan_f (Some (sg @ ds @ CHR ''.'' # fs @ r)) =
    Parsed \<lparr>mf_value = sign_of sg * digits_val (ds @ fs), mf_scale = 10 ^ length fs\<rparr>"
proof -
  have "scan_f_loop (sg @ ds @ CHR ''.'' # fs @ r) 0 (-1) 0 =
      Parsed (if sg = [] then 0 else sign_of sg, digits_val (ds @ fs), 10 ^ length fs)"
    using assms by (simp add: scan_f_loop_sign scan_f_loop_fraction scan_f_loop_end)
  moreover have "0 \<le> digits_val (ds @ fs)"
    using assms by (simp add: digits_val_nonneg)
  ultimately show ?thesis
    using scan_f_finish_value [OF _ _ assms(1)] by (simp add: scan_f_def)
qed

theorem scan_f_decimal_witness:
  "scan_f (Some (''-'' @ ''3751'' @ CHR ''.'' # ''65'' @ '',S''))
    = Parsed \<lparr>mf_value = - 375165, mf_scale = 100\<rparr>"
proof -
  have "scan_f (Some (''-'' @ ''3751'' @ CHR ''.'' # ''65'' @ '',S'')) =
    Parsed \<lparr>mf_value = sign_of ''-'' * digits_val (''3751'' @ ''65''), mf_scale = 10 ^ length ''65''\<rparr>"
    by (rule scan_f_decimal; code_simp)
  also have "sign_of ''-'' * digits_val (''3751'' @ ''65'') = - 375165" by code_simp
  finally show ?thesis by simp
qed

section \<open>The range of the result\<close>

text \<open>The loop variables, for as long as nothing overflows.\<close>

definition f_inv :: "int \<times> int \<times> int \<Rightarrow> bool" where
  "f_inv = (\<lambda>(sign, v, k). sign \<in> {-1, 0, 1} \<and> -1 \<le> v \<and> v \<le> INT32_MAX \<and>
     (k = 0 \<or> (\<exists>j\<le>9. k = 10 ^ j)))"

lemma pow10_next: "j \<le> 9 \<Longrightarrow> int32_ok (10 * 10 ^ j) \<longleftrightarrow> j < 9"
proof
  assume "j \<le> 9" "int32_ok (10 * 10 ^ j)"
  then show "j < 9" by (cases "j = 9") (auto simp: int_range_defs)
next
  assume "j < 9"
  then have "(10::int) ^ Suc j \<le> INT32_MAX" by (intro pow10_le) simp
  then show "int32_ok (10 * 10 ^ j)"
    using zero_le_power [of "10::int" j] unfolding int_range_defs power_Suc by linarith
qed

lemma scan_f_loop_other:
  assumes "\<not> isdigit c" "scan_f_loop (c # cs) sg v k = res"
  obtains "res = Parsed (sg, v, k)" | "res = ParseError"
    | sg' where "sg' = sg \<or> sg' = 1 \<or> sg' = -1" "scan_f_loop cs sg' v k = res"
    | "k = 0" "c = CHR ''.''" "scan_f_loop cs sg v 1 = res"
proof -
  have "res = Parsed (sg, v, k) \<or> res = ParseError
    \<or> scan_f_loop cs sg v k = res \<or> scan_f_loop cs 1 v k = res \<or> scan_f_loop cs (-1) v k = res
    \<or> k = 0 \<and> c = CHR ''.'' \<and> scan_f_loop cs sg v 1 = res"
    using assms(1) unfolding assms(2) [symmetric] by (simp add: scan_f_loop.simps(2))
  then show thesis
    using that(1) that(2) that(3) [of sg] that(3) [of 1] that(3) [of "-1"] that(4) by argo
qed

lemma scan_f_loop_inv:
  "f_inv (sg, v, k) \<Longrightarrow> scan_f_loop cs sg v k = Parsed res \<Longrightarrow> f_inv res"
proof (induction cs arbitrary: sg v k)
  case (Cons c cs)
  show ?case
  proof (cases "isdigit c")
    case False
    from False Cons.prems(2) show ?thesis
    proof (cases rule: scan_f_loop_other)
      case 1
      with Cons.prems(1) show ?thesis by simp
    next
      case (3 sg')
      have "f_inv (sg', v, k)" using Cons.prems(1) 3(1) by (auto simp: f_inv_def)
      from Cons.IH [OF this 3(2)] show ?thesis .
    next
      case 4
      have "f_inv (sg, v, 1)"
        using Cons.prems(1) by (auto simp: f_inv_def intro: exI [of _ "0::nat"])
      from Cons.IH [OF this 4(3)] show ?thesis .
    qed simp
  next
    case True
    let ?v = "if v = -1 then 0 else v"
    have d: "0 \<le> digit_val c" "digit_val c \<le> 9"
      using isdigit_digit_val [OF True] by simp_all
    have v: "0 \<le> ?v" "?v \<le> INT32_MAX"
      using Cons.prems(1) by (auto simp: f_inv_def INT32_MAX_def)
    have kk: "(if k \<noteq> 0 then k * 10 else k) = 10 * k" by simp
    consider "INT32_MAX < 10 * ?v + digit_val c" "res = (sg, ?v, k)"
      | "10 * ?v + digit_val c \<le> INT32_MAX" "int32_ok (10 * k)"
        "scan_f_loop cs sg (10 * ?v + digit_val c) (10 * k) = Parsed res"
      using Cons.prems(2) True guard_iff [OF d v(1)]
      by (auto simp: scan_f_loop.simps(2) Let_def kk not_le split: if_splits)
    then show ?thesis
    proof cases
      case 1
      with Cons.prems(1) v show ?thesis by (auto simp: f_inv_def)
    next
      case 2
      have "f_inv (sg, 10 * ?v + digit_val c, 10 * k)"
      proof (cases "k = 0")
        case False
        then obtain j where j: "j \<le> 9" "k = 10 ^ j"
          using Cons.prems(1) by (auto simp: f_inv_def)
        with 2(2) have "\<exists>i\<le>9. 10 * k = 10 ^ i"
          by (intro exI [of _ "Suc j"]) (simp add: pow10_next)
        with Cons.prems(1) 2 d v show ?thesis unfolding f_inv_def prod.case by (intro conjI) auto
      qed (use Cons.prems(1) 2 d v in \<open>auto simp: f_inv_def\<close>)
      from Cons.IH [OF this 2(3)] show ?thesis .
    qed
  qed
qed simp

text \<open>Whatever the field holds, a decimal the scanner returns fits its 32-bit struct: the value
  is within plus and minus \<open>INT_LEAST32_MAX\<close> and the scale is a power of ten up to
  \<open>10 ^ 9\<close>, or 0 with value 0 for an empty field.\<close>

theorem scan_f_range:
  assumes "scan_f field = Parsed x"
  shows "\<bar>mf_value x\<bar> \<le> INT32_MAX \<and>
    (mf_scale x = 0 \<and> mf_value x = 0 \<or> (\<exists>j\<le>9. mf_scale x = 10 ^ j))"
proof -
  have start: "f_inv (0, -1, 0)" by (simp add: f_inv_def INT32_MAX_def)
  obtain sg v k where inv: "f_inv (sg, v, k)" and fin: "scan_f_finish (sg, v, k) = Parsed x"
  proof (cases field)
    case None
    with assms start that show ?thesis by (auto simp: scan_f_def)
  next
    case (Some f)
    with assms obtain sg v k where "scan_f_loop f 0 (-1) 0 = Parsed (sg, v, k)"
      "scan_f_finish (sg, v, k) = Parsed x"
      by (auto simp: scan_f_def split: parse.splits)
    with scan_f_loop_inv [OF start] that show ?thesis by blast
  qed
  from inv have "v = -1 \<or> 0 \<le> v" "v \<le> INT32_MAX" "sg \<in> {-1, 0, 1}"
    "k = 0 \<or> (\<exists>j\<le>9. k = 10 ^ j)"
    by (auto simp: f_inv_def)
  with fin show ?thesis
    by (auto simp: scan_f_finish_def INT32_MAX_def split: if_splits intro: exI [of _ "0::nat"])
qed

theorem scan_f_range_witness:
  "\<exists>x. scan_f (Some ''99999.9999999999,N'') = Parsed x \<and> \<bar>mf_value x\<bar> \<le> INT32_MAX"
proof -
  have "scan_f (Some ''99999.9999999999,N'') = Parsed \<lparr>mf_value = 999999999, mf_scale = 10000\<rparr>"
    by code_simp
  with scan_f_range [OF this] show ?thesis by blast
qed

section \<open>Undefined behaviour\<close>

lemma scan_f_loop_scale_Undefined:
  "scan_f_loop cs sg v (10 ^ j) = Undefined \<Longrightarrow> -1 \<le> v \<Longrightarrow> j \<le> 9 \<Longrightarrow>
    10 \<le> j + length (filter isdigit cs)"
proof (induction cs arbitrary: sg v j)
  case (Cons c cs)
  show ?case
  proof (cases "isdigit c")
    case False
    then obtain sg' where "scan_f_loop cs sg' v (10 ^ j) = Undefined"
      using Cons.prems(1) by (auto elim: scan_f_loop_other)
    from Cons.IH [OF this] Cons.prems(2,3) False show ?thesis by simp
  next
    case True
    let ?v = "if v = -1 then 0 else v"
    have d: "0 \<le> digit_val c" "digit_val c \<le> 9" and v: "0 \<le> ?v"
      using isdigit_digit_val [OF True] Cons.prems by simp_all
    show ?thesis
    proof (cases "j = 9")
      case True
      with \<open>isdigit c\<close> show ?thesis by simp
    next
      case False
      then have j: "int32_ok (10 * 10 ^ j)" "Suc j \<le> 9"
        using Cons.prems by (simp_all add: pow10_next)
      have "scan_f_loop cs sg (10 * ?v + digit_val c) (10 ^ Suc j) = Undefined"
        using Cons.prems(1) True guard_iff [OF d v] j d v
        by (auto simp: scan_f_loop.simps(2) Let_def int_range_defs mult.commute split: if_splits)
      from Cons.IH [OF this _ j(2)] d v True show ?thesis by simp
    qed
  qed
qed simp

lemma scan_f_loop_int_Undefined:
  "scan_f_loop cs sg v 0 = Undefined \<Longrightarrow> -1 \<le> v \<Longrightarrow>
    10 \<le> length (filter isdigit (dropWhile (\<lambda>c. c \<noteq> CHR ''.'') cs))"
proof (induction cs arbitrary: sg v)
  case (Cons c cs)
  show ?case
  proof (cases "isdigit c")
    case True
    let ?v = "if v = -1 then 0 else v"
    have d: "0 \<le> digit_val c" "digit_val c \<le> 9" and v: "0 \<le> ?v"
      using isdigit_digit_val [OF True] Cons.prems by simp_all
    have "scan_f_loop cs sg (10 * ?v + digit_val c) 0 = Undefined"
      using Cons.prems(1) True guard_iff [OF d v] d v
      by (auto simp: scan_f_loop.simps(2) Let_def int_range_defs split: if_splits)
    from Cons.IH [OF this] d v True show ?thesis by simp
  next
    case False
    show ?thesis
    proof (cases "c = CHR ''.''")
      case True
      with Cons.prems scan_f_loop_scale_Undefined [of cs sg v 0] show ?thesis
        by (simp add: scan_f_loop_dot)
    next
      case False
      then obtain sg' where "scan_f_loop cs sg' v 0 = Undefined"
        using Cons.prems(1) \<open>\<not> isdigit c\<close> by (auto elim: scan_f_loop_other)
      from Cons.IH [OF this] Cons.prems(2) False show ?thesis by simp
    qed
  qed
qed simp

text \<open>C27. The scanner has undefined behaviour only through the scale of a fraction: then at least
  ten digits follow the point.\<close>

theorem scan_f_Undefined:
  assumes "scan_f (Some f) = Undefined"
  shows "10 \<le> length (filter isdigit (dropWhile (\<lambda>c. c \<noteq> CHR ''.'') f))"
proof -
  have "scan_f_finish r \<noteq> Undefined" for r
    by (cases r) (simp add: scan_f_finish_def Let_def split: prod.splits)
  with assms have "scan_f_loop f 0 (-1) 0 = Undefined"
    by (auto simp: scan_f_def split: parse.splits)
  then show ?thesis using scan_f_loop_int_Undefined by fastforce
qed

text \<open>The witness is the shortest field that reaches it: ten zeros after the point overflow the
  scale, since the guard of the code watches the value only.\<close>

theorem scan_f_Undefined_witness:
  "scan_f (Some ''0.0000000000'') = Undefined \<and>
   10 \<le> length (filter isdigit (dropWhile (\<lambda>c. c \<noteq> CHR ''.'') ''0.0000000000''))"
proof -
  have "scan_f (Some ''0.0000000000'') = Undefined" by code_simp
  with scan_f_Undefined [OF this] show ?thesis by blast
qed

end
