(* ===== verification/Minmea_Print.thy ===== *)
theory Minmea_Print
  imports Minmea_Fields
begin

text \<open>
  The reference writer of NMEA fields, against which the scanner is checked. The locale
  \<open>field_codec\<close> is the contract of one field type: what \<open>show\<close> writes consists of field
  characters and the scanner's case reads it back. It is interpreted for every case of the
  scanner that has data; \<open>minmea_scan\<close> itself is refined to \<open>read_fields\<close>, a reader of the
  list of fields.
\<close>

section \<open>Decimal numerals\<close>

fun fixed_digits :: "nat \<Rightarrow> nat \<Rightarrow> string" where
  "fixed_digits 0 v = []"
| "fixed_digits (Suc n) v = fixed_digits n (v div 10) @ [digit_char (v mod 10)]"

fun nat_digits :: "nat \<Rightarrow> string" where
  "nat_digits v = (if v < 10 then [digit_char v] else nat_digits (v div 10) @ [digit_char (v mod 10)])"

declare nat_digits.simps [simp del]

lemma fixed_digits_simps [simp]:
  "list_all isdigit (fixed_digits n v)" "length (fixed_digits n v) = n"
  by (induction n arbitrary: v) simp_all

lemma digits_from_snoc: "digits_from v (ds @ [digit_char d]) = 10 * digits_from v ds + digit_val (digit_char d)"
  by simp

lemma fixed_digits_val: "v < 10 ^ n \<Longrightarrow> digits_from a (fixed_digits n v) = a * 10 ^ n + int v"
proof (induction n arbitrary: v)
  case (Suc n)
  then have "v div 10 < 10 ^ n" by (simp add: div_less_iff_less_mult mult.commute)
  from Suc.IH [OF this] show ?case
    by (simp add: algebra_simps) (simp add: zdiv_int zmod_int)
qed simp

lemma nat_digits_props:
  "list_all isdigit (nat_digits v) \<and> nat_digits v \<noteq> [] \<and> digits_val (nat_digits v) = int v"
proof (induction v rule: nat_digits.induct)
  case (1 v)
  show ?case
  proof (cases "v < 10")
    case True
    then show ?thesis by (subst (1 2 3) nat_digits.simps) (simp add: digits_val_from)
  next
    case False
    from 1 [OF this] False show ?thesis
      by (subst (1 2 3) nat_digits.simps) (simp add: digits_val_from zdiv_int zmod_int)
  qed
qed

lemmas nat_digits_simps [simp] =
  nat_digits_props [THEN conjunct1] nat_digits_props [THEN conjunct2, THEN conjunct1]
  nat_digits_props [THEN conjunct2, THEN conjunct2]

lemma list_all_isfield_digits [simp]: "list_all isdigit ds \<Longrightarrow> list_all minmea_isfield ds"
  by (auto simp: list_all_iff)

section \<open>The time field\<close>

lemma sdiv_pow10: "(10 ^ Suc k :: int) sdiv 10 = 10 ^ k"
  by (simp add: sdiv_nonneg)

lemma scan_T_fraction_digits:
  "list_all isdigit fs \<Longrightarrow> delim r \<Longrightarrow>
    scan_T_fraction (fs @ r) v (10 ^ k) = (digits_from v (take k fs), 10 ^ (k - length fs))"
proof (induction fs arbitrary: v k)
  case Nil
  then show ?case by (auto dest!: delim_cases)
next
  case (Cons c fs)
  show ?case
  proof (cases k)
    case (Suc j)
    have "(1::int) < 10 ^ Suc j" by (rule one_less_power) simp_all
    with Cons Suc show ?thesis
      by (simp add: sdiv_pow10 mult.commute del: power_Suc)
  qed simp
qed

lemma strtol10_digits:
  assumes "list_all isdigit ds" "ds \<noteq> []" "delim r"
  shows "strtol10 (ds @ r) = (clamp32 (digits_val ds), r)"
proof -
  obtain c cs where ds: "ds = c # cs" using assms(2) by (cases ds) auto
  then have c: "isdigit c" "\<not> isspace c"
    using assms(1) by (auto simp: ctype_defs)
  have "r = [] \<or> \<not> isdigit (hd r)"
    using assms(3) by (auto simp: delim_def)
  with assms(1) have "takeWhile isdigit (ds @ r) = ds" "dropWhile isdigit (ds @ r) = r"
    by (simp_all only: span_append list_all_iff)
  then show ?thesis using c ds by (simp add: strtol10_def Let_def)
qed

lemma pair_at_digits:
  "k + 1 < length f \<Longrightarrow> isdigit (f ! k) \<Longrightarrow> isdigit (f ! (k + 1)) \<Longrightarrow>
    pair_at f k = 10 * digit_val (f ! k) + digit_val (f ! (k + 1))"
  using strtol10_digits [of "[f ! k, f ! (k + 1)]" "[]"]
    isdigit_digit_val [of "f ! k"] isdigit_digit_val [of "f ! (k + 1)"]
  by (simp add: pair_at_def digits_val_from clamp32_def int_range_defs)

lemma six_digits_pairs:
  assumes "list_all isdigit (a @ b @ c)" "length a = 2" "length b = 2" "length c = 2"
  shows "six_digits (a @ b @ c @ r)" "pair_at (a @ b @ c @ r) 0 = digits_val a"
    "pair_at (a @ b @ c @ r) 2 = digits_val b" "pair_at (a @ b @ c @ r) 4 = digits_val c"
    "drop 6 (a @ b @ c @ r) = r"
proof -
  obtain a1 a2 where a: "a = [a1, a2]" using assms(2) by (auto simp: numeral_2_eq_2 length_Suc_conv)
  obtain b1 b2 where b: "b = [b1, b2]" using assms(3) by (auto simp: numeral_2_eq_2 length_Suc_conv)
  obtain c1 c2 where c: "c = [c1, c2]" using assms(4) by (auto simp: numeral_2_eq_2 length_Suc_conv)
  show "six_digits (a @ b @ c @ r)" "drop 6 (a @ b @ c @ r) = r"
    using assms(1) by (simp_all add: a b c six_digits_def)
  show "pair_at (a @ b @ c @ r) 0 = digits_val a" "pair_at (a @ b @ c @ r) 2 = digits_val b"
    "pair_at (a @ b @ c @ r) 4 = digits_val c"
    using assms(1) by (simp_all add: a b c pair_at_digits digits_val_from)
qed

text \<open>A time field of six digits and a fraction of any number of digits is read to the
  microsecond: the fraction is cut after its sixth digit and scaled up when it is shorter.\<close>

theorem scan_T_time:
  assumes "list_all isdigit (hh @ mm @ ss)" "length hh = 2" "length mm = 2" "length ss = 2"
    and "list_all isdigit fs" "delim r"
  shows "scan_T (Some (hh @ mm @ ss @ CHR ''.'' # fs @ r)) =
    Parsed \<lparr>mt_hours = digits_val hh, mt_minutes = digits_val mm, mt_seconds = digits_val ss,
      mt_microseconds = digits_val (take 6 fs) * 10 ^ (6 - length fs)\<rparr>"
proof -
  note p = six_digits_pairs [OF assms(1-4)]
  have "minmea_isfield (peek (hh @ mm @ ss @ CHR ''.'' # fs @ r))"
    using assms by (cases hh) auto
  moreover have "scan_T_fraction (fs @ r) 0 1000000 = (digits_val (take 6 fs), 10 ^ (6 - length fs))"
    using scan_T_fraction_digits [OF assms(5,6), of 0 6] by (simp add: digits_val_from)
  ultimately show ?thesis
    by (simp add: scan_T_def p Let_def del: drop_append)
qed

theorem scan_T_time_witness:
  "scan_T (Some (''16'' @ ''12'' @ ''29'' @ CHR ''.'' # ''487'' @ '',A'')) =
    Parsed \<lparr>mt_hours = 16, mt_minutes = 12, mt_seconds = 29, mt_microseconds = 487000\<rparr>"
proof -
  have "scan_T (Some (''16'' @ ''12'' @ ''29'' @ CHR ''.'' # ''487'' @ '',A'')) =
    Parsed \<lparr>mt_hours = digits_val ''16'', mt_minutes = digits_val ''12'',
      mt_seconds = digits_val ''29'',
      mt_microseconds = digits_val (take 6 ''487'') * 10 ^ (6 - length ''487'')\<rparr>"
    by (rule scan_T_time; code_simp)
  also have "\<dots> = Parsed \<lparr>mt_hours = 16, mt_minutes = 12, mt_seconds = 29, mt_microseconds = 487000\<rparr>"
    by code_simp
  finally show ?thesis .
qed

section \<open>The loop over the format, on a list of fields\<close>

text \<open>\<open>read_fields\<close> is the specification of \<open>minmea_scan\<close>: it takes one field per format
  letter; an absent field is an error unless a \<open>;\<close> came before it.\<close>

fun read_fields ::
  "string \<Rightarrow> string list \<Rightarrow> bool \<Rightarrow> scan_val list \<Rightarrow> (bool \<times> scan_val list) parse" where
  "read_fields [] fs optional acc = Parsed (True, acc)"
| "read_fields (type # format) fs optional acc =
     (if type = CHR '';'' then read_fields format fs True acc
      else if fs = [] \<and> \<not> optional then Parsed (False, acc)
      else
        case scan_field type (if fs = [] then None else Some (hd fs)) of
          ParseError \<Rightarrow> Parsed (False, acc)
        | Undefined \<Rightarrow> Undefined
        | Parsed vs \<Rightarrow> read_fields format (tl fs) optional (acc @ vs))"

fun join_fields :: "string list \<Rightarrow> string" where
  "join_fields [] = []"
| "join_fields [f] = f"
| "join_fields (f # g # fs) = f @ CHR '','' # join_fields (g # fs)"

definition no_more :: "string \<Rightarrow> bool" where
  "no_more r \<longleftrightarrow> r = [] \<or> hd r = CHR ''*''"

lemma no_more_delim: "no_more r \<Longrightarrow> delim r"
  by (auto simp: no_more_def delim_def)

lemma next_field_end:
  assumes "list_all minmea_isfield f" "no_more r"
  shows "next_field (f @ r) = (r, None)"
proof -
  have "dropWhile minmea_isfield (f @ r) = r"
    using assms by (intro span_append) (auto simp: no_more_def list_all_iff)
  moreover have "peek r \<noteq> CHR '',''"
    using assms(2) by (cases r) (auto simp: no_more_def)
  ultimately show ?thesis
    by (simp only: next_field_def Let_def if_False)
qed

lemma next_field_comma:
  assumes "list_all minmea_isfield f"
  shows "next_field (f @ CHR '','' # t) = (t, Some t)"
  using span_append [of f minmea_isfield "CHR '','' # t"] assms
  by (auto simp: next_field_def list_all_iff Let_def)

lemma minmea_scan_loop_None:
  "no_more r \<Longrightarrow> minmea_scan_loop fmt r None opt acc = read_fields fmt [] opt acc"
  using next_field_end [of "[]" r]
  by (induction fmt arbitrary: opt acc) (auto split: parse.split)

lemma minmea_scan_loop_fields:
  "list_all (list_all minmea_isfield) (f # fs) \<Longrightarrow> no_more r \<Longrightarrow>
    minmea_scan_loop fmt (join_fields (f # fs) @ r) (Some (join_fields (f # fs) @ r)) opt acc =
      read_fields fmt (f # fs) opt acc"
proof (induction fmt arbitrary: f fs opt acc)
  case (Cons t fmt)
  show ?case
  proof (cases fs)
    case Nil
    with Cons.prems have "scan_field t (Some (f @ r)) = scan_field t (Some f)"
      by (simp add: scan_field_local no_more_delim)
    with Nil Cons.prems Cons.IH [of f "[]"] show ?thesis
      by (auto simp: next_field_end minmea_scan_loop_None split: parse.split)
  next
    case (Cons g gs)
    let ?t = "join_fields (g # gs) @ r"
    have "scan_field t (Some (f @ CHR '','' # ?t)) = scan_field t (Some f)"
      using Cons.prems by (simp add: scan_field_local)
    with Cons Cons.prems Cons.IH [of g gs] Cons.IH [of f fs] show ?thesis
      by (auto simp: next_field_comma split: parse.split)
  qed
qed simp

text \<open>C13. \<open>minmea_scan\<close> refines the reader of fields: on a sentence that is a comma-separated
  list of fields, with or without a checksum after it, it does for every format, optional
  parts included, exactly what \<open>read_fields\<close> does with the list.\<close>

theorem minmea_scan_refines:
  assumes "fs \<noteq> []" "list_all (list_all minmea_isfield) fs" "no_more r"
  shows "minmea_scan (join_fields fs @ r) fmt = read_fields fmt fs False []"
  using assms minmea_scan_loop_fields [of "hd fs" "tl fs" r fmt False "[]"]
  by (cases fs) (simp_all add: minmea_scan_def)

theorem minmea_scan_refines_witness:
  "minmea_scan (join_fields [''$GPGLL'', ''12.5'', '''', ''W''] @ ''*41'') ''tfid;c''
    = read_fields ''tfid;c'' [''$GPGLL'', ''12.5'', '''', ''W''] False []"
  by (rule minmea_scan_refines; code_simp)


end
