(* ===== verification/Minmea_Parse.thy ===== *)
theory Minmea_Parse
  imports Minmea_Print "HOL-Library.Monad_Syntax"
begin

text \<open>
  The sentence level of \<^verbatim>\<open>minmea.c\<close> and \<^verbatim>\<open>minmea.h\<close>: talker and sentence identifiers, the six
  sentence parsers, \<open>minmea_gettime\<close> (over the C library's \<open>mktime\<close>, a parameter) and the
  fixed-point \<open>minmea_rescale\<close>. \<open>Parsed frame\<close> is a call that returned true with the frame
  filled, \<open>ParseError\<close> one that returned false.
\<close>

section \<open>The values of a scan\<close>

fun as_char :: "scan_val \<Rightarrow> char" where "as_char (VChar c) = c"
fun as_int :: "scan_val \<Rightarrow> int" where "as_int (VInt i) = i"
fun as_float :: "scan_val \<Rightarrow> minmea_float" where "as_float (VFloat x) = x"
fun as_string :: "scan_val \<Rightarrow> string" where "as_string (VString s) = s"
fun as_date :: "scan_val \<Rightarrow> minmea_date" where "as_date (VDate d) = d"
fun as_time :: "scan_val \<Rightarrow> minmea_time" where "as_time (VTime t) = t"

text \<open>The letter of the format that produces a value: what ties the accessors to the format.\<close>

fun letter_fits :: "char \<Rightarrow> scan_val \<Rightarrow> bool" where
  "letter_fits t (VChar c) \<longleftrightarrow> t = CHR ''c''"
| "letter_fits t (VInt i) \<longleftrightarrow> t = CHR ''i'' \<or> t = CHR ''d''"
| "letter_fits t (VFloat x) \<longleftrightarrow> t = CHR ''f''"
| "letter_fits t (VString s) \<longleftrightarrow> t = CHR ''s'' \<or> t = CHR ''t''"
| "letter_fits t (VDate d) \<longleftrightarrow> t = CHR ''D''"
| "letter_fits t (VTime u) \<longleftrightarrow> t = CHR ''T''"

definition data_letters :: "string \<Rightarrow> string" where
  "data_letters fmt = filter (\<lambda>t. t \<noteq> CHR '';'' \<and> t \<noteq> CHR ''_'') fmt"

lemma scan_field_fits:
  "scan_field t fld = Parsed vs \<Longrightarrow> list_all2 letter_fits (data_letters [t]) vs \<or> t = CHR '';''"
  by (auto simp: scan_field_def data_letters_def split: if_splits)

lemma minmea_scan_loop_fits:
  "minmea_scan_loop fmt s fld opt acc = Parsed (True, vs) \<Longrightarrow>
    \<exists>ws. vs = acc @ ws \<and> list_all2 letter_fits (data_letters fmt) ws"
proof (induction fmt arbitrary: s fld opt acc)
  case (Cons t fmt)
  show ?case
  proof (cases "t = CHR '';''")
    case True
    with Cons show ?thesis by (simp add: data_letters_def)
  next
    case False
    with Cons.prems obtain us s' fld' where us: "scan_field t fld = Parsed us"
      "minmea_scan_loop fmt s' fld' opt (acc @ us) = Parsed (True, vs)"
      by (auto split: if_splits parse.splits prod.splits)
    from Cons.IH [OF us(2)] obtain ws where "vs = acc @ us @ ws"
      "list_all2 letter_fits (data_letters fmt) ws" by auto
    moreover have "data_letters (t # fmt) = data_letters [t] @ data_letters fmt"
      by (simp add: data_letters_def)
    ultimately show ?thesis
      using scan_field_fits [OF us(1)] False by (auto intro: list_all2_appendI)
  qed
qed (simp add: data_letters_def)

text \<open>C28. When \<open>minmea_scan\<close> returns true it has written every output the format names, each with
  a value of the type its letter stands for, whatever the sentence was.\<close>

theorem minmea_scan_fits:
  assumes "minmea_scan s fmt = Parsed (True, vs)"
  shows "list_all2 letter_fits (data_letters fmt) vs"
  using minmea_scan_loop_fits assms by (fastforce simp: minmea_scan_def)

theorem minmea_scan_fits_witness:
  "list_all2 letter_fits (data_letters ''tii;i'') [VString ''GPGSV'', VInt 4, VInt 2, VInt 0]"
  by (rule minmea_scan_fits [of "''$GPGSV,4,2*7B''"]) code_simp

section \<open>Talker and sentence identifiers\<close>

definition minmea_talker_id :: "string \<Rightarrow> string parse" where
  "minmea_talker_id sentence =
     (case minmea_scan sentence ''t'' of
        Undefined \<Rightarrow> Undefined
      | ParseError \<Rightarrow> ParseError
      | Parsed (ok, vs) \<Rightarrow>
          if \<not> ok then ParseError
          else let type = as_string (vs ! 0) in Parsed [type ! 0, type ! 1])"

datatype sentence_id =
    MINMEA_INVALID
  | MINMEA_UNKNOWN
  | MINMEA_SENTENCE_RMC
  | MINMEA_SENTENCE_GGA
  | MINMEA_SENTENCE_GSA
  | MINMEA_SENTENCE_GLL
  | MINMEA_SENTENCE_GST
  | MINMEA_SENTENCE_GSV

definition id_of_type :: "string \<Rightarrow> sentence_id" where
  "id_of_type t =
     (if t = ''RMC'' then MINMEA_SENTENCE_RMC
      else if t = ''GGA'' then MINMEA_SENTENCE_GGA
      else if t = ''GSA'' then MINMEA_SENTENCE_GSA
      else if t = ''GLL'' then MINMEA_SENTENCE_GLL
      else if t = ''GST'' then MINMEA_SENTENCE_GST
      else if t = ''GSV'' then MINMEA_SENTENCE_GSV
      else MINMEA_UNKNOWN)"

definition minmea_sentence_id :: "string \<Rightarrow> bool \<Rightarrow> sentence_id parse" where
  "minmea_sentence_id sentence strict =
     (if \<not> minmea_check sentence strict then Parsed MINMEA_INVALID
      else case minmea_scan sentence ''t'' of
        Undefined \<Rightarrow> Undefined
      | ParseError \<Rightarrow> Parsed MINMEA_INVALID
      | Parsed (ok, vs) \<Rightarrow>
          if \<not> ok then Parsed MINMEA_INVALID
          else Parsed (id_of_type (drop 2 (as_string (vs ! 0)))))"

section \<open>The sentence structures\<close>

record minmea_sentence_rmc =
  rmc_time :: minmea_time
  rmc_valid :: bool
  rmc_latitude :: minmea_float
  rmc_longitude :: minmea_float
  rmc_speed :: minmea_float
  rmc_course :: minmea_float
  rmc_date :: minmea_date
  rmc_variation :: minmea_float

record minmea_sentence_gga =
  gga_time :: minmea_time
  gga_latitude :: minmea_float
  gga_longitude :: minmea_float
  gga_fix_quality :: int
  gga_satellites_tracked :: int
  gga_hdop :: minmea_float
  gga_altitude :: minmea_float
  gga_altitude_units :: char
  gga_height :: minmea_float
  gga_height_units :: char
  gga_dgps_age :: int

record minmea_sentence_gll =
  gll_latitude :: minmea_float
  gll_longitude :: minmea_float
  gll_time :: minmea_time
  gll_status :: char
  gll_mode :: char

record minmea_sentence_gst =
  gst_time :: minmea_time
  gst_rms_deviation :: minmea_float
  gst_semi_major_deviation :: minmea_float
  gst_semi_minor_deviation :: minmea_float
  gst_semi_major_orientation :: minmea_float
  gst_latitude_error_deviation :: minmea_float
  gst_longitude_error_deviation :: minmea_float
  gst_altitude_error_deviation :: minmea_float

record minmea_sentence_gsa =
  gsa_mode :: char
  gsa_fix_type :: int
  gsa_sats :: "int list"
  gsa_pdop :: minmea_float
  gsa_hdop :: minmea_float
  gsa_vdop :: minmea_float

record minmea_sat_info =
  si_nr :: int
  si_elevation :: int
  si_azimuth :: int
  si_snr :: int

record minmea_sentence_gsv =
  gsv_total_msgs :: int
  gsv_msg_nr :: int
  gsv_total_sats :: int
  gsv_sats :: "minmea_sat_info list"

section \<open>The parsers\<close>

text \<open>The three steps the parsers share: scan, compare the type, fill the frame.\<close>

definition parse_frame ::
  "string \<Rightarrow> string \<Rightarrow> (scan_val list \<Rightarrow> 'a) \<Rightarrow> string \<Rightarrow> 'a parse" where
  "parse_frame format type fill sentence =
     (case minmea_scan sentence format of
        Undefined \<Rightarrow> Undefined
      | ParseError \<Rightarrow> ParseError
      | Parsed (ok, vs) \<Rightarrow>
          if \<not> ok then ParseError
          else if drop 2 (as_string (vs ! 0)) \<noteq> type then ParseError
          else Parsed (fill vs))"

text \<open>\<open>x.value *= direction\<close>\<close>

definition directed :: "minmea_float \<Rightarrow> int \<Rightarrow> minmea_float" where
  "directed x direction = x\<lparr>mf_value := mf_value x * direction\<rparr>"

definition fill_rmc :: "scan_val list \<Rightarrow> minmea_sentence_rmc" where
  "fill_rmc vs =
     \<lparr>rmc_time = as_time (vs ! 1),
      rmc_valid = (as_char (vs ! 2) = CHR ''A''),
      rmc_latitude = directed (as_float (vs ! 3)) (as_int (vs ! 4)),
      rmc_longitude = directed (as_float (vs ! 5)) (as_int (vs ! 6)),
      rmc_speed = as_float (vs ! 7),
      rmc_course = as_float (vs ! 8),
      rmc_date = as_date (vs ! 9),
      rmc_variation = directed (as_float (vs ! 10)) (as_int (vs ! 11))\<rparr>"

definition minmea_parse_rmc :: "string \<Rightarrow> minmea_sentence_rmc parse" where
  "minmea_parse_rmc = parse_frame ''tTcfdfdffDfd'' ''RMC'' fill_rmc"

definition fill_gga :: "scan_val list \<Rightarrow> minmea_sentence_gga" where
  "fill_gga vs =
     \<lparr>gga_time = as_time (vs ! 1),
      gga_latitude = directed (as_float (vs ! 2)) (as_int (vs ! 3)),
      gga_longitude = directed (as_float (vs ! 4)) (as_int (vs ! 5)),
      gga_fix_quality = as_int (vs ! 6),
      gga_satellites_tracked = as_int (vs ! 7),
      gga_hdop = as_float (vs ! 8),
      gga_altitude = as_float (vs ! 9),
      gga_altitude_units = as_char (vs ! 10),
      gga_height = as_float (vs ! 11),
      gga_height_units = as_char (vs ! 12),
      gga_dgps_age = as_int (vs ! 13)\<rparr>"

definition minmea_parse_gga :: "string \<Rightarrow> minmea_sentence_gga parse" where
  "minmea_parse_gga = parse_frame ''tTfdfdiiffcfci_'' ''GGA'' fill_gga"

definition fill_gsa :: "scan_val list \<Rightarrow> minmea_sentence_gsa" where
  "fill_gsa vs =
     \<lparr>gsa_mode = as_char (vs ! 1),
      gsa_fix_type = as_int (vs ! 2),
      gsa_sats = map as_int (take 12 (drop 3 vs)),
      gsa_pdop = as_float (vs ! 15),
      gsa_hdop = as_float (vs ! 16),
      gsa_vdop = as_float (vs ! 17)\<rparr>"

definition minmea_parse_gsa :: "string \<Rightarrow> minmea_sentence_gsa parse" where
  "minmea_parse_gsa = parse_frame ''tciiiiiiiiiiiiifff'' ''GSA'' fill_gsa"

definition fill_gll :: "scan_val list \<Rightarrow> minmea_sentence_gll" where
  "fill_gll vs =
     \<lparr>gll_latitude = directed (as_float (vs ! 1)) (as_int (vs ! 2)),
      gll_longitude = directed (as_float (vs ! 3)) (as_int (vs ! 4)),
      gll_time = as_time (vs ! 5),
      gll_status = as_char (vs ! 6),
      gll_mode = as_char (vs ! 7)\<rparr>"

definition minmea_parse_gll :: "string \<Rightarrow> minmea_sentence_gll parse" where
  "minmea_parse_gll = parse_frame ''tfdfdTc;c'' ''GLL'' fill_gll"

definition fill_gst :: "scan_val list \<Rightarrow> minmea_sentence_gst" where
  "fill_gst vs =
     \<lparr>gst_time = as_time (vs ! 1),
      gst_rms_deviation = as_float (vs ! 2),
      gst_semi_major_deviation = as_float (vs ! 3),
      gst_semi_minor_deviation = as_float (vs ! 4),
      gst_semi_major_orientation = as_float (vs ! 5),
      gst_latitude_error_deviation = as_float (vs ! 6),
      gst_longitude_error_deviation = as_float (vs ! 7),
      gst_altitude_error_deviation = as_float (vs ! 8)\<rparr>"

definition minmea_parse_gst :: "string \<Rightarrow> minmea_sentence_gst parse" where
  "minmea_parse_gst = parse_frame ''tTfffffff'' ''GST'' fill_gst"

definition sat_at :: "scan_val list \<Rightarrow> nat \<Rightarrow> minmea_sat_info" where
  "sat_at vs k =
     \<lparr>si_nr = as_int (vs ! k), si_elevation = as_int (vs ! (k + 1)),
      si_azimuth = as_int (vs ! (k + 2)), si_snr = as_int (vs ! (k + 3))\<rparr>"

definition fill_gsv :: "scan_val list \<Rightarrow> minmea_sentence_gsv" where
  "fill_gsv vs =
     \<lparr>gsv_total_msgs = as_int (vs ! 1),
      gsv_msg_nr = as_int (vs ! 2),
      gsv_total_sats = as_int (vs ! 3),
      gsv_sats = [sat_at vs 4, sat_at vs 8, sat_at vs 12, sat_at vs 16]\<rparr>"

definition minmea_parse_gsv :: "string \<Rightarrow> minmea_sentence_gsv parse" where
  "minmea_parse_gsv = parse_frame ''tiii;iiiiiiiiiiiiiiii'' ''GSV'' fill_gsv"

text \<open>Every format starts with \<open>t\<close>, so a successful parse has read the same identifier as
  \<open>minmea_scan sentence ''t''\<close>.\<close>

lemma read_type_prefix:
  assumes "minmea_scan s (CHR ''t'' # fmt) = Parsed (True, vs)"
  shows "minmea_scan s ''t'' = Parsed (True, [vs ! 0])"
proof -
  from assms obtain us s' fld' where us: "scan_field (CHR ''t'') (Some s) = Parsed us"
    "minmea_scan_loop fmt s' fld' False us = Parsed (True, vs)"
    by (auto simp: minmea_scan_def split: if_splits parse.splits prod.splits)
  from us(1) obtain w where "us = [w]"
    by (auto simp: scan_field_def)
  moreover from minmea_scan_loop_fits [OF us(2)] obtain ws where "vs = us @ ws" by blast
  ultimately show ?thesis
    using us(1) by (auto simp: minmea_scan_def split: prod.splits)
qed

lemma parse_frame_id:
  assumes "parse_frame (CHR ''t'' # fmt) t fill s = Parsed frame" "minmea_check s strict"
  shows "minmea_sentence_id s strict = Parsed (id_of_type t)"
proof -
  from assms(1) obtain vs where vs: "minmea_scan s (CHR ''t'' # fmt) = Parsed (True, vs)"
    "drop 2 (as_string (vs ! 0)) = t"
    by (auto simp: parse_frame_def split: parse.splits if_splits)
  show ?thesis
    using read_type_prefix [OF vs(1)] vs(2) assms(2) by (simp add: minmea_sentence_id_def)
qed

text \<open>C29. The parsers and \<open>minmea_sentence_id\<close> agree: a checked sentence one of the parsers accepts
  is identified as the sentence of that parser, so no sentence is accepted by two parsers.\<close>

theorem minmea_parsers_agree_with_id:
  assumes "minmea_check s strict"
  shows "(minmea_parse_rmc s = Parsed rmc \<longrightarrow> minmea_sentence_id s strict = Parsed MINMEA_SENTENCE_RMC) \<and>
    (minmea_parse_gga s = Parsed gga \<longrightarrow> minmea_sentence_id s strict = Parsed MINMEA_SENTENCE_GGA) \<and>
    (minmea_parse_gsa s = Parsed gsa \<longrightarrow> minmea_sentence_id s strict = Parsed MINMEA_SENTENCE_GSA) \<and>
    (minmea_parse_gll s = Parsed gll \<longrightarrow> minmea_sentence_id s strict = Parsed MINMEA_SENTENCE_GLL) \<and>
    (minmea_parse_gst s = Parsed gst \<longrightarrow> minmea_sentence_id s strict = Parsed MINMEA_SENTENCE_GST) \<and>
    (minmea_parse_gsv s = Parsed gsv \<longrightarrow> minmea_sentence_id s strict = Parsed MINMEA_SENTENCE_GSV)"
  unfolding minmea_parse_rmc_def minmea_parse_gga_def minmea_parse_gsa_def minmea_parse_gll_def
    minmea_parse_gst_def minmea_parse_gsv_def
  by (intro conjI impI; drule parse_frame_id [OF _ assms]; simp add: id_of_type_def)

theorem minmea_parsers_agree_with_id_witness:
  "minmea_sentence_id ''$GPGLL,3723.2475,N,12158.3416,W,161229.487,A*2C'' False
    = Parsed MINMEA_SENTENCE_GLL"
proof -
  have c: "minmea_check ''$GPGLL,3723.2475,N,12158.3416,W,161229.487,A*2C'' False"
    by code_simp
  have "minmea_parse_gll ''$GPGLL,3723.2475,N,12158.3416,W,161229.487,A*2C'' =
    Parsed \<lparr>gll_latitude = \<lparr>mf_value = 37232475, mf_scale = 10000\<rparr>,
      gll_longitude = \<lparr>mf_value = -121583416, mf_scale = 10000\<rparr>,
      gll_time = \<lparr>mt_hours = 16, mt_minutes = 12, mt_seconds = 29, mt_microseconds = 487000\<rparr>,
      gll_status = CHR ''A'', gll_mode = NUL\<rparr>"
    by code_simp
  with minmea_parsers_agree_with_id [OF c] show ?thesis by blast
qed

section \<open>\<open>minmea_gettime\<close>\<close>

record tm =
  tm_year :: int
  tm_mon :: int
  tm_mday :: int
  tm_hour :: int
  tm_min :: int
  tm_sec :: int

record timespec =
  tv_sec :: int
  tv_nsec :: int

text \<open>\<open>mktime\<close> is the C library's. The \<open>int\<close> arithmetic of the code is checked.\<close>

definition tm_of :: "minmea_date \<Rightarrow> minmea_time \<Rightarrow> tm option" where
  "tm_of date tim =
     (if int32_ok (2000 + md_year date) \<and> int32_ok (2000 + md_year date - 1900)
         \<and> int32_ok (md_month date - 1)
      then Some \<lparr>tm_year = 2000 + md_year date - 1900, tm_mon = md_month date - 1,
        tm_mday = md_day date, tm_hour = mt_hours tim, tm_min = mt_minutes tim,
        tm_sec = mt_seconds tim\<rparr>
      else None)"

definition minmea_gettime ::
  "(tm \<Rightarrow> int) \<Rightarrow> minmea_date \<Rightarrow> minmea_time \<Rightarrow> timespec parse" where
  "minmea_gettime mktime date tim =
     (if md_year date = -1 \<or> mt_hours tim = -1 then ParseError
      else case tm_of date tim of
        None \<Rightarrow> Undefined
      | Some tm \<Rightarrow>
          let timestamp = mktime tm in
          if timestamp \<noteq> -1 then
            (if int32_ok (mt_microseconds tim * 1000)
             then Parsed \<lparr>tv_sec = timestamp, tv_nsec = mt_microseconds tim * 1000\<rparr>
             else Undefined)
          else ParseError)"

section \<open>\<open>minmea_rescale\<close>\<close>

definition cdiv :: "int \<Rightarrow> int \<Rightarrow> int option" where
  "cdiv a b = (if b = 0 then None else chk32 (a sdiv b))"

definition cmul :: "int \<Rightarrow> int \<Rightarrow> int option" where
  "cmul a b = chk32 (a * b)"

definition cadd :: "int \<Rightarrow> int \<Rightarrow> int option" where
  "cadd a b = chk32 (a + b)"

definition sign_int :: "int \<Rightarrow> int" where
  "sign_int v = (if v > 0 then 1 else 0) - (if v < 0 then 1 else 0)"

definition minmea_rescale :: "minmea_float \<Rightarrow> int \<Rightarrow> int option" where
  "minmea_rescale f new_scale =
     (if mf_scale f = 0 then Some 0
      else if mf_scale f = new_scale then Some (mf_value f)
      else if mf_scale f > new_scale then
        do {
          s \<leftarrow> cmul (sign_int (mf_value f)) (mf_scale f);
          q \<leftarrow> cdiv s new_scale;
          h \<leftarrow> cdiv q 2;
          n \<leftarrow> cadd (mf_value f) h;
          d \<leftarrow> cdiv (mf_scale f) new_scale;
          cdiv n d
        }
      else
        do {
          d \<leftarrow> cdiv new_scale (mf_scale f);
          cmul (mf_value f) d
        })"

text \<open>Round half away from zero.\<close>

definition round_half_away :: "int \<Rightarrow> int \<Rightarrow> int" where
  "round_half_away v m = sign_int v * ((2 * \<bar>v\<bar> + m) div (2 * m))"

lemma sdiv_signed:
  "0 \<le> a \<Longrightarrow> 0 < b \<Longrightarrow> (sign_int v * a) sdiv b = sign_int v * (a div b)"
  by (auto simp: sign_int_def sdiv_uminus sdiv_nonneg)

lemma sign_int_abs: "v = sign_int v * \<bar>v\<bar>"
  by (simp add: sign_int_def)

lemma int32_ok_signed: "0 \<le> a \<Longrightarrow> a \<le> INT32_MAX \<Longrightarrow> int32_ok (sign_int v * a)"
  by (simp add: sign_int_def int_range_defs)

lemma minmea_rescale_down:
  assumes "0 < t" "0 < h" "m = 2 * h" "m * t \<le> INT32_MAX" "\<bar>v\<bar> + h \<le> INT32_MAX"
  shows "minmea_rescale \<lparr>mf_value = v, mf_scale = m * t\<rparr> t =
    Some (sign_int v * ((\<bar>v\<bar> + h) div m))"
proof -
  have pos: "0 < m" "0 < m * t" "0 \<le> \<bar>v\<bar> + h" using assms(1-3) by auto
  have m: "m \<le> m * t" "h \<le> m" "1 < m" "t < m * t" using assms(1-3) by auto
  have s1: "(sign_int v * (m * t)) sdiv t = sign_int v * m"
    using pos assms(1) by (simp add: sdiv_signed)
  have s2: "(sign_int v * m) sdiv 2 = sign_int v * h"
    using pos assms(3) by (simp add: sdiv_signed)
  have s3: "v + sign_int v * h = sign_int v * (\<bar>v\<bar> + h)" if "v \<noteq> 0"
    using that by (simp add: sign_int_def)
  have s4: "(sign_int v * (\<bar>v\<bar> + h)) sdiv m = sign_int v * ((\<bar>v\<bar> + h) div m)"
    using pos by (simp add: sdiv_signed)
  have s5: "(m * t) sdiv t = m"
    using pos assms(1) by (simp add: sdiv_nonneg)
  have q: "0 \<le> (\<bar>v\<bar> + h) div m" "(\<bar>v\<bar> + h) div m \<le> \<bar>v\<bar> + h"
    using pos m(3) zdiv_mono2 [of "\<bar>v\<bar> + h" 1 m] by (simp_all add: pos_imp_zdiv_nonneg_iff)
  have ok: "int32_ok (sign_int v * (m * t))" "int32_ok (sign_int v * m)" "int32_ok (sign_int v * h)"
    "int32_ok (sign_int v * (\<bar>v\<bar> + h))" "int32_ok m" "int32_ok (sign_int v * ((\<bar>v\<bar> + h) div m))"
    using assms(2,4,5) m q pos
    by (intro int32_ok_signed int32_ok_small; (unfold int_range_defs)?; linarith)+
  show ?thesis
  proof (cases "v = 0")
    case True
    then show ?thesis
      using ok s5 m pos by (simp add: minmea_rescale_def cmul_def cdiv_def cadd_def sign_int_def int_range_defs chk32_def)
  next
    case False
    have "minmea_rescale \<lparr>mf_value = v, mf_scale = m * t\<rparr> t = do {
        n \<leftarrow> cadd v (sign_int v * h); cdiv n m }"
      using m pos assms(1) s1 s2 s5 ok by (simp add: minmea_rescale_def cmul_def cdiv_def chk32_def)
    also have "\<dots> = Some (sign_int v * ((\<bar>v\<bar> + h) div m))"
      using pos s3 [OF False] s4 ok by (simp add: cadd_def cdiv_def chk32_def)
    finally show ?thesis .
  qed
qed

lemma minmea_rescale_up:
  assumes "0 < t" "0 < m" "m \<le> INT32_MAX" "\<bar>v\<bar> * m \<le> INT32_MAX"
  shows "minmea_rescale \<lparr>mf_value = v, mf_scale = t\<rparr> (m * t) = Some (v * m)"
proof -
  have "(m * t) sdiv t = m"
    using assms(1,2) by (simp add: sdiv_nonneg)
  moreover have "int32_ok m" "int32_ok (v * m)"
    using assms(2-4) abs_mult [of v m] by (auto simp: int_range_defs abs_le_iff)
  moreover have "t \<le> m * t" using assms(1,2) by simp
  ultimately show ?thesis
    using assms(1,2) by (auto simp: minmea_rescale_def cmul_def cdiv_def chk32_def)
qed

lemma pow10_split: "j \<le> i \<Longrightarrow> (10::int) ^ i = 10 ^ (i - j) * 10 ^ j"
  by (simp flip: power_add)

text \<open>Coarsening a fixed-point value rounds it to the nearest multiple, halves away from zero
  (and not towards zero, as the header says), whenever the value plus half a unit is an
  \<open>int_least32_t\<close>; refining it multiplies exactly, whenever the product fits.\<close>

theorem minmea_rescale_rounds:
  assumes "\<bar>v\<bar> \<le> INT32_MAX" "i \<le> 9" "j \<le> 9"
  shows "(j < i \<and> \<bar>v\<bar> + 10 ^ (i - j) div 2 \<le> INT32_MAX \<longrightarrow>
      minmea_rescale \<lparr>mf_value = v, mf_scale = 10 ^ i\<rparr> (10 ^ j) = Some (round_half_away v (10 ^ (i - j)))) \<and>
    (i \<le> j \<and> \<bar>v\<bar> * 10 ^ (j - i) \<le> INT32_MAX \<longrightarrow>
      minmea_rescale \<lparr>mf_value = v, mf_scale = 10 ^ i\<rparr> (10 ^ j) = Some (v * 10 ^ (j - i)))"
proof (intro conjI impI; elim conjE)
  assume lt: "j < i" and fits: "\<bar>v\<bar> + 10 ^ (i - j) div 2 \<le> INT32_MAX"
  then obtain d where d: "i - j = Suc d" by (cases "i - j") auto
  have "minmea_rescale \<lparr>mf_value = v, mf_scale = 10 ^ (i - j) * 10 ^ j\<rparr> (10 ^ j) =
      Some (sign_int v * ((\<bar>v\<bar> + 5 * 10 ^ d) div 10 ^ (i - j)))"
    using fits lt assms pow10_le [of i]
    by (intro minmea_rescale_down) (simp_all add: d pow10_split [of j i] flip: pow10_split)
  moreover have "(\<bar>v\<bar> + 5 * 10 ^ d) div 10 ^ (i - j) =
      (2 * \<bar>v\<bar> + 10 ^ (i - j)) div (2 * 10 ^ (i - j))"
    using div_mult_mult1 [of 2 "\<bar>v\<bar> + 5 * 10 ^ d" "10 ^ (i - j) :: int"] by (simp add: d algebra_simps)
  ultimately show "minmea_rescale \<lparr>mf_value = v, mf_scale = 10 ^ i\<rparr> (10 ^ j) =
      Some (round_half_away v (10 ^ (i - j)))"
    using lt by (simp add: round_half_away_def pow10_split [of j i])
next
  assume "i \<le> j" "\<bar>v\<bar> * 10 ^ (j - i) \<le> INT32_MAX"
  then show "minmea_rescale \<lparr>mf_value = v, mf_scale = 10 ^ i\<rparr> (10 ^ j) = Some (v * 10 ^ (j - i))"
    using minmea_rescale_up [of "10 ^ i" "10 ^ (j - i)" v] pow10_le [of "j - i"] assms
    by (simp add: pow10_split [of i j])
qed

theorem minmea_rescale_rounds_witness:
  "minmea_rescale \<lparr>mf_value = 15, mf_scale = 10 ^ 1\<rparr> (10 ^ 0) = Some 2 \<and>
   minmea_rescale \<lparr>mf_value = -15, mf_scale = 10 ^ 1\<rparr> (10 ^ 0) = Some (-2)"
  using minmea_rescale_rounds [of 15 1 0] minmea_rescale_rounds [of "-15" 1 0]
  by (simp add: int_range_defs round_half_away_def sign_int_def)

end
