(* ===== verification/Minmea_Roundtrip.thy ===== *)
theory Minmea_Roundtrip
  imports Minmea_Parse
begin

text \<open>
  A reference writer of NMEA sentences and the proof that the parsers of \<^verbatim>\<open>minmea.c\<close> invert it.
  The locale \<open>field_codec\<close> extends \<open>field_scanner\<close> with a writer for the same field type; it
  is interpreted for characters, integers, directions, decimals, dates and times, and its
  facts are what the round trips of whole sentences rest on.
\<close>

section \<open>The contract of a field type\<close>

locale field_codec = field_scanner +
  fixes wf :: "'a \<Rightarrow> bool" and put :: "'a \<Rightarrow> string"
  assumes put_field: "wf x \<Longrightarrow> list_all minmea_isfield (put x)"
    and scan_put: "wf x \<Longrightarrow> scan (put x) = Parsed x"
begin

lemma scan_put_delim: "wf x \<Longrightarrow> delim r \<Longrightarrow> scan (put x @ r) = Parsed x"
  by (simp add: local put_field scan_put)

lemma put_inject: "wf x \<Longrightarrow> wf y \<Longrightarrow> put x = put y \<Longrightarrow> x = y"
  using scan_put by (metis parse.inject)

end

section \<open>The writers\<close>

definition put_char :: "char \<Rightarrow> string" where "put_char c = [c]"

definition wf_int :: "int \<Rightarrow> bool" where "wf_int i \<longleftrightarrow> 0 \<le> i \<and> i \<le> INT32_MAX"
definition put_int :: "int \<Rightarrow> string" where "put_int i = nat_digits (nat i)"

definition wf_dir :: "int \<Rightarrow> bool" where "wf_dir d \<longleftrightarrow> d = 1 \<or> d = -1"
definition put_NS :: "int \<Rightarrow> string" where "put_NS d = (if d = 1 then ''N'' else ''S'')"
definition put_EW :: "int \<Rightarrow> string" where "put_EW d = (if d = 1 then ''E'' else ''W'')"

fun scale_digits :: "nat \<Rightarrow> nat" where
  "scale_digits s = (if s < 10 then 0 else Suc (scale_digits (s div 10)))"

declare scale_digits.simps [simp del]

definition wf_float :: "minmea_float \<Rightarrow> bool" where
  "wf_float x \<longleftrightarrow> \<bar>mf_value x\<bar> \<le> INT32_MAX \<and> mf_scale x \<in>
     {1, 10, 100, 1000, 10000, 100000, 1000000, 10000000, 100000000, 1000000000}"

definition put_float :: "minmea_float \<Rightarrow> string" where
  "put_float x =
     (let v = nat \<bar>mf_value x\<bar>; k = scale_digits (nat (mf_scale x)) in
      (if mf_value x < 0 then ''-'' else '''') @
        nat_digits (v div 10 ^ k) @ CHR ''.'' # fixed_digits k (v mod 10 ^ k))"

definition wf_time :: "minmea_time \<Rightarrow> bool" where
  "wf_time t \<longleftrightarrow> mt_hours t \<in> {0..99} \<and> mt_minutes t \<in> {0..99} \<and> mt_seconds t \<in> {0..99}
     \<and> mt_microseconds t \<in> {0..999999}"

definition put_time :: "minmea_time \<Rightarrow> string" where
  "put_time t = fixed_digits 2 (nat (mt_hours t)) @ fixed_digits 2 (nat (mt_minutes t)) @
     fixed_digits 2 (nat (mt_seconds t)) @ CHR ''.'' # fixed_digits 6 (nat (mt_microseconds t))"

definition wf_date :: "minmea_date \<Rightarrow> bool" where
  "wf_date d \<longleftrightarrow> md_day d \<in> {0..99} \<and> md_month d \<in> {0..99} \<and> md_year d \<in> {0..99}"

definition put_date :: "minmea_date \<Rightarrow> string" where
  "put_date d = fixed_digits 2 (nat (md_day d)) @ fixed_digits 2 (nat (md_month d)) @
     fixed_digits 2 (nat (md_year d))"

section \<open>Every writer is inverted by its scanner\<close>

lemma scale_digits_pow10 [simp]: "scale_digits (10 ^ j) = j"
proof (induction j)
  case 0
  show ?case by (subst scale_digits.simps) simp
next
  case (Suc j)
  have "(1::nat) \<le> 10 ^ j" by simp
  then have "(10::nat) \<le> 10 ^ Suc j" by simp
  with Suc show ?case by (subst scale_digits.simps) simp
qed

interpretation codec_c: field_codec "\<lambda>f. scan_c (Some f)" minmea_isfield put_char
  by unfold_locales (simp_all add: put_char_def scan_c_def)

lemma isfield_letters [simp]:
  "minmea_isfield (CHR ''N'')" "minmea_isfield (CHR ''S'')" "minmea_isfield (CHR ''E'')"
  "minmea_isfield (CHR ''W'')" "minmea_isfield (CHR ''A'')" "minmea_isfield (CHR ''V'')"
  "minmea_isfield (CHR ''$'')"
  by code_simp+

interpretation codec_NS: field_codec "\<lambda>f. scan_d (Some f)" wf_dir put_NS
  by unfold_locales (auto simp: put_NS_def scan_d_def wf_dir_def)

interpretation codec_EW: field_codec "\<lambda>f. scan_d (Some f)" wf_dir put_EW
  by unfold_locales (auto simp: put_EW_def scan_d_def wf_dir_def)

interpretation codec_i: field_codec "\<lambda>f. scan_i (Some f)" wf_int put_int
proof unfold_locales
  fix i assume "wf_int i"
  then show "scan_i (Some (put_int i)) = Parsed i"
    using strtol10_digits [of "nat_digits (nat i)" "[]"]
    by (simp add: put_int_def scan_i_def wf_int_def clamp32_def int_range_defs)
qed (simp add: put_int_def)

lemma digits_val_split:
  "digits_val (nat_digits (v div 10 ^ k) @ fixed_digits k (v mod 10 ^ k)) = int v"
proof -
  have "int v = int (v div 10 ^ k * 10 ^ k + v mod 10 ^ k)"
    by (simp only: div_mult_mod_eq)
  also have "\<dots> = int (v div 10 ^ k) * 10 ^ k + int (v mod 10 ^ k)"
    unfolding of_nat_add of_nat_mult of_nat_power of_nat_numeral ..
  finally have "digits_from (int (v div 10 ^ k)) (fixed_digits k (v mod 10 ^ k)) = int v"
    using fixed_digits_val [of "v mod 10 ^ k" k "int (v div 10 ^ k)"] by simp
  moreover have "digits_from 0 (nat_digits (v div 10 ^ k)) = int (v div 10 ^ k)"
    using nat_digits_simps(3) [of "v div 10 ^ k"] by (simp only: digits_val_from)
  ultimately show ?thesis by (simp only: digits_val_from digits_from_simps)
qed

lemma put_float_eq:
  assumes "mf_scale x = 10 ^ k"
  shows "put_float x = (if mf_value x < 0 then ''-'' else '''') @
    nat_digits (nat \<bar>mf_value x\<bar> div 10 ^ k) @ CHR ''.'' # fixed_digits k (nat \<bar>mf_value x\<bar> mod 10 ^ k)"
  using assms by (simp add: put_float_def nat_power_eq Let_def)

interpretation codec_f: field_codec "\<lambda>f. scan_f (Some f)" wf_float put_float
proof unfold_locales
  fix x assume wf: "wf_float x"
  then have "mf_scale x \<in> (\<lambda>k. 10 ^ k) ` {..9::nat}"
    by (auto simp: wf_float_def atMost_nat_numeral atMost_Suc)
  then obtain k where k: "k \<le> 9" "mf_scale x = 10 ^ k" by auto
  let ?sg = "if mf_value x < 0 then ''-'' else ''''" and ?v = "nat \<bar>mf_value x\<bar>"
  show "list_all minmea_isfield (put_float x)"
    by (simp add: put_float_eq [OF k(2)])
  have "scan_f (Some (?sg @ nat_digits (?v div 10 ^ k) @ CHR ''.'' # fixed_digits k (?v mod 10 ^ k) @ []))
    = Parsed \<lparr>mf_value = sign_of ?sg * int ?v, mf_scale = 10 ^ length (fixed_digits k (?v mod 10 ^ k))\<rparr>"
    using wf k(1)
    by (subst scan_f_decimal) (simp_all only: digits_val_split, simp_all add: sign_str_def wf_float_def)
  then show "scan_f (Some (put_float x)) = Parsed x"
    using k by (simp add: put_float_eq [OF k(2)] sign_of_def)
qed

lemma fixed2_val: "0 \<le> i \<Longrightarrow> i \<le> 99 \<Longrightarrow> digits_val (fixed_digits 2 (nat i)) = i"
  using fixed_digits_val [of "nat i" 2 0] by (simp add: digits_val_from)

interpretation codec_T: field_codec "\<lambda>f. scan_T (Some f)" wf_time put_time
proof unfold_locales
  fix t assume wf: "wf_time t"
  show "list_all minmea_isfield (put_time t)"
    by (simp add: put_time_def)
  have "digits_val (fixed_digits 6 (nat (mt_microseconds t))) = mt_microseconds t"
    using wf fixed_digits_val [of "nat (mt_microseconds t)" 6 0]
    by (simp add: digits_val_from wf_time_def nat_less_iff)
  with wf show "scan_T (Some (put_time t)) = Parsed t"
    using scan_T_time [of "fixed_digits 2 (nat (mt_hours t))" "fixed_digits 2 (nat (mt_minutes t))"
        "fixed_digits 2 (nat (mt_seconds t))" "fixed_digits 6 (nat (mt_microseconds t))" "[]"]
    by (simp add: put_time_def wf_time_def fixed2_val)
qed

interpretation codec_D: field_codec "\<lambda>f. scan_D (Some f)" wf_date put_date
proof unfold_locales
  fix d assume wf: "wf_date d"
  show "list_all minmea_isfield (put_date d)"
    by (simp add: put_date_def)
  have "minmea_isfield (peek (put_date d))"
    by (simp add: put_date_def numeral_2_eq_2)
  with wf show "scan_D (Some (put_date d)) = Parsed d"
    using six_digits_pairs [of "fixed_digits 2 (nat (md_day d))" "fixed_digits 2 (nat (md_month d))"
        "fixed_digits 2 (nat (md_year d))" "[]"]
    by (simp add: put_date_def scan_D_def wf_date_def fixed2_val)
qed

section \<open>Whole sentences\<close>

lemma scan_field_letters:
  "scan_field (CHR ''c'') fld = map_parse_result (\<lambda>v. [VChar v]) (scan_c fld)"
  "scan_field (CHR ''d'') fld = map_parse_result (\<lambda>v. [VInt v]) (scan_d fld)"
  "scan_field (CHR ''f'') fld = map_parse_result (\<lambda>v. [VFloat v]) (scan_f fld)"
  "scan_field (CHR ''i'') fld = map_parse_result (\<lambda>v. [VInt v]) (scan_i fld)"
  "scan_field (CHR ''t'') fld = map_parse_result (\<lambda>v. [VString v]) (scan_t fld)"
  "scan_field (CHR ''D'') fld = map_parse_result (\<lambda>v. [VDate v]) (scan_D fld)"
  "scan_field (CHR ''T'') fld = map_parse_result (\<lambda>v. [VTime v]) (scan_T fld)"
  "scan_field (CHR ''_'') fld = Parsed []"
  by (simp_all add: scan_field_def)

lemma parse_frame_fields:
  assumes "list_all (list_all minmea_isfield) fs" "fs \<noteq> []" "no_more r"
    and "read_fields fmt fs False [] = Parsed (True, vs)" "drop 2 (as_string (vs ! 0)) = type"
  shows "parse_frame fmt type fill (join_fields fs @ r) = Parsed (fill vs)"
  using assms by (simp add: parse_frame_def minmea_scan_refines)

lemmas codec_scan =
  codec_c.scan_put codec_NS.scan_put codec_EW.scan_put codec_i.scan_put codec_f.scan_put
  codec_T.scan_put codec_D.scan_put
lemmas codec_put =
  codec_c.put_field codec_NS.put_field codec_EW.put_field codec_i.put_field codec_f.put_field
  codec_T.put_field codec_D.put_field

text \<open>A signed coordinate is written as its magnitude and a direction.\<close>

definition coord_mag :: "minmea_float \<Rightarrow> minmea_float" where
  "coord_mag x = x\<lparr>mf_value := \<bar>mf_value x\<bar>\<rparr>"

definition coord_dir :: "minmea_float \<Rightarrow> int" where
  "coord_dir x = (if mf_value x < 0 then -1 else 1)"

lemma coord_props [simp]:
  "wf_float x \<Longrightarrow> wf_float (coord_mag x)" "wf_dir (coord_dir x)"
  "directed (coord_mag x) (coord_dir x) = x"
  by (auto simp: wf_float_def wf_dir_def coord_mag_def coord_dir_def directed_def)

definition gga_fields :: "string \<Rightarrow> minmea_sentence_gga \<Rightarrow> string list" where
  "gga_fields ref g =
     [''$GPGGA'', put_time (gga_time g),
      put_float (coord_mag (gga_latitude g)), put_NS (coord_dir (gga_latitude g)),
      put_float (coord_mag (gga_longitude g)), put_EW (coord_dir (gga_longitude g)),
      put_int (gga_fix_quality g), put_int (gga_satellites_tracked g), put_float (gga_hdop g),
      put_float (gga_altitude g), put_char (gga_altitude_units g),
      put_float (gga_height g), put_char (gga_height_units g), put_int (gga_dgps_age g), ref]"

definition wf_gga :: "minmea_sentence_gga \<Rightarrow> bool" where
  "wf_gga g \<longleftrightarrow> wf_time (gga_time g) \<and> wf_float (gga_latitude g) \<and> wf_float (gga_longitude g)
     \<and> wf_int (gga_fix_quality g) \<and> wf_int (gga_satellites_tracked g) \<and> wf_float (gga_hdop g)
     \<and> wf_float (gga_altitude g) \<and> minmea_isfield (gga_altitude_units g)
     \<and> wf_float (gga_height g) \<and> minmea_isfield (gga_height_units g) \<and> wf_int (gga_dgps_age g)"

lemma list_all_chars:
  "minmea_isfield (CHR ''G'')" "minmea_isfield (CHR ''P'')" "minmea_isfield (CHR ''R'')"
  "minmea_isfield (CHR ''M'')" "minmea_isfield (CHR ''C'')"
  by code_simp+

lemma scan_t_GP: "scan_t (Some ''$GPGGA'') = Parsed ''GPGGA''" "scan_t (Some ''$GPRMC'') = Parsed ''GPRMC''"
  "scan_t (Some ''$GPGSV'') = Parsed ''GPGSV''"
  by code_simp+

lemma fill_gga_inverse:
  "fill_gga [VString t, VTime (gga_time g), VFloat (coord_mag (gga_latitude g)),
     VInt (coord_dir (gga_latitude g)), VFloat (coord_mag (gga_longitude g)),
     VInt (coord_dir (gga_longitude g)), VInt (gga_fix_quality g), VInt (gga_satellites_tracked g),
     VFloat (gga_hdop g), VFloat (gga_altitude g), VChar (gga_altitude_units g),
     VFloat (gga_height g), VChar (gga_height_units g), VInt (gga_dgps_age g)] = g"
  by (simp add: fill_gga_def)

text \<open>C14. GGA round trip: the fix record written as a GGA sentence, with any reference-station
  field and with or without a checksum after it, is parsed back to the same record, signs of
  the coordinates included.\<close>

theorem minmea_parse_gga_roundtrip:
  assumes "wf_gga g" "list_all minmea_isfield ref" "no_more r"
  shows "minmea_parse_gga (join_fields (gga_fields ref g) @ r) = Parsed g"
proof -
  have *: "read_fields ''tTfdfdiiffcfci_'' (gga_fields ref g) False [] =
    Parsed (True, [VString ''GPGGA'', VTime (gga_time g), VFloat (coord_mag (gga_latitude g)),
     VInt (coord_dir (gga_latitude g)), VFloat (coord_mag (gga_longitude g)),
     VInt (coord_dir (gga_longitude g)), VInt (gga_fix_quality g), VInt (gga_satellites_tracked g),
     VFloat (gga_hdop g), VFloat (gga_altitude g), VChar (gga_altitude_units g),
     VFloat (gga_height g), VChar (gga_height_units g), VInt (gga_dgps_age g)])"
    using assms(1) unfolding gga_fields_def wf_gga_def
    by (simp add: scan_field_letters codec_scan scan_t_GP)
  have "list_all (list_all minmea_isfield) (gga_fields ref g)"
    using assms(1,2) unfolding gga_fields_def wf_gga_def
    by (simp add: codec_put list_all_chars)
  from parse_frame_fields [OF this _ assms(3) *, of "''GGA''" fill_gga] show ?thesis
    by (simp add: minmea_parse_gga_def fill_gga_inverse) (simp add: gga_fields_def)
qed

theorem minmea_parse_gga_roundtrip_witness:
  "\<exists>g. gga_longitude g = \<lparr>mf_value = - 1131000, mf_scale = 1000\<rparr> \<and>
    minmea_parse_gga (join_fields (gga_fields [] g) @ ''*47'') = Parsed g"
proof -
  define g where "g = \<lparr>gga_time = \<lparr>mt_hours = 12, mt_minutes = 35, mt_seconds = 19, mt_microseconds = 0\<rparr>,
    gga_latitude = \<lparr>mf_value = 4807038, mf_scale = 1000\<rparr>,
    gga_longitude = \<lparr>mf_value = - 1131000, mf_scale = 1000\<rparr>,
    gga_fix_quality = 1, gga_satellites_tracked = 8, gga_hdop = \<lparr>mf_value = 9, mf_scale = 10\<rparr>,
    gga_altitude = \<lparr>mf_value = 5454, mf_scale = 10\<rparr>, gga_altitude_units = CHR ''M'',
    gga_height = \<lparr>mf_value = 469, mf_scale = 10\<rparr>, gga_height_units = CHR ''M'', gga_dgps_age = 0\<rparr>"
  have "wf_gga g"
    by (simp add: g_def wf_gga_def wf_time_def wf_float_def wf_int_def int_range_defs
        minmea_isfield_def isprint_def char_code_def)
  then have "minmea_parse_gga (join_fields (gga_fields [] g) @ ''*47'') = Parsed g"
    by (rule minmea_parse_gga_roundtrip) (simp_all add: no_more_def)
  moreover have "gga_longitude g = \<lparr>mf_value = - 1131000, mf_scale = 1000\<rparr>"
    by (simp add: g_def)
  ultimately show ?thesis by blast
qed

end
