(* ===== verification/Minmea_Coord.thy ===== *)
theory Minmea_Coord
  imports Minmea_Parse Ieee754
begin

text \<open>
  The floating-point conversions of \<^verbatim>\<open>minmea.h\<close>: \<open>minmea_tofloat\<close> and \<open>minmea_tocoord\<close>, in
  single precision. The integer products of \<open>minmea_tocoord\<close> are checked: \<open>None\<close> is the signed
  overflow that a scale of eight or more fraction digits causes.
\<close>

definition minmea_tofloat :: "minmea_float \<Rightarrow> fnum" where
  "minmea_tofloat f =
     (if mf_scale f = 0 then FNaN
      else fdiv binary32 (of_int_f binary32 (mf_value f)) (of_int_f binary32 (mf_scale f)))"

definition minmea_tocoord :: "minmea_float \<Rightarrow> fnum option" where
  "minmea_tocoord f =
     (if mf_scale f = 0 then Some FNaN
      else
        do {
          h \<leftarrow> cmul (mf_scale f) 100;
          degrees \<leftarrow> cdiv (mf_value f) h;
          let minutes = mf_value f smod h;
          s \<leftarrow> cmul 60 (mf_scale f);
          Some (fadd binary32 (of_int_f binary32 degrees)
            (fdiv binary32 (of_int_f binary32 minutes) (of_int_f binary32 s)))
        })"

lemma tocoord_test:
  "minmea_tocoord \<lparr>mf_value = 4807038, mf_scale = 1000\<rparr> = Some (FFin False 12613661 (- 18))"
  by code_simp

end
