(* ===== verification/Gps_Line.thy ===== *)
theory Gps_Line
  imports Cansat_Prelude "HOL-Library.Monad_Syntax"
begin

text \<open>
  The GPS line assembler \<open>_parseGPS\<close> of \<^verbatim>\<open>granum_main.c\<close> with its static buffer and index
  (the applications \<^verbatim>\<open>mavlink_test\<close> and \<^verbatim>\<open>gps_test\<close> carry copies of it). One \<open>read\<close> of one
  byte is an element of the input: \<open>Some c\<close>, or \<open>None\<close> when the call fails and leaves the buffer
  as it was; the code does not look at the result of \<open>read\<close>. Every access to the buffer is checked:
  a read or a write outside it, undefined in C, makes the result of the whole call \<open>None\<close>.

  The contract: the index never leaves the buffer, and the calls of one mission, however the
  bytes are spread over them, deliver the lines that \<open>collect\<close> finds in the whole stream.
\<close>

section \<open>The code\<close>

definition MSG_BUF_SIZE :: nat where "MSG_BUF_SIZE = 256"

record gps_buf =
  msg_carret :: nat
  msg_buffer :: string

definition gps_buf_init :: gps_buf where
  "gps_buf_init = \<lparr>msg_carret = 0, msg_buffer = replicate MSG_BUF_SIZE NUL\<rparr>"

definition buf_get :: "string \<Rightarrow> nat \<Rightarrow> char option" where
  "buf_get buf i = (if i < length buf then Some (buf ! i) else None)"

definition buf_set :: "nat \<Rightarrow> char \<Rightarrow> string \<Rightarrow> string option" where
  "buf_set i c buf = (if i < length buf then Some (buf[i := c]) else None)"

text \<open>\<open>read(fd, _msg_buffer + i, 1)\<close>\<close>

definition put_byte :: "nat \<Rightarrow> char option \<Rightarrow> string \<Rightarrow> string" where
  "put_byte i r buf = (case r of None \<Rightarrow> buf | Some c \<Rightarrow> buf[i := c])"

definition read_byte :: "nat \<Rightarrow> char option \<Rightarrow> string \<Rightarrow> string option" where
  "read_byte i r buf =
     (if i < length buf then Some (put_byte i r buf) else None)"

datatype line_step = NextCycle gps_buf | BreakLoop gps_buf | ReturnTrue gps_buf

definition parseGPS_cycle :: "gps_buf \<Rightarrow> char option \<Rightarrow> line_step option" where
  "parseGPS_cycle b r =
     (if msg_carret b = 0 then
        do {
          buf \<leftarrow> read_byte 0 r (msg_buffer b);
          c \<leftarrow> buf_get buf 0;
          Some (NextCycle \<lparr>msg_carret = (if c = CHR ''$'' then 1 else 0), msg_buffer = buf\<rparr>)
        }
      else
        do {
          buf \<leftarrow> read_byte (msg_carret b) r (msg_buffer b);
          let carret = msg_carret b + 1;
          if carret \<ge> MSG_BUF_SIZE then Some (BreakLoop \<lparr>msg_carret = 0, msg_buffer = buf\<rparr>)
          else
            do {
              x \<leftarrow> buf_get buf (carret - 2);
              y \<leftarrow> buf_get buf (carret - 1);
              if x = CHR 0x0D \<and> y = CHR 0x0A then
                do { buf' \<leftarrow> buf_set carret NUL buf; Some (ReturnTrue \<lparr>msg_carret = 0, msg_buffer = buf'\<rparr>) }
              else Some (NextCycle \<lparr>msg_carret = carret, msg_buffer = buf\<rparr>)
            }
        })"

text \<open>\<open>while(cycles--)\<close>: one element of the list per cycle; the reads the call did not make are
  returned with its result.\<close>

fun parseGPS :: "gps_buf \<Rightarrow> char option list \<Rightarrow> (bool \<times> gps_buf \<times> char option list) option" where
  "parseGPS b [] = Some (False, b, [])"
| "parseGPS b (r # rs) =
     (case parseGPS_cycle b r of
        None \<Rightarrow> None
      | Some (NextCycle b') \<Rightarrow> parseGPS b' rs
      | Some (BreakLoop b') \<Rightarrow> Some (False, b', rs)
      | Some (ReturnTrue b') \<Rightarrow> Some (True, b', rs))"

text \<open>The calls of a mission, one list of reads for each.\<close>

fun parseGPS_calls :: "gps_buf \<Rightarrow> char option list list \<Rightarrow> gps_buf option" where
  "parseGPS_calls b [] = Some b"
| "parseGPS_calls b (rs # rss) = (case parseGPS b rs of None \<Rightarrow> None | Some (_, b', _) \<Rightarrow> parseGPS_calls b' rss)"

section \<open>Memory safety\<close>

definition gps_inv :: "gps_buf \<Rightarrow> bool" where
  "gps_inv b \<longleftrightarrow> length (msg_buffer b) = MSG_BUF_SIZE \<and> msg_carret b < MSG_BUF_SIZE"

fun step_buf :: "line_step \<Rightarrow> gps_buf" where
  "step_buf (NextCycle b) = b"
| "step_buf (BreakLoop b) = b"
| "step_buf (ReturnTrue b) = b"

text \<open>The cycle with the checks discharged.\<close>

definition cycle_result :: "gps_buf \<Rightarrow> char option \<Rightarrow> line_step" where
  "cycle_result b r =
     (let k = msg_carret b; buf = put_byte k r (msg_buffer b) in
      if k = 0 then NextCycle \<lparr>msg_carret = (if buf ! 0 = CHR ''$'' then 1 else 0), msg_buffer = buf\<rparr>
      else if k + 1 \<ge> MSG_BUF_SIZE then BreakLoop \<lparr>msg_carret = 0, msg_buffer = buf\<rparr>
      else if buf ! (k - 1) = CHR 0x0D \<and> buf ! k = CHR 0x0A
      then ReturnTrue \<lparr>msg_carret = 0, msg_buffer = buf[k + 1 := NUL]\<rparr>
      else NextCycle \<lparr>msg_carret = k + 1, msg_buffer = buf\<rparr>)"

lemma parseGPS_cycle_defined: "gps_inv b \<Longrightarrow> parseGPS_cycle b r = Some (cycle_result b r)"
  by (cases r) (auto simp: gps_inv_def parseGPS_cycle_def cycle_result_def read_byte_def put_byte_def buf_get_def buf_set_def Let_def)

lemma cycle_result_inv: "gps_inv b \<Longrightarrow> gps_inv (step_buf (cycle_result b r))"
  by (cases r) (auto simp: gps_inv_def cycle_result_def put_byte_def Let_def MSG_BUF_SIZE_def)

lemma parseGPS_defined: "gps_inv b \<Longrightarrow> \<exists>ok b' rest. parseGPS b rs = Some (ok, b', rest) \<and> gps_inv b'"
proof (induction rs arbitrary: b)
  case (Cons r rs)
  then show ?case
    using parseGPS_cycle_defined [OF Cons.prems, of r] cycle_result_inv [OF Cons.prems, of r]
    by (cases "cycle_result b r") auto
qed auto

lemma parseGPS_inv: "parseGPS b rs = Some (ok, b', rest) \<Longrightarrow> gps_inv b \<Longrightarrow> gps_inv b'"
  using parseGPS_defined [of b rs] by auto

lemma gps_init_inv [simp]: "gps_inv gps_buf_init"
  by (simp add: gps_inv_def gps_buf_init_def MSG_BUF_SIZE_def)

lemma parseGPS_calls_defined: "gps_inv b \<Longrightarrow> \<exists>b'. parseGPS_calls b rss = Some b' \<and> gps_inv b'"
proof (induction rss arbitrary: b)
  case (Cons rs rss)
  with parseGPS_defined [OF Cons.prems, of rs] show ?case by fastforce
qed simp

text \<open>C24. The assembler never leaves its buffer: from the start of the program, over any number of calls
  on any reads, failed ones included, no access to the buffer is outside its 256 bytes (else the result
  would be \<open>None\<close>), and the index is again inside it.\<close>

theorem parseGPS_memory_safe:
  "\<exists>b. parseGPS_calls gps_buf_init rss = Some b \<and> length (msg_buffer b) = 256 \<and> msg_carret b < 256"
  using parseGPS_calls_defined [OF gps_init_inv, of rss] by (auto simp: gps_inv_def MSG_BUF_SIZE_def)

section \<open>The lines of the stream\<close>

text \<open>The specification works on the bytes alone: \<open>p\<close> is the line collected so far. A line starts
  at a dollar sign and ends with CR LF; a line that fills the buffer is dropped.\<close>

fun collect :: "string \<Rightarrow> string \<Rightarrow> string list \<times> string" where
  "collect p [] = ([], p)"
| "collect p (c # cs) =
     (if p = [] then collect (if c = CHR ''$'' then [c] else []) cs
      else if length p + 1 \<ge> MSG_BUF_SIZE then collect [] cs
      else if last p = CHR 0x0D \<and> c = CHR 0x0A
        then (let (ls, q) = collect [] cs in ((p @ [c]) # ls, q))
      else collect (p @ [c]) cs)"

definition pending :: "gps_buf \<Rightarrow> string" where
  "pending b = take (msg_carret b) (msg_buffer b)"

lemma pending_Nil: "gps_inv b \<Longrightarrow> pending b = [] \<longleftrightarrow> msg_carret b = 0"
  by (auto simp: gps_inv_def pending_def MSG_BUF_SIZE_def)

text \<open>One cycle, on the abstraction.\<close>

lemma cycle_pending:
  assumes "gps_inv b"
  shows "(case cycle_result b (Some c) of
     NextCycle b' \<Rightarrow> pending b' = (if pending b = [] then (if c = CHR ''$'' then [c] else []) else pending b @ [c])
        \<and> (pending b \<noteq> [] \<longrightarrow> length (pending b) + 1 < MSG_BUF_SIZE \<and> \<not> (last (pending b) = CHR 0x0D \<and> c = CHR 0x0A))
   | BreakLoop b' \<Rightarrow> pending b \<noteq> [] \<and> length (pending b) + 1 \<ge> MSG_BUF_SIZE \<and> pending b' = []
   | ReturnTrue b' \<Rightarrow> pending b \<noteq> [] \<and> length (pending b) + 1 < MSG_BUF_SIZE
        \<and> last (pending b) = CHR 0x0D \<and> c = CHR 0x0A
        \<and> pending b' = [] \<and> take (length (pending b) + 2) (msg_buffer b') = pending b @ [c, NUL])"
proof -
  let ?k = "msg_carret b" and ?buf = "msg_buffer b"
  have len: "length ?buf = 256" and k: "?k < 256"
    using assms by (simp_all add: gps_inv_def MSG_BUF_SIZE_def)
  have t: "take (Suc ?k) (?buf[?k := c]) = take ?k ?buf @ [c]"
    using len k by (simp add: take_Suc_conv_app_nth)
  have l: "last (take ?k ?buf) = ?buf ! (?k - 1)" if "?k \<noteq> 0"
    using that len k by (subst last_conv_nth) (auto simp: min_def)
  show ?thesis
  proof (cases "?k = 0")
    case True
    with len have "?buf \<noteq> []" by auto
    with True len t show ?thesis
      by (auto simp: cycle_result_def put_byte_def pending_def Let_def)
  next
    case False
    then have nz: "take ?k ?buf \<noteq> []" using len by auto
    have n: "?buf[?k := c] ! (?k - 1) = ?buf ! (?k - 1)" "?buf[?k := c] ! ?k = c"
      using False len k by auto
    have t2: "take (Suc (Suc ?k)) (?buf[?k := c, Suc ?k := NUL]) = take ?k ?buf @ [c, NUL]"
      if "Suc ?k < 256"
      using that len t by (simp add: take_Suc_conv_app_nth)
    from False nz n l len k t t2 show ?thesis
      by (auto simp: cycle_result_def put_byte_def pending_def Let_def MSG_BUF_SIZE_def min_def)
  qed
qed

text \<open>The main loop calls \<open>_parseGPS\<close> with a budget of cycles each; \<open>run_calls\<close> makes one call per
  budget on the stream of bytes and collects the C strings of the calls that returned true.\<close>

fun run_calls :: "gps_buf \<Rightarrow> nat list \<Rightarrow> string \<Rightarrow> (string list \<times> gps_buf \<times> string) option" where
  "run_calls b [] s = Some ([], b, s)"
| "run_calls b (n # ns) s =
     do {
       (ok, b', rest) \<leftarrow> parseGPS b (map Some (take n s));
       (ls, b'', s'') \<leftarrow> run_calls b' ns (map the rest @ drop n s);
       Some ((if ok then c_string (msg_buffer b') # ls else ls), b'', s'')
     }"

lemma map_the_Some [simp]: "map the (map Some xs) = xs"
  by (simp add: comp_def)

lemma c_string_take:
  assumes "take (length s + 1) buf = s @ [NUL]" "NUL \<notin> set s"
  shows "c_string buf = s"
proof -
  have "buf = s @ NUL # drop (length s + 1) buf"
    using append_take_drop_id [of "length s + 1" buf] unfolding assms(1) by simp
  with c_string_append_NUL [OF assms(2)] show ?thesis by metis
qed

text \<open>What one call delivers is what \<open>collect\<close> finds in the bytes the call has read.\<close>

lemma parseGPS_collect:
  "gps_inv b \<Longrightarrow> NUL \<notin> set (pending b @ s) \<Longrightarrow> parseGPS b (map Some s) = Some (ok, b', rest) \<Longrightarrow>
    \<exists>u v. s = u @ v \<and> rest = map Some v \<and>
      collect (pending b) u = ((if ok then [c_string (msg_buffer b')] else []), pending b')"
proof (induction s arbitrary: b)
  case (Cons c s)
  note step = cycle_pending [OF Cons.prems(1), of c]
  note cycle = parseGPS_cycle_defined [OF Cons.prems(1), of "Some c"]
  show ?case
  proof (cases "cycle_result b (Some c)")
    case (NextCycle b1)
    with Cons.prems(3) cycle have p: "parseGPS b1 (map Some s) = Some (ok, b', rest)" by simp
    have inv: "gps_inv b1"
      using cycle_result_inv [OF Cons.prems(1), of "Some c"] NextCycle by simp
    have "NUL \<notin> set (pending b1 @ s)"
      using step NextCycle Cons.prems(2) by (auto split: if_splits)
    from Cons.IH [OF inv this p] obtain u v where uv: "s = u @ v" "rest = map Some v"
      "collect (pending b1) u = ((if ok then [c_string (msg_buffer b')] else []), pending b')" by blast
    with step NextCycle show ?thesis
      by (intro exI [of _ "c # u"] exI [of _ v]) (auto split: if_splits)
  next
    case (BreakLoop b1)
    with Cons.prems(3) cycle step show ?thesis
      by (intro exI [of _ "[c]"] exI [of _ s]) auto
  next
    case (ReturnTrue b1)
    have "c_string (msg_buffer b1) = pending b @ [c]"
      using step ReturnTrue Cons.prems(2) by (intro c_string_take) auto
    with ReturnTrue Cons.prems(3) cycle step show ?thesis
      by (intro exI [of _ "[c]"] exI [of _ s]) auto
  qed
qed simp

lemma collect_append:
  "collect p (u @ v) = (let (ls, q) = collect p u; (ms, r) = collect q v in (ls @ ms, r))"
  by (induction p u rule: collect.induct) (auto simp: Let_def split: prod.splits)

lemma collect_pending_set: "collect p s = (ls, q) \<Longrightarrow> set q \<subseteq> set p \<union> set s"
  by (induction p s arbitrary: ls rule: collect.induct)
    (fastforce simp: Let_def split: prod.splits if_splits)+

text \<open>C9. Reassembly: over any number of calls with any budgets of cycles, the calls return, and the
  sentences \<open>_parseGPS\<close> delivers are the lines of the bytes consumed, each delivered once, whole and
  in order, however the stream is cut into calls.\<close>

theorem parseGPS_delivers_lines:
  assumes "gps_inv b" "NUL \<notin> set (pending b @ s)"
  shows "\<exists>ls b' rest u. run_calls b ns s = Some (ls, b', rest) \<and> s = u @ rest \<and> collect (pending b) u = (ls, pending b')"
  using assms
proof (induction ns arbitrary: b s)
  case (Cons n ns)
  obtain ok b1 r1 where p: "parseGPS b (map Some (take n s)) = Some (ok, b1, r1)" and inv: "gps_inv b1"
    using parseGPS_defined [OF Cons.prems(1)] by blast
  have "NUL \<notin> set (pending b @ take n s)"
    using Cons.prems(2) by (auto dest: in_set_takeD)
  from parseGPS_collect [OF Cons.prems(1) this p] obtain u v where uv: "take n s = u @ v"
    "r1 = map Some v"
    "collect (pending b) u = ((if ok then [c_string (msg_buffer b1)] else []), pending b1)" by blast
  have s: "s = u @ v @ drop n s"
    using append_take_drop_id [of n s] uv(1) by simp
  have "set (pending b1) \<subseteq> set (pending b) \<union> set u"
    using collect_pending_set [OF uv(3)] .
  then have "NUL \<notin> set (pending b1 @ v @ drop n s)"
    using Cons.prems(2) s by (metis UnCI UnE set_append subsetD)
  from Cons.IH [OF inv this] obtain ls1 b' rest w
    where w: "run_calls b1 ns (v @ drop n s) = Some (ls1, b', rest)" "v @ drop n s = w @ rest"
      "collect (pending b1) w = (ls1, pending b')" by blast
  let ?ls = "if ok then c_string (msg_buffer b1) # ls1 else ls1"
  have "run_calls b (n # ns) s = Some (?ls, b', rest)" using p uv(2) w(1) by simp
  moreover have "s = (u @ w) @ rest" using s w(2) by simp
  moreover have "collect (pending b) (u @ w) = (?ls, pending b')" using uv(3) w(3) by (simp add: collect_append)
  ultimately show ?case by blast
qed simp

theorem parseGPS_delivers_lines_witness:
  "\<exists>b rest. run_calls gps_buf_init [3, 2, 9] (''x$A'' @ [CHR 0x0D, CHR 0x0A] @ ''$B'') =
    Some ([''$A'' @ [CHR 0x0D, CHR 0x0A]], b, rest)"
proof -
  let ?s = "''x$A'' @ [CHR 0x0D, CHR 0x0A] @ ''$B''"
  have p: "pending gps_buf_init = []"
    by (simp add: pending_def gps_buf_init_def)
  then have n: "NUL \<notin> set (pending gps_buf_init @ ?s)"
    by (simp add: NUL_def)
  from parseGPS_delivers_lines [OF gps_init_inv n, of "[3, 2, 9]"] obtain ls b rest u
    where r: "run_calls gps_buf_init [3, 2, 9] ?s = Some (ls, b, rest)" "?s = u @ rest" "collect [] u = (ls, pending b)"
    unfolding p by blast
  have e: "map_option (\<lambda>(_, _, rest). rest) (run_calls gps_buf_init [3, 2, 9] ?s) = Some []" by code_simp
  have "rest = []" using e unfolding r(1) by simp
  then have "collect [] ?s = (ls, pending b)" using r(3) unfolding r(2) by simp
  moreover have "collect [] ?s = ([''$A'' @ [CHR 0x0D, CHR 0x0A]], ''$B'')" by code_simp
  ultimately have "ls = [''$A'' @ [CHR 0x0D, CHR 0x0A]]" by simp
  then show ?thesis using r(1) by blast
qed

section \<open>Failed reads\<close>

text \<open>\<open>held s b\<close>: the buffer still holds the delivered sentence \<open>s\<close>, and its CR LF is the only one.\<close>

definition held :: "string \<Rightarrow> gps_buf \<Rightarrow> bool" where
  "held s b \<longleftrightarrow> gps_inv b \<and> msg_carret b = 0 \<and> take (length s + 1) (msg_buffer b) = s @ [NUL]
     \<and> 3 \<le> length s \<and> length s + 1 \<le> MSG_BUF_SIZE \<and> hd s = CHR ''$''
     \<and> s ! (length s - 2) = CHR 0x0D \<and> s ! (length s - 1) = CHR 0x0A
     \<and> list_all (\<lambda>i. \<not> (s ! i = CHR 0x0D \<and> s ! (i + 1) = CHR 0x0A)) [0..<length s - 2]"

lemma held_nth: "held s b \<Longrightarrow> i < length s \<Longrightarrow> msg_buffer b ! i = s ! i"
  unfolding held_def by (metis less_add_one nth_append nth_take order_less_trans)

lemma held_NUL: "held s b \<Longrightarrow> msg_buffer b ! length s = NUL"
  unfolding held_def by (metis less_add_one nth_append_length nth_take)

lemma replay_cycles:
  assumes "held s b" "length s - 1 = k + m" "1 \<le> k"
  shows "parseGPS \<lparr>msg_carret = k, msg_buffer = msg_buffer b\<rparr> (replicate (Suc m) None @ rs) = Some (True, b, rs)"
  using assms
proof (induction m arbitrary: k)
  case 0
  have "msg_buffer b ! (k - 1) = CHR 0x0D" "msg_buffer b ! k = CHR 0x0A"
    using 0 held_nth [OF 0(1), of "k - 1"] held_nth [OF 0(1), of k]
    by (auto simp: held_def numeral_2_eq_2 Suc_diff_Suc)
  moreover have "(msg_buffer b)[Suc k := NUL] = msg_buffer b"
    using held_NUL [OF 0(1)] 0 by (metis Suc_diff_1 add_0_right held_def le_eq_less_or_eq list_update_id
        numeral_3_eq_3 zero_less_Suc order_less_le_trans)
  moreover have "msg_carret b = 0" "k + 1 < MSG_BUF_SIZE" "gps_inv \<lparr>msg_carret = k, msg_buffer = msg_buffer b\<rparr>"
    using 0 by (auto simp: held_def gps_inv_def)
  ultimately show ?case
    using 0(3) by (simp add: parseGPS_cycle_defined cycle_result_def put_byte_def Let_def)
next
  case (Suc m)
  have "\<not> (s ! (k - 1) = CHR 0x0D \<and> s ! (k - 1 + 1) = CHR 0x0A)"
    using Suc.prems by (auto simp: held_def list_all_iff)
  moreover have "msg_buffer b ! (k - 1) = s ! (k - 1)" "msg_buffer b ! k = s ! k"
    using Suc.prems by (auto intro!: held_nth [OF Suc.prems(1)])
  moreover have "k + 1 < MSG_BUF_SIZE" "gps_inv \<lparr>msg_carret = k, msg_buffer = msg_buffer b\<rparr>"
    using Suc.prems by (auto simp: held_def gps_inv_def)
  ultimately have "parseGPS_cycle \<lparr>msg_carret = k, msg_buffer = msg_buffer b\<rparr> None =
      Some (NextCycle \<lparr>msg_carret = k + 1, msg_buffer = msg_buffer b\<rparr>)"
    using Suc.prems(3) by (simp add: parseGPS_cycle_defined cycle_result_def put_byte_def Let_def)
  with Suc.IH [of "k + 1"] Suc.prems show ?case by simp
qed

text \<open>C32. The result of \<open>read\<close> is not looked at: when the port fails after a sentence was delivered,
  a call whose reads all fail delivers that old sentence again as a new one.\<close>

theorem parseGPS_replays_on_failure:
  assumes "held s b" "length s \<le> n"
  shows "\<exists>rest. parseGPS b (replicate n None) = Some (True, b, rest)"
proof -
  have "3 \<le> length s" using assms(1) by (simp add: held_def)
  then obtain m where m: "length s = Suc (Suc m)"
    by (metis Suc_le_D eval_nat_numeral(3) numeral_2_eq_2 Suc_le_mono)
  have "replicate n None = None # replicate (Suc m) None @ replicate (n - length s) (None :: char option)"
    using assms(2) m by (metis append_Cons le_add_diff_inverse replicate_Suc replicate_add)
  moreover have "msg_buffer b ! 0 = CHR ''$''"
    using assms(1) m held_nth [OF assms(1), of 0] hd_conv_nth [of s] by (force simp: held_def)
  moreover have "parseGPS_cycle b None = Some (NextCycle \<lparr>msg_carret = 1, msg_buffer = msg_buffer b\<rparr>)"
    using calculation(2) assms(1) by (simp add: parseGPS_cycle_defined cycle_result_def put_byte_def held_def Let_def)
  ultimately show ?thesis
    using replay_cycles [OF assms(1), of 1 m] m by simp
qed

theorem parseGPS_replays_on_failure_witness:
  "\<exists>b rest. parseGPS b (replicate 100 None) = Some (True, b, rest)"
proof -
  let ?s = "''$G'' @ [CHR 0x0D, CHR 0x0A]"
  have "held ?s \<lparr>msg_carret = 0, msg_buffer = ?s @ replicate 252 NUL\<rparr>"
    by (simp add: held_def gps_inv_def MSG_BUF_SIZE_def numeral_2_eq_2)
  from parseGPS_replays_on_failure [OF this, of 100] show ?thesis by auto
qed

end
