(* ===== verification/Flight.thy ===== *)
theory Flight
  imports Minmea_Coord Gps_Line "HOL-Library.Sublist"
begin

text \<open>
  The mission loop of \<^verbatim>\<open>granum/granum_main.c\<close>: the mission state machine \<open>_translate_state\<close>
  with its pyrotechnic outputs, the altitude \<open>_alt\<close>, and the body of \<^verbatim>\<open>while(true)\<close>, block by
  block in the order of the code. The libraries the code calls are parameters (\<open>libc\<close>): the
  natural logarithm of \<^verbatim>\<open>libm\<close> and \<open>mktime\<close>. The devices are the inputs of an iteration
  (\<open>env\<close>): \<open>None\<close> is a \<open>read\<close> that failed and left its destination unchanged. What the
  program does is recorded as a list of events, the oldest first; a telemetry event is one
  message given to \<open>send_telem\<close>, with the values assigned to its fields (the packing into
  bytes is in the generated MAVLink headers, which are not part of the repository).
  \<open>None\<close> as the result of a block is undefined behaviour of the C code.
\<close>

section \<open>State\<close>

datatype gr_state_t =
    GR_STATE_BOOTING
  | GR_STATE_READY
  | GR_STATE_LOADED
  | GR_STATE_FREE_FALL
  | GR_STATE_AWAITING_CHUTE
  | GR_STATE_PRE_LANDING
  | GR_STATE_LANDED

datatype pyro = FIRE_CHUTE_DEPLOY | FIRE_CHUTE_CUT | FIRE_LEGS_DEPLOY

record gps_msg =
  gm_time_usec :: int
  gm_lon :: int
  gm_lat :: int
  gm_alt :: int
  gm_fix_type :: int

datatype gr_msg =
    MsgLuminosity int u16
  | MsgPressure int fnum int
  | MsgSonar int u16
  | MsgGps gps_msg
  | MsgStatus int gr_state_t

datatype event =
    Fire pyro
  | Telem gr_msg
  | SonarMeasure
  | SchedLock
  | Usleep int
  | SchedUnlock

record libc =
  lib_log :: "fnum \<Rightarrow> fnum"
  lib_mktime :: "tm \<Rightarrow> int"

record env =
  in_sec :: int
  in_nsec :: int
  in_lux :: "u16 option"
  in_baro :: "(fnum \<times> fnum) option"
  in_sonar :: "u16 option"
  in_gps :: "char option list"

record flight =
  gr_state :: gr_state_t
  ground_pressure :: fnum
  chute_open_time :: int
  boottime :: int
  current_sec :: int
  time_boot_ms :: int
  luminosity :: u16
  baro_pressure :: fnum
  baro_temperature :: fnum
  prev_height :: fnum
  prev_time :: fnum
  repetitions :: u8
  sonar_distance :: u16
  gps :: gps_buf
  gps_time :: timespec
  st_send_delay :: u8
  trace :: "event list"

definition emit :: "event \<Rightarrow> flight \<Rightarrow> flight" where
  "emit e s = s\<lparr>trace := trace s @ [e]\<rparr>"

section \<open>The state machine\<close>

definition translate_state :: "flight \<Rightarrow> flight" where
  "translate_state s =
     (case gr_state s of
        GR_STATE_BOOTING \<Rightarrow> s\<lparr>gr_state := GR_STATE_READY\<rparr>
      | GR_STATE_READY \<Rightarrow> s\<lparr>gr_state := GR_STATE_LOADED\<rparr>
      | GR_STATE_LOADED \<Rightarrow> s\<lparr>gr_state := GR_STATE_FREE_FALL\<rparr>
      | GR_STATE_FREE_FALL \<Rightarrow>
          (emit (Fire FIRE_CHUTE_DEPLOY) s)\<lparr>chute_open_time := current_sec s, gr_state := GR_STATE_AWAITING_CHUTE\<rparr>
      | GR_STATE_AWAITING_CHUTE \<Rightarrow>
          (emit (Fire FIRE_LEGS_DEPLOY) s)\<lparr>gr_state := GR_STATE_PRE_LANDING\<rparr>
      | GR_STATE_PRE_LANDING \<Rightarrow>
          (emit (Fire FIRE_CHUTE_CUT) s)\<lparr>gr_state := GR_STATE_LANDED\<rparr>
      | GR_STATE_LANDED \<Rightarrow> s)"

abbreviation dlit :: "int \<Rightarrow> int \<Rightarrow> fnum" where "dlit \<equiv> lit binary64"
abbreviation dadd :: "fnum \<Rightarrow> fnum \<Rightarrow> fnum" where "dadd \<equiv> fadd binary64"
abbreviation dsub :: "fnum \<Rightarrow> fnum \<Rightarrow> fnum" where "dsub \<equiv> fsub binary64"
abbreviation dmul :: "fnum \<Rightarrow> fnum \<Rightarrow> fnum" where "dmul \<equiv> fmul binary64"
abbreviation ddiv :: "fnum \<Rightarrow> fnum \<Rightarrow> fnum" where "ddiv \<equiv> fdiv binary64"
abbreviation of_int_d :: "int \<Rightarrow> fnum" where "of_int_d \<equiv> of_int_f binary64"

definition alt :: "libc \<Rightarrow> fnum \<Rightarrow> fnum \<Rightarrow> fnum" where
  "alt L pressure reference_pressure =
     ddiv (lib_log L (ddiv pressure reference_pressure))
       (fneg (dlit 118558460224151 1000000000000000000))"

definition altitude :: "libc \<Rightarrow> flight \<Rightarrow> fnum" where
  "altitude L s = alt L (baro_pressure s) (ground_pressure s)"

section \<open>The blocks of an iteration\<close>

definition GR_CONFIG_LUX_THRESHOLD :: u16 where "GR_CONFIG_LUX_THRESHOLD = 1000"

text \<open>The clock and the two timers. The seconds are of an unsigned type of 32 bits (\<^verbatim>\<open>time_t\<close> of NuttX), in
which the milliseconds are computed; the differences do not wrap, since the clock is monotonic.\<close>

definition time_block :: "env \<Rightarrow> flight \<Rightarrow> flight option" where
  "time_block i s =
     (let s1 = s\<lparr>current_sec := in_sec i, time_boot_ms := (in_sec i * 1000 + in_nsec i div 1000000) mod 2 ^ 32\<rparr>;
          s2 = (if gr_state s1 = GR_STATE_READY \<and> current_sec s1 - boottime s1 \<ge> 300
                then translate_state s1 else s1)
      in Some (if gr_state s2 = GR_STATE_AWAITING_CHUTE \<and>
                  current_sec s2 - chute_open_time s2 > 30
               then translate_state s2 else s2))"

text \<open>TSL2561: the light sensor.\<close>

definition lux_block :: "env \<Rightarrow> flight \<Rightarrow> flight option" where
  "lux_block i s =
     (let s1 = (case in_lux i of None \<Rightarrow> s | Some l \<Rightarrow> s\<lparr>luminosity := l\<rparr>);
          s2 = emit (Telem (MsgLuminosity (time_boot_ms s1) (luminosity s1))) s1
      in Some (if gr_state s2 = GR_STATE_LOADED \<and> luminosity s2 \<ge> GR_CONFIG_LUX_THRESHOLD
               then translate_state s2 else s2))"

text \<open>The fields of the messages have the types of the message definitions (\<^verbatim>\<open>common.xml\<close>, \<^verbatim>\<open>granum.xml\<close>):
a double that is assigned to an integer field and does not fit is undefined behaviour, an integer is cut.
BMP280: reading and telemetry, then the two altitude thresholds, then the descent rate.\<close>

definition baro_read :: "env \<Rightarrow> flight \<Rightarrow> flight option" where
  "baro_read i s =
     (let s1 = (case in_baro i of None \<Rightarrow> s
                | Some (p, t) \<Rightarrow> s\<lparr>baro_pressure := p, baro_temperature := t\<rparr>)
      in map_option (\<lambda>t. emit (Telem (MsgPressure (time_boot_ms s1)
           (fconv binary32 (ddiv (baro_pressure s1) (dlit 100 1))) t)) s1)
         (to_int16 (dmul (baro_temperature s1) (dlit 100 1))))"

definition height_block :: "libc \<Rightarrow> env \<Rightarrow> flight \<Rightarrow> flight option" where
  "height_block L i s =
     (let s1 = (if gr_state s = GR_STATE_FREE_FALL \<and> fle (altitude L s) (dlit 250 1)
                then translate_state s else s)
      in Some (if gr_state s1 = GR_STATE_AWAITING_CHUTE \<and> fle (altitude L s1) (dlit 50 1)
               then translate_state s1 else s1))"

definition seconds_of :: "flight \<Rightarrow> fnum" where
  "seconds_of s = ddiv (of_int_d (time_boot_ms s)) (dlit 1000 1)"

definition descent_block :: "libc \<Rightarrow> env \<Rightarrow> flight \<Rightarrow> flight option" where
  "descent_block L i s =
     (if gr_state s = GR_STATE_AWAITING_CHUTE then
        let current_height = altitude L s;
            current_time_dbl = seconds_of s;
            s1 = (if \<not> feq (prev_height s) (dlit 0 1) then
                    let v = ddiv (dsub current_height (prev_height s)) (dsub current_time_dbl (prev_time s));
                        s' = s\<lparr>repetitions := (if flt (fabs v) (dlit 10 1) then repetitions s + 1 else 0)\<rparr>
                    in if repetitions s' = 10 then translate_state s' else s'
                  else s)
        in Some (s1\<lparr>prev_height := current_height, prev_time := current_time_dbl\<rparr>)
      else Some s)"

text \<open>GY-US42: the sonar, and the landing. The \<^verbatim>\<open>static\<close> variables of this block are initialised
  to zero and never assigned. \<open>usleep(t * 1000000)\<close> converts a double to an unsigned integer.\<close>

definition sonar_read :: "env \<Rightarrow> flight \<Rightarrow> flight option" where
  "sonar_read i s =
     (let s1 = (case in_sonar i of None \<Rightarrow> s | Some d \<Rightarrow> s\<lparr>sonar_distance := d\<rparr>);
          s2 = emit SonarMeasure s1
      in Some (emit (Telem (MsgSonar (time_boot_ms s2) (sonar_distance s2))) s2))"

definition landing_delay :: "libc \<Rightarrow> flight \<Rightarrow> int option" where
  "landing_delay L s =
     (let prev_height = dlit 0 1; prev_time = dlit 0 1;
          v = ddiv (dsub (altitude L s) prev_height) (dsub (seconds_of s) prev_time);
          t = ddiv (dlit 10 1) v
      in to_uint32 (dmul t (of_int_d 1000000)))"

definition landing_block :: "libc \<Rightarrow> env \<Rightarrow> flight \<Rightarrow> flight option" where
  "landing_block L i s =
     (if gr_state s = GR_STATE_PRE_LANDING \<and> sonar_distance s < 1200 then
        case landing_delay L s of
          None \<Rightarrow> None
        | Some us \<Rightarrow> Some (emit SchedUnlock (translate_state (emit (Usleep us) (emit SchedLock s))))
      else Some s)"

text \<open>GPS: the assembler, then parsing and telemetry of a fix.\<close>

definition gps_basedate :: minmea_date where
  "gps_basedate = \<lparr>md_day = 1, md_month = 5, md_year = 18\<rparr>"

definition fix_message :: "minmea_sentence_gga \<Rightarrow> timespec \<Rightarrow> gps_msg option" where
  "fix_message frame ts =
     do {
       usec \<leftarrow> to_uint64 (dadd (dmul (of_int_d (tv_sec ts)) (dlit 1000000 1)) (ddiv (of_int_d (tv_nsec ts)) (dlit 1000 1)));
       lon_f \<leftarrow> minmea_tocoord (gga_longitude frame);
       lon \<leftarrow> to_int32 (fmul binary32 lon_f (of_int_f binary32 10000000));
       lat_f \<leftarrow> minmea_tocoord (gga_latitude frame);
       lat \<leftarrow> to_int32 (fmul binary32 lat_f (of_int_f binary32 10000000));
       alt \<leftarrow> to_int32 (fmul binary32 (minmea_tofloat (gga_altitude frame)) (of_int_f binary32 1000));
       Some \<lparr>gm_time_usec = usec, gm_lon = lon, gm_lat = lat, gm_alt = alt, gm_fix_type = gga_fix_quality frame mod 256\<rparr>
     }"

definition gps_block :: "libc \<Rightarrow> env \<Rightarrow> flight \<Rightarrow> flight option" where
  "gps_block L i s =
     (case parseGPS (gps s) (in_gps i) of None \<Rightarrow> None | Some (ok, b, _) \<Rightarrow>
      let s1 = s\<lparr>gps := b\<rparr>;
          line = c_string (msg_buffer b)
      in if \<not> ok \<or> \<not> minmea_check line False then Some s1
         else case minmea_parse_gga line of
             Undefined \<Rightarrow> None
           | ParseError \<Rightarrow> Some s1
           | Parsed frame \<Rightarrow>
               if gga_fix_quality frame = 0 then Some s1
               else case minmea_gettime (lib_mktime L) gps_basedate (gga_time frame) of
                   Undefined \<Rightarrow> None
                 | r \<Rightarrow>
                     let s2 = (case r of Parsed ts \<Rightarrow> s1\<lparr>gps_time := ts\<rparr> | _ \<Rightarrow> s1) in
                     case fix_message frame (gps_time s2) of
                       None \<Rightarrow> None
                     | Some m \<Rightarrow> Some (emit (Telem (MsgGps m)) s2))"

text \<open>Every tenth iteration reports the state; then the loop sleeps.\<close>

definition status_block :: "env \<Rightarrow> flight \<Rightarrow> flight option" where
  "status_block i s =
     (let s1 = s\<lparr>st_send_delay := st_send_delay s + 1\<rparr>;
          s2 = (if st_send_delay s1 = 10
                then (emit (Telem (MsgStatus (time_boot_ms s1) (gr_state s1))) s1)\<lparr>st_send_delay := 0\<rparr>
                else s1)
      in Some (emit (Usleep 100000) s2))"

section \<open>The loop\<close>

definition andthen ::
  "(env \<Rightarrow> flight \<Rightarrow> flight option) \<Rightarrow> (env \<Rightarrow> flight \<Rightarrow> flight option) \<Rightarrow> env \<Rightarrow> flight \<Rightarrow> flight option" where
  "andthen a b i s = Option.bind (a i s) (b i)"

definition iteration :: "libc \<Rightarrow> env \<Rightarrow> flight \<Rightarrow> flight option" where
  "iteration L =
     andthen time_block (andthen lux_block (andthen baro_read (andthen (height_block L)
       (andthen (descent_block L) (andthen sonar_read (andthen (landing_block L)
         (andthen (gps_block L) status_block)))))))"

text \<open>\<open>while(true)\<close>, over the inputs of the iterations made so far.\<close>

fun run_block :: "(env \<Rightarrow> flight \<Rightarrow> flight option) \<Rightarrow> env list \<Rightarrow> flight \<Rightarrow> flight option" where
  "run_block blk [] s = Some s"
| "run_block blk (i # is) s = Option.bind (blk i s) (run_block blk is)"

definition mission :: "libc \<Rightarrow> env list \<Rightarrow> flight \<Rightarrow> flight option" where
  "mission L = run_block (iteration L)"

text \<open>Before the loop: the first transition, the ground pressure and the boot time. \<open>junk\<close> is
  what the uninitialised messages hold.\<close>

definition boot :: "flight \<Rightarrow> (fnum \<times> fnum) option \<Rightarrow> int \<Rightarrow> flight" where
  "boot junk baro0 sec0 =
     (let zero = dlit 0 1;
          s0 = junk\<lparr>gr_state := GR_STATE_BOOTING, chute_open_time := 0,
                 baro_pressure := zero, baro_temperature := zero, prev_height := zero, prev_time := zero,
                 repetitions := 0, gps := gps_buf_init, st_send_delay := 0, trace := []\<rparr>;
          s1 = translate_state s0;
          s2 = (case baro0 of None \<Rightarrow> s1 | Some (p, t) \<Rightarrow> s1\<lparr>baro_pressure := p, baro_temperature := t\<rparr>)
      in s2\<lparr>ground_pressure := baro_pressure s2, current_sec := sec0, boottime := sec0\<rparr>)"

end
