(* ===== verification/Flight_Safety.thy ===== *)
theory Flight_Safety
  imports Flight
begin

text \<open>
  What the mission loop guarantees. The locale \<open>flight_block\<close> is the contract of one block of
  the loop: it keeps the invariant that ties the pyrotechnic outputs to the state, never moves
  the state machine backwards, only appends to the trace, and leaves the boot time and the
  ground pressure alone. \<open>idle_block\<close> extends it with the states in which the block does not
  act. Both are interpreted for every block; the loop inherits them by composition.
\<close>

section \<open>The invariant and the order of states\<close>

fun pyros :: "event list \<Rightarrow> pyro list" where
  "pyros [] = []"
| "pyros (Fire p # es) = p # pyros es"
| "pyros (_ # es) = pyros es"

lemma pyros_append [simp]: "pyros (es @ fs) = pyros es @ pyros fs"
  by (induction es rule: pyros.induct) auto

fun fired_by :: "gr_state_t \<Rightarrow> pyro list" where
  "fired_by GR_STATE_AWAITING_CHUTE = [FIRE_CHUTE_DEPLOY]"
| "fired_by GR_STATE_PRE_LANDING = [FIRE_CHUTE_DEPLOY, FIRE_LEGS_DEPLOY]"
| "fired_by GR_STATE_LANDED = [FIRE_CHUTE_DEPLOY, FIRE_LEGS_DEPLOY, FIRE_CHUTE_CUT]"
| "fired_by _ = []"

fun rank :: "gr_state_t \<Rightarrow> nat" where
  "rank GR_STATE_BOOTING = 0"
| "rank GR_STATE_READY = 1"
| "rank GR_STATE_LOADED = 2"
| "rank GR_STATE_FREE_FALL = 3"
| "rank GR_STATE_AWAITING_CHUTE = 4"
| "rank GR_STATE_PRE_LANDING = 5"
| "rank GR_STATE_LANDED = 6"

definition flight_inv :: "flight \<Rightarrow> bool" where
  "flight_inv s \<longleftrightarrow> pyros (trace s) = fired_by (gr_state s)"

definition advances :: "flight \<Rightarrow> flight \<Rightarrow> bool" where
  "advances s s' \<longleftrightarrow> (flight_inv s \<longrightarrow> flight_inv s') \<and> rank (gr_state s) \<le> rank (gr_state s')
     \<and> prefix (trace s) (trace s') \<and> boottime s' = boottime s \<and> ground_pressure s' = ground_pressure s
     \<and> (4 \<le> rank (gr_state s) \<longrightarrow> chute_open_time s' = chute_open_time s)"

lemma advances_refl [intro, simp]: "advances s s"
  by (simp add: advances_def)

lemma advances_trans: "advances s t \<Longrightarrow> advances t u \<Longrightarrow> advances s u"
  by (auto simp: advances_def)

text \<open>An output that is no pyro, a transition, and a change of the other fields.\<close>

lemma emit_simps [simp]:
  "gr_state (emit e s) = gr_state s" "trace (emit e s) = trace s @ [e]"
  "boottime (emit e s) = boottime s" "ground_pressure (emit e s) = ground_pressure s"
  "current_sec (emit e s) = current_sec s" "chute_open_time (emit e s) = chute_open_time s"
  "time_boot_ms (emit e s) = time_boot_ms s" "baro_pressure (emit e s) = baro_pressure s"
  "sonar_distance (emit e s) = sonar_distance s" "luminosity (emit e s) = luminosity s"
  "st_send_delay (emit e s) = st_send_delay s" "gps (emit e s) = gps s"
  "prev_height (emit e s) = prev_height s" "prev_time (emit e s) = prev_time s"
  "repetitions (emit e s) = repetitions s"
  by (simp_all add: emit_def)

lemma advances_emit: "advances s t \<Longrightarrow> \<forall>p. e \<noteq> Fire p \<Longrightarrow> advances s (emit e t)"
  by (cases e) (auto simp: advances_def flight_inv_def)

lemma translate_advances: "advances s t \<Longrightarrow> advances s (translate_state t)"
  by (cases "gr_state t") (auto simp: advances_def flight_inv_def translate_state_def prefix_def)

lemma advances_fields:
  "advances s t \<Longrightarrow> advances s (t\<lparr>current_sec := x1\<rparr>)"
  "advances s t \<Longrightarrow> advances s (t\<lparr>time_boot_ms := x2\<rparr>)"
  "advances s t \<Longrightarrow> advances s (t\<lparr>luminosity := x3\<rparr>)"
  "advances s t \<Longrightarrow> advances s (t\<lparr>baro_pressure := x4\<rparr>)"
  "advances s t \<Longrightarrow> advances s (t\<lparr>baro_temperature := x5\<rparr>)"
  "advances s t \<Longrightarrow> advances s (t\<lparr>prev_height := x6\<rparr>)"
  "advances s t \<Longrightarrow> advances s (t\<lparr>prev_time := x7\<rparr>)"
  "advances s t \<Longrightarrow> advances s (t\<lparr>repetitions := x8\<rparr>)"
  "advances s t \<Longrightarrow> advances s (t\<lparr>sonar_distance := x9\<rparr>)"
  "advances s t \<Longrightarrow> advances s (t\<lparr>gps := x10\<rparr>)"
  "advances s t \<Longrightarrow> advances s (t\<lparr>gps_time := x11\<rparr>)"
  "advances s t \<Longrightarrow> advances s (t\<lparr>st_send_delay := x12\<rparr>)"
  by (simp_all add: advances_def flight_inv_def)

lemma advances_if: "(c \<Longrightarrow> advances s t) \<Longrightarrow> (\<not> c \<Longrightarrow> advances s u) \<Longrightarrow> advances s (if c then t else u)"
  by simp

lemmas advances_intros = advances_refl advances_emit translate_advances advances_fields advances_if

lemma translate_simps [simp]:
  "current_sec (translate_state s) = current_sec s" "boottime (translate_state s) = boottime s"
  "ground_pressure (translate_state s) = ground_pressure s"
  "baro_pressure (translate_state s) = baro_pressure s"
  "time_boot_ms (translate_state s) = time_boot_ms s"
  "st_send_delay (translate_state s) = st_send_delay s" "gps (translate_state s) = gps s"
  "sonar_distance (translate_state s) = sonar_distance s" "luminosity (translate_state s) = luminosity s"
  by (cases "gr_state s"; simp add: translate_state_def)+

section \<open>The contract of a block\<close>

locale flight_block =
  fixes blk :: "env \<Rightarrow> flight \<Rightarrow> flight option"
  assumes advance: "blk i s = Some s' \<Longrightarrow> advances s s'"
begin

lemma keeps_inv: "blk i s = Some s' \<Longrightarrow> flight_inv s \<Longrightarrow> flight_inv s'"
  using advance by (auto simp: advances_def)

lemma run_advances: "run_block blk is s = Some s' \<Longrightarrow> advances s s'"
proof (induction "is" arbitrary: s)
  case (Cons i "is")
  then obtain t where "blk i s = Some t" "run_block blk is t = Some s'"
    by (auto simp: bind_eq_Some_conv)
  with Cons.IH advance show ?case by (blast intro: advances_trans)
qed simp

lemma run_pyros: "run_block blk is s = Some s' \<Longrightarrow> flight_inv s \<Longrightarrow> pyros (trace s') = fired_by (gr_state s')"
  using run_advances by (auto simp: advances_def flight_inv_def)

end

locale idle_block = flight_block +
  fixes idle_in :: "gr_state_t set"
  assumes idle: "blk i s = Some s' \<Longrightarrow> gr_state s \<in> idle_in \<Longrightarrow> gr_state s' = gr_state s"
begin

lemma no_fire: "blk i s = Some s' \<Longrightarrow> flight_inv s \<Longrightarrow> gr_state s \<in> idle_in \<Longrightarrow> pyros (trace s') = pyros (trace s)"
  using keeps_inv idle by (metis flight_inv_def)

end

lemma flight_block_andthen:
  assumes "flight_block a" "flight_block b"
  shows "flight_block (andthen a b)"
proof
  fix i s s' assume "andthen a b i s = Some s'"
  then obtain t where "a i s = Some t" "b i t = Some s'"
    by (auto simp: andthen_def bind_eq_Some_conv)
  then show "advances s s'"
    using flight_block.advance [OF assms(1)] flight_block.advance [OF assms(2)] by (blast intro: advances_trans)
qed

lemma idle_block_andthen:
  assumes "idle_block a S" "idle_block b S"
  shows "idle_block (andthen a b) S"
proof -
  have "flight_block (andthen a b)"
    using assms by (intro flight_block_andthen) (auto simp: idle_block_def)
  moreover have "gr_state s' = gr_state s" if "andthen a b i s = Some s'" "gr_state s \<in> S" for i s s'
  proof -
    from that(1) obtain t where "a i s = Some t" "b i t = Some s'"
      by (auto simp: andthen_def bind_eq_Some_conv)
    with that(2) show ?thesis
      using idle_block.idle [OF assms(1)] idle_block.idle [OF assms(2)] by metis
  qed
  ultimately show ?thesis
    by (auto simp: idle_block_def idle_block_axioms_def)
qed

lemma idle_block_mono: "idle_block a S \<Longrightarrow> T \<subseteq> S \<Longrightarrow> idle_block a T"
  by (auto simp: idle_block_def idle_block_axioms_def)

section \<open>The blocks of the code satisfy it\<close>

interpretation time: idle_block time_block "- {GR_STATE_READY, GR_STATE_AWAITING_CHUTE}"
  by unfold_locales (auto simp: time_block_def Let_def intro!: advances_intros split: if_splits)

interpretation lux: idle_block lux_block "- {GR_STATE_LOADED}"
  by unfold_locales
    (auto simp: lux_block_def Let_def intro!: advances_intros split: if_splits option.splits)

interpretation baro: idle_block baro_read UNIV
  by unfold_locales (auto simp: baro_read_def Let_def intro!: advances_intros split: option.splits)

interpretation height: idle_block "height_block L" "- {GR_STATE_FREE_FALL, GR_STATE_AWAITING_CHUTE}" for L
  by unfold_locales (auto simp: height_block_def Let_def intro!: advances_intros split: if_splits)

interpretation descent: idle_block "descent_block L" "- {GR_STATE_AWAITING_CHUTE}" for L
  by unfold_locales
    (auto simp: descent_block_def Let_def intro!: advances_intros split del: if_split split: if_split_asm)

interpretation sonar: idle_block sonar_read UNIV
  by unfold_locales (auto simp: sonar_read_def Let_def intro!: advances_intros split: option.splits)

interpretation landing: idle_block "landing_block L" "- {GR_STATE_PRE_LANDING}" for L
  by unfold_locales
    (auto simp: landing_block_def Let_def intro!: advances_intros split: if_splits option.splits)

interpretation gps: idle_block "gps_block L" UNIV for L
  by unfold_locales
    (auto simp: gps_block_def Let_def intro!: advances_intros
      split: if_splits option.splits parse.splits prod.splits)

interpretation status: idle_block status_block UNIV
  by unfold_locales (auto simp: status_block_def Let_def intro!: advances_intros)

text \<open>The whole iteration.\<close>

lemmas block_axioms =
  time.flight_block_axioms lux.flight_block_axioms baro.flight_block_axioms height.flight_block_axioms
  descent.flight_block_axioms sonar.flight_block_axioms landing.flight_block_axioms
  gps.flight_block_axioms status.flight_block_axioms

interpretation iter: flight_block "iteration L" for L
  unfolding iteration_def by (intro flight_block_andthen block_axioms)

end
