(* ===== verification/Flight_Properties.thy ===== *)
theory Flight_Properties
  imports Flight_Safety
begin

text \<open>
  The properties of the mission loop: the order of the pyrotechnic outputs, the conditions under
  which each is fired, the timers, what happens without a barometer, and the telemetry each
  iteration sends.
\<close>

section \<open>A concrete library and concrete inputs for the witnesses\<close>

text \<open>A logarithm that is exact at 1 and keeps NaN; the witnesses need no more of it.\<close>

definition demo_libc :: libc where
  "demo_libc = \<lparr>lib_log = (\<lambda>x. if x = FNaN then FNaN else dsub x (dlit 1 1)), lib_mktime = (\<lambda>_. 0)\<rparr>"

definition demo_env :: "int \<Rightarrow> u16 \<Rightarrow> int \<Rightarrow> u16 \<Rightarrow> env" where
  "demo_env sec lux pressure dist =
     \<lparr>in_sec = sec, in_nsec = 0, in_lux = Some lux, in_baro = Some (dlit pressure 1, dlit 20 1),
      in_sonar = Some dist, in_gps = []\<rparr>"

definition demo_start :: flight where
  "demo_start = boot \<lparr>gr_state = GR_STATE_LANDED, ground_pressure = FNaN, chute_open_time = 0, boottime = 0,
     current_sec = 0, time_boot_ms = 0, luminosity = 0, baro_pressure = FNaN, baro_temperature = FNaN,
     prev_height = FNaN, prev_time = FNaN, repetitions = 7, sonar_distance = 0, gps = gps_buf_init,
     gps_time = \<lparr>tv_sec = 0, tv_nsec = 0\<rparr>, st_send_delay = 3, trace = []\<rparr>
     (Some (dlit 100000 1, dlit 20 1)) 4"

lemma demo_run_ok:
  "mission demo_libc [demo_env 5 100 100000 5000, demo_env 310 2000 99000 5000] demo_start \<noteq> None"
  by code_simp

section \<open>The pyrotechnic outputs\<close>

lemma boot_inv: "flight_inv (boot junk b t0)" "gr_state (boot junk b t0) = GR_STATE_READY"
  "boottime (boot junk b t0) = t0"
  by (auto simp: boot_def Let_def flight_inv_def translate_state_def split: option.split)

lemma mission_advances: "mission L is s = Some s' \<Longrightarrow> advances s s'"
  unfolding mission_def by (rule iter.run_advances)

text \<open>C1. Pyrotechnic order: whatever the sensors deliver and for as long as the mission runs, what
  has been fired is determined by the state: nothing up to free fall, then the parachute, then
  the legs, then the cutter, in this order and each exactly once.\<close>

theorem pyro_sequence:
  assumes "mission L is (boot junk b t0) = Some s"
  shows "pyros (trace s) = fired_by (gr_state s) \<and> gr_state s \<noteq> GR_STATE_BOOTING"
proof -
  from mission_advances [OF assms] boot_inv(1) have "flight_inv s" "rank GR_STATE_READY \<le> rank (gr_state s)"
    using boot_inv(2) by (auto simp: advances_def)
  then show ?thesis by (cases "gr_state s") (auto simp: flight_inv_def)
qed

theorem pyro_sequence_witness:
  "\<exists>s. mission demo_libc [demo_env 5 100 100000 5000, demo_env 310 2000 99000 5000] demo_start = Some s
    \<and> pyros (trace s) = fired_by (gr_state s)"
proof -
  obtain s where s: "mission demo_libc [demo_env 5 100 100000 5000, demo_env 310 2000 99000 5000] demo_start = Some s"
    using demo_run_ok by blast
  from pyro_sequence [OF s [unfolded demo_start_def]] s show ?thesis by blast
qed

text \<open>The part of an iteration after the clock, and after the light sensor.\<close>

definition after_height :: "libc \<Rightarrow> env \<Rightarrow> flight \<Rightarrow> flight option" where
  "after_height L = andthen (descent_block L) (andthen sonar_read (andthen (landing_block L)
     (andthen (gps_block L) status_block)))"

definition after_clock :: "libc \<Rightarrow> env \<Rightarrow> flight \<Rightarrow> flight option" where
  "after_clock L = andthen lux_block (andthen baro_read (andthen (height_block L) (after_height L)))"

lemma iteration_split: "iteration L = andthen time_block (after_clock L)"
  by (simp add: iteration_def after_clock_def after_height_def)

definition unfired :: "gr_state_t set" where
  "unfired = {GR_STATE_BOOTING, GR_STATE_READY, GR_STATE_LOADED, GR_STATE_FREE_FALL}"

interpretation tail: idle_block "after_height L" unfired for L
  unfolding after_height_def
  by (intro idle_block_andthen;
      rule descent.idle_block_axioms [THEN idle_block_mono] sonar.idle_block_axioms [THEN idle_block_mono]
        landing.idle_block_axioms [THEN idle_block_mono] gps.idle_block_axioms [THEN idle_block_mono]
        status.idle_block_axioms [THEN idle_block_mono];
      auto simp: unfired_def)

interpretation rest: idle_block "after_clock L" "{GR_STATE_BOOTING, GR_STATE_READY}" for L
  unfolding after_clock_def
  by (intro idle_block_andthen;
      rule lux.idle_block_axioms [THEN idle_block_mono] baro.idle_block_axioms [THEN idle_block_mono]
        height.idle_block_axioms [THEN idle_block_mono] tail.idle_block_axioms [THEN idle_block_mono];
      auto simp: unfired_def)

lemma iteration_ready:
  assumes "iteration L i s = Some s'" "gr_state s = GR_STATE_READY" "in_sec i - boottime s < 300"
  shows "gr_state s' = GR_STATE_READY"
proof -
  from assms(1) obtain t where t: "time_block i s = Some t" "after_clock L i t = Some s'"
    by (auto simp: iteration_split andthen_def bind_eq_Some_conv)
  from t(1) assms(2,3) have "gr_state t = GR_STATE_READY"
    by (auto simp: time_block_def Let_def)
  with rest.idle [OF t(2)] show ?thesis by simp
qed

lemma mission_ready:
  "mission L is s = Some s' \<Longrightarrow> gr_state s = GR_STATE_READY \<Longrightarrow> list_all (\<lambda>i. in_sec i - boottime s < 300) is \<Longrightarrow>
    gr_state s' = GR_STATE_READY"
proof (induction "is" arbitrary: s)
  case (Cons i "is")
  then obtain t where t: "iteration L i s = Some t" "mission L is t = Some s'"
    by (auto simp: mission_def bind_eq_Some_conv)
  have "boottime t = boottime s" using iter.advance [OF t(1)] by (simp add: advances_def)
  with Cons.IH [OF t(2) iteration_ready [OF t(1) Cons.prems(2)]] Cons.prems(3) show ?case by simp
qed (simp add: mission_def)

text \<open>C2. Arming delay: in the first 300 seconds after boot the state machine stays in READY and
  no pyrotechnic output is fired, whatever light, pressure or distance the sensors report.\<close>

theorem no_fire_before_300s:
  assumes "mission L is (boot junk b t0) = Some s" "list_all (\<lambda>i. in_sec i < t0 + 300) is"
  shows "gr_state s = GR_STATE_READY \<and> pyros (trace s) = []"
proof -
  have "list_all (\<lambda>i. in_sec i - boottime (boot junk b t0) < 300) is"
    using assms(2) by (auto simp: boot_inv(3) list_all_iff)
  from mission_ready [OF assms(1) boot_inv(2) this] have "gr_state s = GR_STATE_READY" .
  moreover from iter.run_pyros assms(1) boot_inv(1) have "pyros (trace s) = fired_by (gr_state s)"
    by (simp add: mission_def)
  ultimately show ?thesis by simp
qed

theorem no_fire_before_300s_witness:
  "\<exists>s. mission demo_libc [demo_env 303 9000 100000 5] demo_start = Some s \<and> pyros (trace s) = []"
proof -
  have "mission demo_libc [demo_env 303 9000 100000 5] demo_start \<noteq> None" by code_simp
  then obtain s where s: "mission demo_libc [demo_env 303 9000 100000 5] demo_start = Some s" by blast
  from no_fire_before_300s [OF s [unfolded demo_start_def]] s show ?thesis
    by (simp add: demo_env_def)
qed

section \<open>When each output is fired\<close>

lemma inv_unfired: "flight_inv s \<Longrightarrow> pyros (trace s) = [] \<longleftrightarrow> gr_state s \<in> unfired"
  by (cases "gr_state s") (auto simp: flight_inv_def unfired_def)

definition held_pressure :: "env \<Rightarrow> flight \<Rightarrow> fnum" where
  "held_pressure i s = (case in_baro i of None \<Rightarrow> baro_pressure s | Some (p, _) \<Rightarrow> p)"

text \<open>The first three blocks from a state with nothing fired.\<close>

lemma unfired_cases:
  "gr_state s \<in> unfired \<Longrightarrow> (gr_state s = GR_STATE_BOOTING \<Longrightarrow> P) \<Longrightarrow> (gr_state s = GR_STATE_READY \<Longrightarrow> P) \<Longrightarrow>
    (gr_state s = GR_STATE_LOADED \<Longrightarrow> P) \<Longrightarrow> (gr_state s = GR_STATE_FREE_FALL \<Longrightarrow> P) \<Longrightarrow> P"
  by (auto simp: unfired_def)

lemma time_unfired:
  assumes "time_block i s = Some s1" "gr_state s \<in> unfired"
  shows "gr_state s1 \<in> unfired \<and> baro_pressure s1 = baro_pressure s \<and> ground_pressure s1 = ground_pressure s
    \<and> current_sec s1 = in_sec i"
  using assms(2)
  by (rule unfired_cases) (use assms(1) in \<open>auto simp: time_block_def Let_def unfired_def translate_state_def split: if_splits\<close>)

lemma lux_unfired:
  assumes "lux_block i s = Some s1" "gr_state s \<in> unfired"
  shows "gr_state s1 \<in> unfired \<and> baro_pressure s1 = baro_pressure s \<and> ground_pressure s1 = ground_pressure s
    \<and> current_sec s1 = current_sec s"
  using assms(2)
  by (rule unfired_cases)
    (use assms(1) in \<open>auto simp: lux_block_def Let_def unfired_def translate_state_def split: option.splits\<close>)

lemma front_unfired:
  assumes "time_block i s = Some s1" "lux_block i s1 = Some s2" "baro_read i s2 = Some s3"
    and "gr_state s \<in> unfired"
  shows "gr_state s3 \<in> unfired" "baro_pressure s3 = held_pressure i s"
    "ground_pressure s3 = ground_pressure s" "current_sec s3 = in_sec i"
  using time_unfired [OF assms(1,4)] lux_unfired [OF assms(2)] assms(3)
  by (auto simp: baro_read_def held_pressure_def Let_def split: option.splits)

lemma height_from_unfired:
  assumes "height_block L i s3 = Some s4" "gr_state s3 \<in> unfired" "gr_state s4 \<notin> unfired"
  shows "fle (altitude L s3) (dlit 250 1)" "chute_open_time s4 = current_sec s3"
  using assms
  by (auto simp: height_block_def Let_def unfired_def translate_state_def split: if_splits)

lemma chute_unfired_iteration:
  assumes "iteration L i s = Some s'" "flight_inv s" "pyros (trace s) = []" "pyros (trace s') \<noteq> []"
  shows "fle (alt L (held_pressure i s) (ground_pressure s)) (dlit 250 1)"
proof -
  from assms(1) obtain s1 s2 s3 s4 where st: "time_block i s = Some s1" "lux_block i s1 = Some s2"
    "baro_read i s2 = Some s3" "height_block L i s3 = Some s4" "after_height L i s4 = Some s'"
    by (auto simp: iteration_split after_clock_def andthen_def bind_eq_Some_conv)
  from assms(2,3) have s: "gr_state s \<in> unfired" by (simp add: inv_unfired)
  note f = front_unfired [OF st(1-3) s]
  have inv4: "flight_inv s4"
    using assms(2) st time.keeps_inv lux.keeps_inv baro.keeps_inv height.keeps_inv by blast
  have "gr_state s4 \<notin> unfired"
  proof
    assume "gr_state s4 \<in> unfired"
    from tail.no_fire [OF st(5) inv4 this] inv_unfired [OF inv4] this assms(4) show False by simp
  qed
  from height_from_unfired(1) [OF st(4) f(1) this] f(2,3) show ?thesis
    by (simp add: altitude_def)
qed

text \<open>The parachute is deployed only at or below 250 m: an iteration that fires it found the
  altitude computed from the pressure it holds and the ground pressure to be at most 250.\<close>

theorem chute_only_below_250m:
  assumes "iteration L i s = Some s'" "flight_inv s" "pyros (trace s) = []" "pyros (trace s') \<noteq> []"
  shows "fle (alt L (held_pressure i s) (ground_pressure s)) (dlit 250 1)"
  using assms by (rule chute_unfired_iteration)

theorem chute_only_below_250m_witness:
  "\<exists>s s'. iteration demo_libc (demo_env 400 0 100000 5000) s = Some s' \<and> pyros (trace s') \<noteq> [] \<and>
     fle (alt demo_libc (held_pressure (demo_env 400 0 100000 5000) s) (ground_pressure s)) (dlit 250 1)"
proof -
  let ?i = "demo_env 400 0 100000 5000" and ?s = "demo_start\<lparr>gr_state := GR_STATE_FREE_FALL\<rparr>"
  have i: "iteration demo_libc ?i ?s \<noteq> None" "pyros (trace (the (iteration demo_libc ?i ?s))) \<noteq> []"
    by code_simp+
  then obtain s' where s': "iteration demo_libc ?i ?s = Some s'" by blast
  have "flight_inv ?s" "pyros (trace ?s) = []" by code_simp+
  from chute_only_below_250m [OF s' this] i(2) s' show ?thesis
    by (intro exI [of _ ?s] exI [of _ s']) simp
qed

lemma time_fires_legs:
  "gr_state s = GR_STATE_AWAITING_CHUTE \<Longrightarrow> in_sec i - chute_open_time s > 30 \<Longrightarrow> time_block i s = Some s1 \<Longrightarrow>
    gr_state s1 = GR_STATE_PRE_LANDING"
  by (auto simp: time_block_def Let_def translate_state_def)

lemma iteration_fires_legs:
  assumes "iteration L i s = Some s'" "4 \<le> rank (gr_state s)" "in_sec i - chute_open_time s > 30"
  shows "5 \<le> rank (gr_state s')"
proof (cases "gr_state s = GR_STATE_AWAITING_CHUTE")
  case True
  from assms(1) obtain t where t: "time_block i s = Some t" "after_clock L i t = Some s'"
    by (auto simp: iteration_split andthen_def bind_eq_Some_conv)
  from time_fires_legs [OF True assms(3) t(1)] rest.advance [OF t(2)] show ?thesis
    by (simp add: advances_def)
next
  case False
  with assms(2) have "5 \<le> rank (gr_state s)" by (cases "gr_state s") auto
  with iter.advance [OF assms(1)] show ?thesis by (simp add: advances_def)
qed

lemma run_block_append:
  "run_block blk (is @ js) s = Option.bind (run_block blk is s) (run_block blk js)"
  by (induction "is" arbitrary: s) (auto simp: bind_assoc split: bind_splits)

text \<open>C4. Fallback timer: once the parachute is out, an iteration whose clock is more than 30 seconds
  past the deployment leaves the legs fired, whatever the barometer has said, in that iteration
  or before.\<close>

theorem legs_fired_after_30s:
  assumes "mission L (is @ [i]) s = Some s'" "flight_inv s" "gr_state s = GR_STATE_AWAITING_CHUTE"
    and "in_sec i > chute_open_time s + 30"
  shows "FIRE_LEGS_DEPLOY \<in> set (pyros (trace s'))"
proof -
  from assms(1) obtain t where t: "mission L is s = Some t" "iteration L i t = Some s'"
    by (auto simp: mission_def run_block_append bind_eq_Some_conv)
  note a = mission_advances [OF t(1)]
  from a assms(3,4) have "4 \<le> rank (gr_state t)" "in_sec i - chute_open_time t > 30"
    by (simp_all add: advances_def)
  from iteration_fires_legs [OF t(2) this] have "5 \<le> rank (gr_state s')" .
  moreover have "flight_inv s'"
    using a iter.advance [OF t(2)] assms(2) by (simp add: advances_def)
  ultimately show ?thesis by (cases "gr_state s'") (auto simp: flight_inv_def)
qed

theorem legs_fired_after_30s_witness:
  "\<exists>s s'. mission demo_libc ([demo_env 410 0 90000 5000] @ [demo_env 440 0 90000 5000]) s = Some s' \<and>
     FIRE_LEGS_DEPLOY \<in> set (pyros (trace s'))"
proof -
  let ?is = "[demo_env 410 0 90000 5000]" and ?i = "demo_env 440 0 90000 5000"
  let ?s = "demo_start\<lparr>gr_state := GR_STATE_AWAITING_CHUTE, chute_open_time := 405,
    trace := [Fire FIRE_CHUTE_DEPLOY]\<rparr>"
  have "mission demo_libc (?is @ [?i]) ?s \<noteq> None" by code_simp
  then obtain s' where s': "mission demo_libc (?is @ [?i]) ?s = Some s'" by blast
  have "flight_inv ?s" by code_simp
  from legs_fired_after_30s [OF s' this] s' show ?thesis
    by (intro exI [of _ ?s] exI [of _ s']) (simp add: demo_env_def)
qed

section \<open>Without a barometer\<close>

lemma keep_pressure:
  "time_block i s = Some s' \<Longrightarrow> baro_pressure s' = baro_pressure s"
  "lux_block i s = Some s' \<Longrightarrow> baro_pressure s' = baro_pressure s"
  "baro_read i s = Some s' \<Longrightarrow> baro_pressure s' = held_pressure i s"
  "height_block L i s = Some s' \<Longrightarrow> baro_pressure s' = baro_pressure s"
  "descent_block L i s = Some s' \<Longrightarrow> baro_pressure s' = baro_pressure s"
  "sonar_read i s = Some s' \<Longrightarrow> baro_pressure s' = baro_pressure s"
  "landing_block L i s = Some s' \<Longrightarrow> baro_pressure s' = baro_pressure s"
  "gps_block L i s = Some s' \<Longrightarrow> baro_pressure s' = baro_pressure s"
  "status_block i s = Some s' \<Longrightarrow> baro_pressure s' = baro_pressure s"
proof -
  show "time_block i s = Some s' \<Longrightarrow> baro_pressure s' = baro_pressure s"
    by (auto simp: time_block_def Let_def)
  show "lux_block i s = Some s' \<Longrightarrow> baro_pressure s' = baro_pressure s"
    by (auto simp: lux_block_def Let_def split: option.splits)
  show "baro_read i s = Some s' \<Longrightarrow> baro_pressure s' = held_pressure i s"
    by (auto simp: baro_read_def held_pressure_def Let_def split: option.splits)
  show "height_block L i s = Some s' \<Longrightarrow> baro_pressure s' = baro_pressure s"
    by (auto simp: height_block_def Let_def)
  show "descent_block L i s = Some s' \<Longrightarrow> baro_pressure s' = baro_pressure s"
    by (auto simp: descent_block_def Let_def split: if_split_asm)
  show "sonar_read i s = Some s' \<Longrightarrow> baro_pressure s' = baro_pressure s"
    by (auto simp: sonar_read_def Let_def split: option.splits)
  show "landing_block L i s = Some s' \<Longrightarrow> baro_pressure s' = baro_pressure s"
    by (auto simp: landing_block_def split: if_splits option.splits)
  show "gps_block L i s = Some s' \<Longrightarrow> baro_pressure s' = baro_pressure s"
    by (auto simp: gps_block_def Let_def split: if_splits option.splits parse.splits prod.splits)
  show "status_block i s = Some s' \<Longrightarrow> baro_pressure s' = baro_pressure s"
    by (auto simp: status_block_def Let_def)
qed

lemma iteration_pressure: "iteration L i s = Some s' \<Longrightarrow> baro_pressure s' = held_pressure i s"
  unfolding iteration_def andthen_def
  by (auto simp: bind_eq_Some_conv held_pressure_def dest!: keep_pressure split: option.split)

lemma alt_no_baro: "lib_log L FNaN = FNaN \<Longrightarrow> alt L (dlit 0 1) (dlit 0 1) = FNaN"
  by (simp add: alt_def lit_def)

text \<open>C5. Without a barometer the parachute never opens: if the sensor delivers no reading, neither
  before the loop nor in it, both pressures are zero, the altitude is NaN (the logarithm of a NaN
  being one), every comparison with it fails, and nothing is ever fired, for however long and
  whatever the other sensors say.\<close>

theorem no_barometer_no_parachute:
  assumes "mission L is (boot junk None t0) = Some s" "lib_log L FNaN = FNaN"
    and "list_all (\<lambda>i. in_baro i = None) is"
  shows "pyros (trace s) = []"
proof -
  have "flight_inv s \<and> pyros (trace s) = []"
    if "mission L is s0 = Some s" "list_all (\<lambda>i. in_baro i = None) is" "flight_inv s0"
      "pyros (trace s0) = []" "baro_pressure s0 = dlit 0 1" "ground_pressure s0 = dlit 0 1" for s0
    using that
  proof (induction "is" arbitrary: s0)
    case (Cons i "is")
    then obtain t where t: "iteration L i s0 = Some t" "mission L is t = Some s"
      by (auto simp: mission_def bind_eq_Some_conv)
    from Cons.prems have h: "held_pressure i s0 = dlit 0 1" by (simp add: held_pressure_def)
    have "pyros (trace t) = []"
    proof (rule ccontr)
      assume "pyros (trace t) \<noteq> []"
      from chute_unfired_iteration [OF t(1) Cons.prems(3,4) this] show False
        using h Cons.prems(6) alt_no_baro [OF assms(2)] by simp
    qed
    with Cons.IH [OF t(2)] Cons.prems iter.advance [OF t(1)] iteration_pressure [OF t(1)] h show ?case
      by (simp add: advances_def)
  qed (simp add: mission_def)
  moreover have "baro_pressure (boot junk None t0) = dlit 0 1" "ground_pressure (boot junk None t0) = dlit 0 1"
    "pyros (trace (boot junk None t0)) = []"
    by (simp_all add: boot_def Let_def translate_state_def)
  ultimately show ?thesis using assms boot_inv(1) by blast
qed

theorem no_barometer_no_parachute_witness:
  "\<exists>s. mission demo_libc (replicate 2 (demo_env 900 5000 0 3\<lparr>in_baro := None\<rparr>)) (boot demo_start None 4) = Some s
    \<and> gr_state s = GR_STATE_FREE_FALL \<and> pyros (trace s) = []"
proof -
  let ?m = "mission demo_libc (replicate 2 (demo_env 900 5000 0 3\<lparr>in_baro := None\<rparr>)) (boot demo_start None 4)"
  have m: "?m \<noteq> None" "gr_state (the ?m) = GR_STATE_FREE_FALL" by code_simp+
  then obtain s where s: "?m = Some s" by blast
  have "lib_log demo_libc FNaN = FNaN" by (simp add: demo_libc_def)
  from no_barometer_no_parachute [OF s this] m(2) s show ?thesis
    by (simp add: numeral_2_eq_2)
qed

section \<open>The landing delay\<close>

lemma dlit_zero: "dlit 0 1 = FFin False 0 0"
  by (simp add: lit_def)

lemma million_nonzero: "\<exists>m e. of_int_d 1000000 = FFin False m e \<and> m \<noteq> 0"
proof -
  have "of_int_d 1000000 = FFin False 8589934592000000 (- 33)" by code_simp
  then show ?thesis by auto
qed

lemma ten_nonzero: "\<exists>m e. dlit 10 1 = FFin False m e \<and> m \<noteq> 0"
proof -
  have "dlit 10 1 = FFin False 5629499534213120 (- 49)" by code_simp
  then show ?thesis by auto
qed

lemma fsub_zero_zero: "dsub (FFin b 0 e) (FFin False 0 0) = FFin b 0 0"
  by (simp add: fsub_def signed_at_def fround_int_def)

text \<open>C30. The landing delay uses static variables that are never assigned, so the speed it divides by
  is the height over the time since boot, not the descent rate. At the reference level the delay
  is infinite and its conversion to \<open>useconds_t\<close> undefined, and below it the delay is undefined
  or zero: it is a proper delay only above the level of the pad.\<close>

theorem landing_delay_needs_height:
  assumes "has_sign True (altitude L s) \<or> altitude L s = FFin b 0 e"
    and "dsub (seconds_of s) (dlit 0 1) = FFin False m' k'" "0 < m'"
  shows "landing_delay L s = None \<or> landing_delay L s = Some 0 \<and> \<not> (\<exists>b e. altitude L s = FFin b 0 e)"
proof -
  let ?v = "ddiv (dsub (altitude L s) (dlit 0 1)) (FFin False m' k')"
  have delay: "landing_delay L s = to_uint32 (dmul (ddiv (dlit 10 1) ?v) (of_int_d 1000000))"
    by (simp add: landing_delay_def Let_def assms(2))
  show ?thesis
  proof (cases "\<exists>b e. altitude L s = FFin b 0 e")
    case True
    then obtain b e where "altitude L s = FFin b 0 e" by blast
    then have "?v = FFin b 0 0"
      using \<open>0 < m'\<close> by (simp add: dlit_zero fsub_zero_zero ratio_of_def fround_def)
    then have "landing_delay L s = None"
      using million_nonzero ten_nonzero by (auto simp: delay to_uint32_def to_int_f_def)
    then show ?thesis ..
  next
    case False
    with assms(1) have "has_sign True (dsub (altitude L s) (dlit 0 1))"
      by (auto simp: dlit_zero has_sign_fsub_zero)
    then have "has_sign True ?v"
      using has_sign_fdiv [of True _ False "FFin False m' k'"] \<open>0 < m'\<close> by simp
    then have "has_sign True (ddiv (dlit 10 1) ?v)"
      using has_sign_fdiv [of False "dlit 10 1" True] by (simp add: has_sign_lit)
    then have "has_sign True (dmul (ddiv (dlit 10 1) ?v) (of_int_d 1000000))"
      using has_sign_fmul [of True _ False "of_int_d 1000000"] by (simp add: has_sign_of_int)
    from to_uint32_negative [OF this] False show ?thesis by (auto simp: delay)
  qed
qed

theorem landing_delay_needs_height_witness:
  "\<exists>s. gr_state s = GR_STATE_PRE_LANDING \<and> sonar_distance s < 1200 \<and> landing_delay demo_libc s = None
     \<and> landing_block demo_libc (demo_env 400 0 100000 900) s = None"
proof -
  let ?s = "demo_start\<lparr>gr_state := GR_STATE_PRE_LANDING, sonar_distance := 900, time_boot_ms := 400000\<rparr>"
  have a: "altitude demo_libc ?s = FFin True 0 0" by code_simp
  have t: "dsub (seconds_of ?s) (dlit 0 1) = FFin False 7036874417766400 (- 44)" by code_simp
  have g: "gr_state ?s = GR_STATE_PRE_LANDING" "sonar_distance ?s < 1200" by simp_all
  have "landing_delay demo_libc ?s = None"
    using landing_delay_needs_height [OF disjI2 [OF a] t] a by auto
  with g show ?thesis by (intro exI [of _ ?s]) (simp add: landing_block_def)
qed

section \<open>The telemetry schedule\<close>

datatype kind = KLuminosity | KPressure | KSonar | KGps | KStatus

fun kind_of :: "gr_msg \<Rightarrow> kind" where
  "kind_of (MsgLuminosity _ _) = KLuminosity"
| "kind_of (MsgPressure _ _ _) = KPressure"
| "kind_of (MsgSonar _ _) = KSonar"
| "kind_of (MsgGps _) = KGps"
| "kind_of (MsgStatus _ _) = KStatus"

text \<open>The kinds of the messages sent, fixes left out: they come when the receiver has one.\<close>

fun regular :: "event list \<Rightarrow> kind list" where
  "regular [] = []"
| "regular (Telem m # es) = (if kind_of m = KGps then regular es else kind_of m # regular es)"
| "regular (_ # es) = regular es"

lemma regular_append [simp]: "regular (es @ fs) = regular es @ regular fs"
  by (induction es rule: regular.induct) auto

lemma regular_translate [simp]: "regular (trace (translate_state s)) = regular (trace s)"
  by (cases "gr_state s") (simp_all add: translate_state_def)

lemma block_regular:
  "time_block i s = Some s' \<Longrightarrow> regular (trace s') = regular (trace s) \<and> st_send_delay s' = st_send_delay s"
  "lux_block i s = Some s' \<Longrightarrow> regular (trace s') = regular (trace s) @ [KLuminosity] \<and> st_send_delay s' = st_send_delay s"
  "baro_read i s = Some s' \<Longrightarrow> regular (trace s') = regular (trace s) @ [KPressure] \<and> st_send_delay s' = st_send_delay s"
  "height_block L i s = Some s' \<Longrightarrow> regular (trace s') = regular (trace s) \<and> st_send_delay s' = st_send_delay s"
  "descent_block L i s = Some s' \<Longrightarrow> regular (trace s') = regular (trace s) \<and> st_send_delay s' = st_send_delay s"
  "sonar_read i s = Some s' \<Longrightarrow> regular (trace s') = regular (trace s) @ [KSonar] \<and> st_send_delay s' = st_send_delay s"
  "landing_block L i s = Some s' \<Longrightarrow> regular (trace s') = regular (trace s) \<and> st_send_delay s' = st_send_delay s"
  "gps_block L i s = Some s' \<Longrightarrow> regular (trace s') = regular (trace s) \<and> st_send_delay s' = st_send_delay s"
proof -
  show "time_block i s = Some s' \<Longrightarrow> regular (trace s') = regular (trace s) \<and> st_send_delay s' = st_send_delay s"
    by (auto simp: time_block_def Let_def)
  show "lux_block i s = Some s' \<Longrightarrow> regular (trace s') = regular (trace s) @ [KLuminosity] \<and> st_send_delay s' = st_send_delay s"
    by (auto simp: lux_block_def Let_def split: option.splits)
  show "baro_read i s = Some s' \<Longrightarrow> regular (trace s') = regular (trace s) @ [KPressure] \<and> st_send_delay s' = st_send_delay s"
    by (auto simp: baro_read_def Let_def split: option.splits)
  show "height_block L i s = Some s' \<Longrightarrow> regular (trace s') = regular (trace s) \<and> st_send_delay s' = st_send_delay s"
    by (auto simp: height_block_def Let_def)
  show "descent_block L i s = Some s' \<Longrightarrow> regular (trace s') = regular (trace s) \<and> st_send_delay s' = st_send_delay s"
    by (auto simp: descent_block_def Let_def split: if_split_asm)
  show "sonar_read i s = Some s' \<Longrightarrow> regular (trace s') = regular (trace s) @ [KSonar] \<and> st_send_delay s' = st_send_delay s"
    by (auto simp: sonar_read_def Let_def split: option.splits)
  show "landing_block L i s = Some s' \<Longrightarrow> regular (trace s') = regular (trace s) \<and> st_send_delay s' = st_send_delay s"
    by (auto simp: landing_block_def split: if_splits option.splits)
  show "gps_block L i s = Some s' \<Longrightarrow> regular (trace s') = regular (trace s) \<and> st_send_delay s' = st_send_delay s"
    by (auto simp: gps_block_def Let_def split: if_splits option.splits parse.splits prod.splits)
qed

lemma status_regular:
  "status_block i s = Some s' \<Longrightarrow> unat (st_send_delay s) = n mod 10 \<Longrightarrow>
    regular (trace s') = regular (trace s) @ (if n mod 10 = 9 then [KStatus] else []) \<and>
    unat (st_send_delay s') = Suc n mod 10"
proof -
  assume b: "status_block i s = Some s'" and n: "unat (st_send_delay s) = n mod 10"
  then have d: "unat (st_send_delay s + 1) = Suc (n mod 10)"
    by (simp add: unat_word_ariths)
  then have "st_send_delay s + 1 = 10 \<longleftrightarrow> n mod 10 = 9"
    by (simp add: word_unat_eq_iff)
  with b d show ?thesis
    by (auto simp: status_block_def Let_def mod_Suc)
qed

definition schedule :: "nat \<Rightarrow> kind list" where
  "schedule n = [KLuminosity, KPressure, KSonar] @ (if n mod 10 = 9 then [KStatus] else [])"

lemma iteration_regular:
  assumes "iteration L i s = Some s'" "unat (st_send_delay s) = n mod 10"
  shows "regular (trace s') = regular (trace s) @ schedule n \<and> unat (st_send_delay s') = Suc n mod 10"
  using assms unfolding iteration_def andthen_def
  by (auto simp: bind_eq_Some_conv schedule_def dest!: block_regular status_regular [where n = n])

text \<open>C31. Telemetry schedule: iteration number \<open>n\<close> of the mission sends exactly one luminosity, one
  pressure and one sonar message, in this order, and the tenth, twentieth and so on a status
  message after them; only fixes of the receiver come in between.\<close>

theorem telemetry_schedule:
  assumes "mission L is (boot junk b t0) = Some s"
  shows "regular (trace s) = concat (map schedule [0..<length is])"
proof -
  have run: "mission L is s0 = Some s \<Longrightarrow> unat (st_send_delay s0) = n mod 10 \<Longrightarrow>
    regular (trace s) = regular (trace s0) @ concat (map schedule [n..<n + length is])" for s0 n
  proof (induction "is" arbitrary: s0 n)
    case (Cons i "is")
    then obtain t where t: "iteration L i s0 = Some t" "mission L is t = Some s"
      by (auto simp: mission_def bind_eq_Some_conv)
    have "[n..<n + length (i # is)] = n # [Suc n..<Suc n + length is]"
      by (subst upt_conv_Cons) simp_all
    with Cons.IH [OF t(2), of "Suc n"] iteration_regular [OF t(1) Cons.prems(2)] show ?case by simp
  qed (simp add: mission_def)
  have "trace (boot junk b t0) = []" "st_send_delay (boot junk b t0) = 0"
    by (auto simp: boot_def Let_def translate_state_def split: option.split)
  with run [OF assms, of 0] show ?thesis by simp
qed

theorem telemetry_schedule_witness:
  "\<exists>s. mission demo_libc [demo_env 5 100 100000 5000, demo_env 310 2000 99000 5000] demo_start = Some s \<and>
    regular (trace s) = schedule 0 @ schedule 1"
proof -
  obtain s where s: "mission demo_libc [demo_env 5 100 100000 5000, demo_env 310 2000 99000 5000] demo_start = Some s"
    using demo_run_ok by blast
  from telemetry_schedule [OF s [unfolded demo_start_def]] s show ?thesis
    by (simp add: upt_rec)
qed

end
