(* ===== verification/Telemetry.thy ===== *)
theory Telemetry
  imports Flight_Properties
begin

text \<open>
  Where the telemetry goes: the start of \<open>granum_main\<close> up to the three descriptors (the radio,
  a fresh telemetry file, the Raspberry Pi), and \<open>send_telem\<close> of \<^verbatim>\<open>common.c\<close>. The operating
  system's \<open>open\<close> and \<open>stat\<close> are functions of the path; the system calls made are a list.
\<close>

section \<open>The telemetry file\<close>

datatype stat_ret = StatOk | StatErr bool   \<comment> \<open>the flag: \<open>errno\<close> is \<open>ENOENT\<close>\<close>

definition telem_prefix :: string where "telem_prefix = ''/mnt/sd0/GR_''"

text \<open>\<open>snprintf(buf, n, ...)\<close> keeps at most \<open>n - 1\<close> characters.\<close>

definition snprintf :: "nat \<Rightarrow> string \<Rightarrow> string" where
  "snprintf n s = take (n - 1) s"

definition telem_name :: "nat \<Rightarrow> string" where
  "telem_name i = snprintf 22 (telem_prefix @ nat_digits i @ ''.bin'')"

datatype select = Selected string int | TooMany

text \<open>\<open>for (int i = 0; i < 10000; i++)\<close>, from \<open>i\<close> with \<open>n\<close> turns left.\<close>

fun select_file :: "(string \<Rightarrow> stat_ret) \<Rightarrow> (string \<Rightarrow> int) \<Rightarrow> nat \<Rightarrow> nat \<Rightarrow> select" where
  "select_file stat open_file i 0 = TooMany"
| "select_file stat open_file i (Suc n) =
     (let filename = telem_name i in
      if stat filename = StatErr True then Selected filename (open_file filename)
      else if i = 9999 then TooMany
      else select_file stat open_file (i + 1) n)"

datatype start = ExitNrf | ExitTooMany | ExitFile string | Running int int int

definition granum_start :: "(string \<Rightarrow> stat_ret) \<Rightarrow> (string \<Rightarrow> int) \<Rightarrow> start" where
  "granum_start stat open_file =
     (let nrf_fd = open_file ''/dev/nrf24l01'' in
      if nrf_fd < 0 then ExitNrf
      else case select_file stat open_file 0 10000 of
          TooMany \<Rightarrow> ExitTooMany
        | Selected filename file_fd \<Rightarrow>
            if file_fd < 0 then ExitFile filename
            else Running nrf_fd file_fd (open_file ''/dev/ttyS1''))"

section \<open>\<open>send_telem\<close>\<close>

text \<open>A \<open>write\<close> takes some of the bytes or none (an error: a device opened with \<^verbatim>\<open>O_NONBLOCK\<close> that is busy,
a full card), an \<open>fsync\<close> succeeds or not; the outcomes are the environment's, and \<open>send_telem\<close> does not
look at them.\<close>

datatype wret = Wrote nat | Refused

datatype syscall = Write int "u8 list" wret | Fsync int bool

record fds =
  fd_nrf :: int
  fd_file :: int
  fd_raspberry :: int

record telem_io =
  io_file :: wret
  io_sync :: bool
  io_nrf :: wret
  io_raspberry :: wret

definition send_telem :: "fds \<Rightarrow> telem_io \<Rightarrow> u8 list \<Rightarrow> syscall list" where
  "send_telem f io ptr =
     [Write (fd_file f) ptr (io_file io), Fsync (fd_file f) (io_sync io), Write (fd_nrf f) ptr (io_nrf io),
      Write (fd_raspberry f) ptr (io_raspberry io)]"

text \<open>The messages of a thread, packed by the MAVLink encoder, one after the other; \<open>io k\<close> is what the
calls for message \<open>k\<close> return.\<close>

fun send_all :: "fds \<Rightarrow> (nat \<Rightarrow> telem_io) \<Rightarrow> u8 list list \<Rightarrow> syscall list" where
  "send_all f io [] = []"
| "send_all f io (m # ms) = send_telem f (io 0) m @ send_all f (\<lambda>k. io (Suc k)) ms"

section \<open>The sinks\<close>

text \<open>What the operating system passes on of a \<open>write\<close>: nothing for a negative descriptor (the one of the
Raspberry Pi is not checked).\<close>

definition taken :: "int \<Rightarrow> wret \<Rightarrow> u8 list \<Rightarrow> u8 list" where
  "taken fd r bs = (if fd < 0 then [] else case r of Wrote n \<Rightarrow> take n bs | Refused \<Rightarrow> [])"

fun written :: "int \<Rightarrow> syscall list \<Rightarrow> u8 list list" where
  "written fd [] = []"
| "written fd (Write g bs r # cs) = (if g = fd then taken fd r bs # written fd cs else written fd cs)"
| "written fd (Fsync g ok # cs) = written fd cs"

datatype sink = Card | Radio | Raspberry

fun fd_of :: "fds \<Rightarrow> sink \<Rightarrow> int" where
  "fd_of f Card = fd_file f"
| "fd_of f Radio = fd_nrf f"
| "fd_of f Raspberry = fd_raspberry f"

fun io_of :: "telem_io \<Rightarrow> sink \<Rightarrow> wret" where
  "io_of io Card = io_file io"
| "io_of io Radio = io_nrf io"
| "io_of io Raspberry = io_raspberry io"

text \<open>What a sink gets of each message by its own outcomes alone.\<close>

fun chunks :: "fds \<Rightarrow> sink \<Rightarrow> (nat \<Rightarrow> telem_io) \<Rightarrow> u8 list list \<Rightarrow> u8 list list" where
  "chunks f k io [] = []"
| "chunks f k io (m # ms) = taken (fd_of f k) (io_of (io 0) k) m # chunks f k (\<lambda>k. io (Suc k)) ms"

text \<open>A sink that is open and takes every message gets them whole.\<close>

lemma chunks_whole:
  "0 \<le> fd_of f k \<Longrightarrow> \<forall>j < length ms. \<exists>n \<ge> length (ms ! j). io_of (io j) k = Wrote n \<Longrightarrow> chunks f k io ms = ms"
proof (induction ms arbitrary: io)
  case (Cons m ms)
  have "chunks f k (\<lambda>k. io (Suc k)) ms = ms" using Cons.prems by (intro Cons.IH) auto
  moreover obtain n where "length m \<le> n" "io_of (io 0) k = Wrote n" using Cons.prems(2) by auto
  ultimately show ?case using Cons.prems(1) by (simp add: taken_def)
qed simp

section \<open>File names\<close>

lemma length_nat_digits: "v < 10 ^ Suc n \<Longrightarrow> length (nat_digits v) \<le> Suc n"
proof (induction n arbitrary: v)
  case 0
  then show ?case by (simp add: nat_digits.simps [of v])
next
  case (Suc n)
  then have "v div 10 < 10 ^ Suc n" by (simp add: div_less_iff_less_mult)
  from Suc.IH [OF this] show ?case by (simp add: nat_digits.simps [of v])
qed

lemma telem_name_full:
  assumes "i < 10000"
  shows "telem_name i = telem_prefix @ nat_digits i @ ''.bin''"
proof -
  have "length (nat_digits i) \<le> 4"
    using length_nat_digits [of i 3] assms by simp
  then show ?thesis by (simp add: telem_name_def snprintf_def telem_prefix_def)
qed

lemma select_file_first:
  "select_file stat op i n = Selected f fd \<Longrightarrow>
    \<exists>k. i \<le> k \<and> k < i + n \<and> f = telem_name k \<and> fd = op f \<and> stat f = StatErr True \<and>
      (\<forall>j\<in>{i..<k}. stat (telem_name j) \<noteq> StatErr True)"
proof (induction n arbitrary: i)
  case (Suc n)
  show ?case
  proof (cases "stat (telem_name i) = StatErr True")
    case False
    with Suc.prems have "select_file stat op (i + 1) n = Selected f fd"
      by (auto simp: Let_def split: if_splits)
    from Suc.IH [OF this] obtain k where "i + 1 \<le> k" "k < i + 1 + n" "f = telem_name k" "fd = op f"
      "stat f = StatErr True" "\<forall>j\<in>{i + 1..<k}. stat (telem_name j) \<noteq> StatErr True" by blast
    with False show ?thesis
      by (intro exI [of _ k]) (auto simp: Suc_le_eq le_eq_less_or_eq)
  qed (use Suc.prems in \<open>auto simp: Let_def intro!: exI [of _ i]\<close>)
qed simp

lemma select_file_TooMany:
  "select_file stat op i n = TooMany \<Longrightarrow> i + n = 10000 \<Longrightarrow> j \<in> {i..<10000} \<Longrightarrow>
    stat (telem_name j) \<noteq> StatErr True"
proof (induction n arbitrary: i)
  case (Suc n)
  then show ?case
    by (cases "j = i") (force simp: Let_def split: if_splits)+
qed simp

text \<open>Telemetry is never appended to or written over an old flight's file: the program runs on
  the first of the 10000 numbered names that does not exist, written out in full, and it gives up
  only when there is no such name (or the radio or the new file does not open).\<close>

theorem telemetry_file_fresh:
  "(granum_start stat op = Running nrf file rasp \<longrightarrow>
     (\<exists>k<10000. stat (telem_prefix @ nat_digits k @ ''.bin'') = StatErr True \<and>
        file = op (telem_prefix @ nat_digits k @ ''.bin'') \<and> 0 \<le> file \<and> 0 \<le> nrf \<and>
        (\<forall>j<k. stat (telem_prefix @ nat_digits j @ ''.bin'') \<noteq> StatErr True))) \<and>
   (granum_start stat op = ExitTooMany \<longrightarrow>
     (\<forall>j<10000. stat (telem_prefix @ nat_digits j @ ''.bin'') \<noteq> StatErr True))"
proof (intro conjI impI)
  assume "granum_start stat op = Running nrf file rasp"
  then obtain f where f: "select_file stat op 0 10000 = Selected f file" "0 \<le> file" "0 \<le> nrf"
    by (auto simp: granum_start_def Let_def split: if_splits select.splits)
  from select_file_first [OF f(1)] obtain k where k: "k < 10000" "f = telem_name k" "file = op f"
    "stat f = StatErr True" "\<forall>j\<in>{0..<k}. stat (telem_name j) \<noteq> StatErr True" by auto
  have "telem_name j = telem_prefix @ nat_digits j @ ''.bin''" if "j \<le> k" for j
    using that k(1) by (intro telem_name_full) simp
  with k f show "\<exists>k<10000. stat (telem_prefix @ nat_digits k @ ''.bin'') = StatErr True \<and>
        file = op (telem_prefix @ nat_digits k @ ''.bin'') \<and> 0 \<le> file \<and> 0 \<le> nrf \<and>
        (\<forall>j<k. stat (telem_prefix @ nat_digits j @ ''.bin'') \<noteq> StatErr True)"
    by (intro exI [of _ k]) (auto simp: telem_name_full)
next
  assume "granum_start stat op = ExitTooMany"
  then have "select_file stat op 0 10000 = TooMany"
    by (auto simp: granum_start_def Let_def split: if_splits select.splits)
  from select_file_TooMany [OF this] show
    "\<forall>j<10000. stat (telem_prefix @ nat_digits j @ ''.bin'') \<noteq> StatErr True"
    by (auto simp: telem_name_full)
qed

theorem telemetry_file_fresh_witness:
  "\<exists>k<10000. (\<lambda>p. if p = ''/mnt/sd0/GR_0.bin'' then StatOk else StatErr True)
     (telem_prefix @ nat_digits k @ ''.bin'') = StatErr True"
proof -
  let ?stat = "\<lambda>p. if p = ''/mnt/sd0/GR_0.bin'' then StatOk else StatErr True"
  have "granum_start ?stat (\<lambda>p. 3) = Running 3 3 3"
    by code_simp
  with telemetry_file_fresh [of ?stat "\<lambda>p. 3" 3 3 3] show ?thesis by blast
qed

lemma written_append [simp]: "written fd (cs @ ds) = written fd cs @ written fd ds"
  by (induction fd cs rule: written.induct) auto

text \<open>With three different descriptors every message is offered to each sink once, in order, and what a
sink gets does not depend on the outcomes at the others.\<close>

lemma written_send_all:
  assumes "distinct [fd_nrf f, fd_file f, fd_raspberry f]"
  shows "written (fd_of f k) (send_all f io ms) = chunks f k io ms"
  using assms by (induction f io ms rule: send_all.induct) (cases k; simp add: send_telem_def)+

end
