(* ===== verification/Bmp280_Regs.thy ===== *)
theory Bmp280_Regs
  imports Cansat_Prelude "HOL-Library.Monad_Syntax"
begin

text \<open>
  The register fields of the BMP280 barometer (\<^verbatim>\<open>drivers/bmp280.h\<close>): the two bit-slice macros and
  the six fields of the control and configuration registers. The locale \<open>bit_field\<close> is the
  contract of a field: its mask is a run of ones at its position. It gives what every setter
  relies on: a field reads back what was written, cut to its width, and no other bit changes.
\<close>

section \<open>The macros\<close>

record bitname =
  bn_reg :: u8
  bn_pos :: nat
  bn_msk :: u8

definition GET_BITSLICE :: "u8 \<Rightarrow> bitname \<Rightarrow> u8" where
  "GET_BITSLICE regvar b = drop_bit (bn_pos b) (regvar AND bn_msk b)"

definition SET_BITSLICE :: "u8 \<Rightarrow> bitname \<Rightarrow> u8 \<Rightarrow> u8" where
  "SET_BITSLICE regvar b val =
     (regvar AND NOT (bn_msk b)) OR (push_bit (bn_pos b) val AND bn_msk b)"

definition BMP280_CTRL_MEAS_REG :: u8 where "BMP280_CTRL_MEAS_REG = 0xF4"
definition BMP280_CONFIG_REG :: u8 where "BMP280_CONFIG_REG = 0xF5"

definition OVERSAMP_TEMPERATURE :: bitname where
  "OVERSAMP_TEMPERATURE = \<lparr>bn_reg = BMP280_CTRL_MEAS_REG, bn_pos = 5, bn_msk = 0xE0\<rparr>"

definition OVERSAMP_PRESSURE :: bitname where
  "OVERSAMP_PRESSURE = \<lparr>bn_reg = BMP280_CTRL_MEAS_REG, bn_pos = 2, bn_msk = 0x1C\<rparr>"

definition POWER_MODE :: bitname where
  "POWER_MODE = \<lparr>bn_reg = BMP280_CTRL_MEAS_REG, bn_pos = 0, bn_msk = 0x03\<rparr>"

definition STANDBY_DURN :: bitname where
  "STANDBY_DURN = \<lparr>bn_reg = BMP280_CONFIG_REG, bn_pos = 5, bn_msk = 0xE0\<rparr>"

definition FILTER :: bitname where
  "FILTER = \<lparr>bn_reg = BMP280_CONFIG_REG, bn_pos = 2, bn_msk = 0x1C\<rparr>"

definition SPI3_ENABLE :: bitname where
  "SPI3_ENABLE = \<lparr>bn_reg = BMP280_CONFIG_REG, bn_pos = 0, bn_msk = 0x01\<rparr>"

lemmas field_defs =
  OVERSAMP_TEMPERATURE_def OVERSAMP_PRESSURE_def POWER_MODE_def STANDBY_DURN_def FILTER_def SPI3_ENABLE_def

section \<open>The contract of a field\<close>

locale bit_field =
  fixes b :: bitname and len :: nat
  assumes msk: "bn_msk b = push_bit (bn_pos b) (mask len)"
    and width: "bn_pos b + len \<le> 8"
begin

lemma bit_msk: "bit (bn_msk b) n \<longleftrightarrow> bn_pos b \<le> n \<and> n < bn_pos b + len"
  using width by (auto simp: msk bit_simps)

lemma get_set: "GET_BITSLICE (SET_BITSLICE r b v) b = v AND mask len"
proof (rule bit_word_eqI)
  fix n assume "n < LENGTH(8)"
  then show "bit (GET_BITSLICE (SET_BITSLICE r b v) b) n = bit (v AND mask len) n"
    using width by (auto simp: GET_BITSLICE_def SET_BITSLICE_def bit_simps bit_msk)
qed

lemma set_keeps: "SET_BITSLICE r b v AND NOT (bn_msk b) = r AND NOT (bn_msk b)"
  by (rule bit_word_eqI) (auto simp: SET_BITSLICE_def bit_simps)

lemma set_other:
  assumes "bn_msk c AND bn_msk b = 0"
  shows "GET_BITSLICE (SET_BITSLICE r b v) c = GET_BITSLICE r c"
proof -
  have "\<not> (bit (bn_msk c) n \<and> bit (bn_msk b) n)" for n
    using assms by (metis bit_0_eq bit_and_iff bot_apply bot_bool_def)
  then have "SET_BITSLICE r b v AND bn_msk c = r AND bn_msk c"
    by (intro bit_word_eqI) (auto simp: SET_BITSLICE_def bit_simps)
  then show ?thesis by (simp add: GET_BITSLICE_def)
qed

lemma get_bound: "GET_BITSLICE r b AND mask len = GET_BITSLICE r b"
  by (rule bit_word_eqI) (auto simp: GET_BITSLICE_def bit_simps bit_msk)

lemma get_less: "GET_BITSLICE r b < 2 ^ len" if "len < 8"
  using that and_mask_less_size [of len "GET_BITSLICE r b"] by (simp add: get_bound word_size)

end

interpretation osrs_t: bit_field OVERSAMP_TEMPERATURE 3
  by unfold_locales (simp_all add: field_defs mask_eq_exp_minus_1 push_bit_eq_mult)
interpretation osrs_p: bit_field OVERSAMP_PRESSURE 3
  by unfold_locales (simp_all add: field_defs mask_eq_exp_minus_1 push_bit_eq_mult)
interpretation power_mode: bit_field POWER_MODE 2
  by unfold_locales (simp_all add: field_defs mask_eq_exp_minus_1 push_bit_eq_mult)
interpretation standby: bit_field STANDBY_DURN 3
  by unfold_locales (simp_all add: field_defs mask_eq_exp_minus_1 push_bit_eq_mult)
interpretation filt: bit_field FILTER 3
  by unfold_locales (simp_all add: field_defs mask_eq_exp_minus_1 push_bit_eq_mult)
interpretation spi3: bit_field SPI3_ENABLE 1
  by unfold_locales (simp_all add: field_defs mask_eq_exp_minus_1 push_bit_eq_mult)

end
