(* ===== verification/Bmp280.thy ===== *)
theory Bmp280
  imports Bmp280_Regs
begin

text \<open>
  The driver \<^verbatim>\<open>drivers/src/bmp280.c\<close>, except the compensation formulas. The global pointer
  \<^verbatim>\<open>p_bmp280\<close> is an option, \<open>None\<close> for NULL; the three function pointers of the device structure
  are a record \<open>bus\<close> over the world \<open>'w\<close> behind the bus. A read returns its result code and the
  bytes it has stored, which replace the beginning of the caller's zeroed buffer.
  Result codes are \<^verbatim>\<open>s8\<close>; the sum of two of them is cut to eight bits as in C.
\<close>

section \<open>Data\<close>

record calib_param =
  dig_T1 :: int
  dig_T2 :: int
  dig_T3 :: int
  dig_P1 :: int
  dig_P2 :: int
  dig_P3 :: int
  dig_P4 :: int
  dig_P5 :: int
  dig_P6 :: int
  dig_P7 :: int
  dig_P8 :: int
  dig_P9 :: int
  t_fine :: int

record bmp280_t =
  calib :: calib_param
  chip_id :: u8
  dev_addr :: u8
  oversamp_temperature :: u8
  oversamp_pressure :: u8

record 'w bus =
  bus_read :: "u8 \<Rightarrow> u8 \<Rightarrow> nat \<Rightarrow> 'w \<Rightarrow> int \<times> u8 list \<times> 'w"
  bus_write :: "u8 \<Rightarrow> u8 \<Rightarrow> u8 list \<Rightarrow> 'w \<Rightarrow> int \<times> 'w"
  delay_msec :: "int \<Rightarrow> 'w \<Rightarrow> 'w"

definition E_BMP280_SUCCESS :: int where "E_BMP280_SUCCESS = 0"
definition E_BMP280_NULL_PTR :: int where "E_BMP280_NULL_PTR = -127"
definition E_BMP280_OUT_OF_RANGE :: int where "E_BMP280_OUT_OF_RANGE = -2"
definition BMP280_CHIP_ID_READ_FAIL :: int where "BMP280_CHIP_ID_READ_FAIL = -1"
definition BMP280_CHIP_ID_READ_SUCCESS :: int where "BMP280_CHIP_ID_READ_SUCCESS = 0"

lemmas rslt_defs = E_BMP280_SUCCESS_def E_BMP280_NULL_PTR_def E_BMP280_OUT_OF_RANGE_def
  BMP280_CHIP_ID_READ_FAIL_def BMP280_CHIP_ID_READ_SUCCESS_def

definition to_s8 :: "int \<Rightarrow> int" where "to_s8 x = signed_take_bit 7 x"

text \<open>The caller's buffer of \<open>n\<close> zeros after the bus has stored \<open>bs\<close>.\<close>

definition overlay :: "nat \<Rightarrow> u8 list \<Rightarrow> u8 list" where
  "overlay n bs = take n (bs @ replicate n 0)"

lemma length_overlay [simp]: "length (overlay n bs) = n"
  by (simp add: overlay_def)

text \<open>\<open>if (p_bmp280 == BMP280_NULL) com_rslt = E_BMP280_NULL_PTR; else ...\<close>: the result code, the
  output parameter (\<open>None\<close> when it was not written), the device and the world.\<close>

definition if_device ::
  "(bmp280_t \<Rightarrow> 'w \<Rightarrow> int \<times> 'a option \<times> bmp280_t \<times> 'w) \<Rightarrow>
    bmp280_t option \<Rightarrow> 'w \<Rightarrow> int \<times> 'a option \<times> bmp280_t option \<times> 'w" where
  "if_device body p w =
     (case p of None \<Rightarrow> (E_BMP280_NULL_PTR, None, None, w)
      | Some d \<Rightarrow> (case body d w of (r, a, d', w') \<Rightarrow> (r, a, Some d', w')))"

text \<open>A one-byte read into a variable that holds \<open>v\<close>.\<close>

definition store1 :: "u8 \<Rightarrow> u8 list \<Rightarrow> u8" where
  "store1 v bs = (case bs of [] \<Rightarrow> v | b # _ \<Rightarrow> b)"

definition read_byte_reg :: "'w bus \<Rightarrow> bmp280_t \<Rightarrow> u8 \<Rightarrow> 'w \<Rightarrow> int \<times> u8 \<times> 'w" where
  "read_byte_reg B d reg w =
     (case bus_read B (dev_addr d) reg 1 w of (r, bs, w') \<Rightarrow> (r, store1 0 bs, w'))"

section \<open>Measurement registers\<close>

text \<open>\<open>msb << 12 | lsb << 4 | xlsb >> 4\<close>\<close>

definition adc_value :: "u8 \<Rightarrow> u8 \<Rightarrow> u8 \<Rightarrow> int" where
  "adc_value msb lsb xlsb =
     uint ((push_bit 12 (ucast msb) OR push_bit 4 (ucast lsb) OR drop_bit 4 (ucast xlsb)) :: u32)"

definition bmp280_read_uncomp_temperature where
  "bmp280_read_uncomp_temperature B = if_device (\<lambda>d w.
     case bus_read B (dev_addr d) 0xFA 3 w of (r, bs, w') \<Rightarrow>
       let a = overlay 3 bs in (r, Some (adc_value (a ! 0) (a ! 1) (a ! 2)), d, w'))"

definition bmp280_read_uncomp_pressure where
  "bmp280_read_uncomp_pressure B = if_device (\<lambda>d w.
     case bus_read B (dev_addr d) 0xF7 3 w of (r, bs, w') \<Rightarrow>
       let a = overlay 3 bs in (r, Some (adc_value (a ! 0) (a ! 1) (a ! 2)), d, w'))"

definition read_uncomp :: "'w bus \<Rightarrow> bmp280_t \<Rightarrow> 'w \<Rightarrow> int \<times> (int \<times> int) \<times> 'w" where
  "read_uncomp B d w =
     (case bus_read B (dev_addr d) 0xF7 6 w of (r, bs, w') \<Rightarrow>
       let a = overlay 6 bs in
       (r, (adc_value (a ! 0) (a ! 1) (a ! 2), adc_value (a ! 3) (a ! 4) (a ! 5)), w'))"

definition bmp280_read_uncomp_pressure_temperature where
  "bmp280_read_uncomp_pressure_temperature B = if_device (\<lambda>d w.
     case read_uncomp B d w of (r, pt, w') \<Rightarrow> (r, Some pt, d, w'))"

section \<open>Calibration and initialisation\<close>

definition calib_u16 :: "u8 list \<Rightarrow> nat \<Rightarrow> int" where
  "calib_u16 a k = uint ((push_bit 8 (ucast (a ! (k + 1))) OR ucast (a ! k)) :: u16)"

text \<open>\<open>(s16)((((s16)((s8)msb)) << 8) | lsb)\<close>\<close>

definition calib_s16 :: "u8 list \<Rightarrow> nat \<Rightarrow> int" where
  "calib_s16 a k = signed_take_bit 15 (push_bit 8 (sint (a ! (k + 1))) OR uint (a ! k))"

definition parse_calib :: "u8 list \<Rightarrow> calib_param \<Rightarrow> calib_param" where
  "parse_calib a c = c\<lparr>
     dig_T1 := calib_u16 a 0, dig_T2 := calib_s16 a 2, dig_T3 := calib_s16 a 4,
     dig_P1 := calib_u16 a 6, dig_P2 := calib_s16 a 8, dig_P3 := calib_s16 a 10,
     dig_P4 := calib_s16 a 12, dig_P5 := calib_s16 a 14, dig_P6 := calib_s16 a 16,
     dig_P7 := calib_s16 a 18, dig_P8 := calib_s16 a 20, dig_P9 := calib_s16 a 22\<rparr>"

definition read_calib :: "'w bus \<Rightarrow> bmp280_t \<Rightarrow> 'w \<Rightarrow> int \<times> bmp280_t \<times> 'w" where
  "read_calib B d w =
     (case bus_read B (dev_addr d) 0x88 24 w of (r, bs, w') \<Rightarrow>
       (r, d\<lparr>calib := parse_calib (overlay 24 bs) (calib d)\<rparr>, w'))"

definition bmp280_get_calib_param where
  "bmp280_get_calib_param B = if_device (\<lambda>d w.
     case read_calib B d w of (r, d', w') \<Rightarrow> (r, None :: unit option, d', w'))"

text \<open>The loop over the chip id: \<open>n\<close> is \<^verbatim>\<open>v_chip_id_read_count\<close>; the result is the count at the
  exit and the last byte read.\<close>

definition valid_chip_id :: "u8 \<Rightarrow> bool" where
  "valid_chip_id v \<longleftrightarrow> v = 0x56 \<or> v = 0x57 \<or> v = 0x58"

fun chip_id_loop :: "'w bus \<Rightarrow> bmp280_t \<Rightarrow> nat \<Rightarrow> u8 \<Rightarrow> 'w \<Rightarrow> nat \<times> u8 \<times> 'w" where
  "chip_id_loop B d 0 v w = (0, v, w)"
| "chip_id_loop B d (Suc n) v w =
     (case bus_read B (dev_addr d) 0xD0 1 w of (r, bs, w') \<Rightarrow>
       let v' = store1 v bs in
       if valid_chip_id v' then (Suc n, v', w')
       else chip_id_loop B d n v' (delay_msec B 1 w'))"

definition bmp280_init :: "'w bus \<Rightarrow> bmp280_t \<Rightarrow> 'w \<Rightarrow> int \<times> bmp280_t \<times> 'w" where
  "bmp280_init B d w =
     (case chip_id_loop B d 5 0 w of (count, v, w') \<Rightarrow>
       let d' = d\<lparr>chip_id := v\<rparr>;
           com_rslt = (if count = 0 then BMP280_CHIP_ID_READ_FAIL else BMP280_CHIP_ID_READ_SUCCESS)
       in if com_rslt = BMP280_CHIP_ID_READ_SUCCESS
          then (case read_calib B d' w' of (r, d'', w'') \<Rightarrow> (to_s8 (com_rslt + r), d'', w''))
          else (com_rslt, d', w'))"

section \<open>Getters\<close>

definition get_field :: "bitname \<Rightarrow> 'w bus \<Rightarrow> bmp280_t \<Rightarrow> 'w \<Rightarrow> int \<times> u8 \<times> 'w" where
  "get_field f B d w =
     (case read_byte_reg B d (bn_reg f) w of (r, v, w') \<Rightarrow> (r, GET_BITSLICE v f, w'))"

definition bmp280_get_oversamp_temperature where
  "bmp280_get_oversamp_temperature B = if_device (\<lambda>d w.
     case get_field OVERSAMP_TEMPERATURE B d w of (r, v, w') \<Rightarrow>
       (r, Some v, d\<lparr>oversamp_temperature := v\<rparr>, w'))"

definition bmp280_get_oversamp_pressure where
  "bmp280_get_oversamp_pressure B = if_device (\<lambda>d w.
     case get_field OVERSAMP_PRESSURE B d w of (r, v, w') \<Rightarrow>
       (r, Some v, d\<lparr>oversamp_pressure := v\<rparr>, w'))"

definition bmp280_get_power_mode where
  "bmp280_get_power_mode B = if_device (\<lambda>d w.
     case get_field POWER_MODE B d w of (r, v, w') \<Rightarrow> (r, Some v, d, w'))"

definition bmp280_get_spi3 where
  "bmp280_get_spi3 B = if_device (\<lambda>d w.
     case get_field SPI3_ENABLE B d w of (r, v, w') \<Rightarrow> (r, Some v, d, w'))"

definition bmp280_get_filter where
  "bmp280_get_filter B = if_device (\<lambda>d w.
     case get_field FILTER B d w of (r, v, w') \<Rightarrow> (r, Some v, d, w'))"

definition bmp280_get_standby_durn where
  "bmp280_get_standby_durn B = if_device (\<lambda>d w.
     case get_field STANDBY_DURN B d w of (r, v, w') \<Rightarrow> (r, Some v, d, w'))"

section \<open>Setters\<close>

text \<open>Read, replace the field, write back; the flag says whether the write was made.\<close>

definition set_field :: "bitname \<Rightarrow> 'w bus \<Rightarrow> bmp280_t \<Rightarrow> u8 \<Rightarrow> 'w \<Rightarrow> int \<times> bool \<times> 'w" where
  "set_field f B d val w =
     (case read_byte_reg B d (bn_reg f) w of (r, v, w') \<Rightarrow>
       if r = E_BMP280_SUCCESS then
         (case bus_write B (dev_addr d) (bn_reg f) [SET_BITSLICE v f val] w' of (r', w'') \<Rightarrow>
           (to_s8 (r + r'), True, w''))
       else (r, False, w'))"

definition bmp280_set_oversamp_temperature where
  "bmp280_set_oversamp_temperature B v = if_device (\<lambda>d w.
     case set_field OVERSAMP_TEMPERATURE B d v w of (r, done, w') \<Rightarrow>
       (r, None :: unit option, (if done then d\<lparr>oversamp_temperature := v\<rparr> else d), w'))"

definition bmp280_set_oversamp_pressure where
  "bmp280_set_oversamp_pressure B v = if_device (\<lambda>d w.
     case set_field OVERSAMP_PRESSURE B d v w of (r, done, w') \<Rightarrow>
       (r, None :: unit option, (if done then d\<lparr>oversamp_pressure := v\<rparr> else d), w'))"

definition bmp280_set_spi3 where
  "bmp280_set_spi3 B v = if_device (\<lambda>d w.
     case set_field SPI3_ENABLE B d v w of (r, _, w') \<Rightarrow> (r, None :: unit option, d, w'))"

definition bmp280_set_filter where
  "bmp280_set_filter B v = if_device (\<lambda>d w.
     case set_field FILTER B d v w of (r, _, w') \<Rightarrow> (r, None :: unit option, d, w'))"

definition bmp280_set_standby_durn where
  "bmp280_set_standby_durn B v = if_device (\<lambda>d w.
     case set_field STANDBY_DURN B d v w of (r, _, w') \<Rightarrow> (r, None :: unit option, d, w'))"

text \<open>\<open>(oversamp_temperature << 5) + (oversamp_pressure << 2) + mode\<close>, an \<open>int\<close> cut to a byte.\<close>

definition mode_byte :: "bmp280_t \<Rightarrow> u8 \<Rightarrow> u8" where
  "mode_byte d mode =
     word_of_int (uint (oversamp_temperature d) * 2 ^ 5 + uint (oversamp_pressure d) * 2 ^ 2 + uint mode)"

definition bmp280_set_power_mode where
  "bmp280_set_power_mode B mode = if_device (\<lambda>d w.
     if mode \<le> 0x03 then
       (case bus_write B (dev_addr d) (bn_reg POWER_MODE) [mode_byte d mode] w of (r, w') \<Rightarrow>
         (r, None :: unit option, d, w'))
     else (E_BMP280_OUT_OF_RANGE, None, d, w))"

definition bmp280_set_soft_rst where
  "bmp280_set_soft_rst B = if_device (\<lambda>d w.
     case bus_write B (dev_addr d) 0xE0 [0xB6] w of (r, w') \<Rightarrow> (r, None :: unit option, d, w'))"

text \<open>The oversamplings (temperature, pressure) of the five work modes.\<close>

definition work_mode :: "u8 \<Rightarrow> u8 \<times> u8" where
  "work_mode m =
     (if m = 0 then (1, 1) else if m = 1 then (1, 2) else if m = 2 then (1, 3)
      else if m = 3 then (1, 4) else (2, 5))"

definition bmp280_set_work_mode where
  "bmp280_set_work_mode B m = if_device (\<lambda>d w.
     if m \<le> 4 then
       (case read_byte_reg B d BMP280_CTRL_MEAS_REG w of (r, v, w') \<Rightarrow>
         if r = E_BMP280_SUCCESS then
           let (t, p) = work_mode m;
               d' = d\<lparr>oversamp_temperature := t, oversamp_pressure := p\<rparr>;
               v1 = SET_BITSLICE v OVERSAMP_TEMPERATURE (oversamp_temperature d');
               v2 = SET_BITSLICE v1 OVERSAMP_PRESSURE (oversamp_pressure d')
           in (case bus_write B (dev_addr d) BMP280_CTRL_MEAS_REG [v2] w' of (r', w'') \<Rightarrow>
                (to_s8 (r + r'), None :: unit option, d', w''))
         else (r, None, d, w'))
     else (E_BMP280_OUT_OF_RANGE, None, d, w))"

section \<open>Forced measurements\<close>

text \<open>\<open>1 << oversamp\<close> is defined below 32. The result is cut to a byte.\<close>

definition wait_units :: "bmp280_t \<Rightarrow> int" where
  "wait_units d =
     20 + 37 * (2 ^ unat (oversamp_temperature d) div 2 + 2 ^ unat (oversamp_pressure d) div 2)
       + (if oversamp_pressure d > 0 then 10 else 0)"

definition bmp280_compute_wait_time :: "bmp280_t \<Rightarrow> u8 option" where
  "bmp280_compute_wait_time d =
     (if oversamp_temperature d < 31 \<and> oversamp_pressure d < 31 \<and> int32_ok (wait_units d + 15)
      then Some (word_of_int ((wait_units d + 15) div 16)) else None)"

definition forced_read :: "'w bus \<Rightarrow> bmp280_t \<Rightarrow> 'w \<Rightarrow> (int \<times> (int \<times> int) \<times> 'w) option" where
  "forced_read B d w =
     (case bus_write B (dev_addr d) BMP280_CTRL_MEAS_REG [mode_byte d 0x01] w of (r, w') \<Rightarrow>
       case bmp280_compute_wait_time d of
         None \<Rightarrow> None
       | Some t \<Rightarrow>
           (case read_uncomp B d (delay_msec B (uint t) w') of (r', pt, w'') \<Rightarrow>
             Some (to_s8 (r + r'), pt, w'')))"

definition bmp280_get_forced_uncomp_pressure_temperature ::
  "'w bus \<Rightarrow> bmp280_t option \<Rightarrow> 'w \<Rightarrow> (int \<times> (int \<times> int) option \<times> bmp280_t option \<times> 'w) option" where
  "bmp280_get_forced_uncomp_pressure_temperature B p w =
     (case p of None \<Rightarrow> Some (E_BMP280_NULL_PTR, None, None, w)
      | Some d \<Rightarrow> map_option (\<lambda>(r, pt, w'). (r, Some pt, Some d, w')) (forced_read B d w))"

section \<open>Raw register access\<close>

definition bmp280_write_register where
  "bmp280_write_register B reg data = if_device (\<lambda>d w.
     case bus_write B (dev_addr d) reg data w of (r, w') \<Rightarrow> (r, None :: unit option, d, w'))"

definition bmp280_read_register where
  "bmp280_read_register B reg n = if_device (\<lambda>d w.
     case bus_read B (dev_addr d) reg n w of (r, bs, w') \<Rightarrow> (r, Some bs, d, w'))"

end
