(* ===== verification/Bmp280_Properties.thy ===== *)
theory Bmp280_Properties
  imports Bmp280
begin

text \<open>
  Properties of the BMP280 driver: initialisation, decoding of the calibration block and of the
  measurement registers, the setters and getters over a bus that behaves as the data sheet says
  (\<open>register_bus\<close>), the mode byte, the waiting time and the NULL-pointer checks.
\<close>

section \<open>Initialisation\<close>

lemma chip_id_loop_props:
  "chip_id_loop B d n v w = (c, v', w') \<Longrightarrow>
    (0 < c \<longrightarrow> valid_chip_id v') \<and> (c = 0 \<longrightarrow> \<not> valid_chip_id v \<longrightarrow> \<not> valid_chip_id v')"
proof (induction n arbitrary: v w)
  case (Suc n)
  obtain r bs w1 where "bus_read B (dev_addr d) 0xD0 1 w = (r, bs, w1)"
    by (cases "bus_read B (dev_addr d) 0xD0 1 w") auto
  with Suc.prems Suc.IH [of "store1 v bs" "delay_msec B 1 w1"] show ?case
    by (auto simp: Let_def split: if_splits)
qed simp

lemma not_valid_0 [simp]: "\<not> valid_chip_id 0"
  by (simp add: valid_chip_id_def)

text \<open>The loop makes at most its count of reads, each but a successful last one followed by a delay
  of one millisecond.\<close>

definition counting :: "u8 list \<Rightarrow> (nat \<times> nat) bus" where
  "counting ids = \<lparr>bus_read = (\<lambda>a reg n (reads, delays). (0, [if reads < length ids then ids ! reads else 0], (reads + 1, delays))),
     bus_write = (\<lambda>a reg bs w. (0, w)), delay_msec = (\<lambda>t (reads, delays). (reads, delays + nat t))\<rparr>"

text \<open>C33. Initialisation: \<open>bmp280_init\<close> succeeds only with a chip that identified itself: when the id
  it ends with is not one of the three, it returns the failure code and leaves the calibration
  alone; otherwise it has loaded the calibration block and returns the code of that read.\<close>

theorem bmp280_init_checks_id:
  assumes "bmp280_init B d w = (r, d', w')"
  shows "(\<not> valid_chip_id (chip_id d') \<longrightarrow> r = -1 \<and> calib d' = calib d) \<and>
    (valid_chip_id (chip_id d') \<longrightarrow> (\<exists>w1 bs c. bus_read B (dev_addr d) 0x88 24 w1 = (c, bs, w')
       \<and> r = to_s8 c \<and> calib d' = parse_calib (overlay 24 bs) (calib d)))"
proof -
  obtain c v w1 where l: "chip_id_loop B d 5 0 w = (c, v, w1)"
    by (cases "chip_id_loop B d 5 0 w") auto
  obtain k bs w2 where k: "bus_read B (dev_addr d) 0x88 24 w1 = (k, bs, w2)"
    by (cases "bus_read B (dev_addr d) 0x88 24 w1") auto
  from chip_id_loop_props [OF l] assms l k show ?thesis
    by (cases "c = 0") (auto simp: bmp280_init_def Let_def rslt_defs read_calib_def intro!: exI [of _ w1] exI [of _ bs] exI [of _ k])
qed

lemma demo_device_init:
  "bmp280_init (counting [0, 1, 0x58]) \<lparr>calib = \<lparr>dig_T1 = 0, dig_T2 = 0, dig_T3 = 0, dig_P1 = 0, dig_P2 = 0,
     dig_P3 = 0, dig_P4 = 0, dig_P5 = 0, dig_P6 = 0, dig_P7 = 0, dig_P8 = 0, dig_P9 = 0, t_fine = 0\<rparr>,
     chip_id = 0, dev_addr = 0x76, oversamp_temperature = 0, oversamp_pressure = 0\<rparr> (0, 0)
   = (0, \<lparr>calib = \<lparr>dig_T1 = 0, dig_T2 = 0, dig_T3 = 0, dig_P1 = 0, dig_P2 = 0,
     dig_P3 = 0, dig_P4 = 0, dig_P5 = 0, dig_P6 = 0, dig_P7 = 0, dig_P8 = 0, dig_P9 = 0, t_fine = 0\<rparr>,
     chip_id = 0x58, dev_addr = 0x76, oversamp_temperature = 0, oversamp_pressure = 0\<rparr>, (4, 2))"
  by code_simp

theorem bmp280_init_checks_id_witness:
  "\<exists>w1 bs c. bus_read (counting [0, 1, 0x58]) 0x76 0x88 24 w1 = (c, bs, (4, 2)) \<and> 0 = to_s8 c"
  using bmp280_init_checks_id [OF demo_device_init] by (simp add: valid_chip_id_def) blast

section \<open>The measurement registers\<close>

lemma or_disjoint_add: "(a :: u32) AND b = 0 \<Longrightarrow> a OR b = a + b"
  by (simp add: disjunctive_add_eq_or)

text \<open>A raw measurement is a 20-bit number, the bytes in big-endian order and the low four bits
  of the last one dropped.\<close>

theorem adc_value_range:
  "adc_value m l x = uint m * 4096 + uint l * 16 + uint x div 16 \<and> 0 \<le> adc_value m l x \<and> adc_value m l x < 2 ^ 20"
proof -
  have b: "uint m < 256" "uint l < 256" "uint x < 256" "0 \<le> uint m" "0 \<le> uint l" "0 \<le> uint x"
    using uint_bounded [of m] uint_bounded [of l] uint_bounded [of x] by simp_all
  have q: "0 \<le> uint x div 16" "uint x div 16 < 16" using b by (auto simp: pos_imp_zdiv_nonneg_iff)
  have d: "push_bit 4 (ucast l :: u32) AND drop_bit 4 (ucast x) = 0"
    by (rule bit_word_eqI) (auto simp: bit_simps dest: bit_imp_le_length)
  have e: "push_bit 12 (ucast m :: u32) AND (push_bit 4 (ucast l) OR drop_bit 4 (ucast x)) = 0"
    by (rule bit_word_eqI) (auto simp: bit_simps dest: bit_imp_le_length)
  have "push_bit 12 (ucast m) OR push_bit 4 (ucast l) OR drop_bit 4 (ucast x) =
      (push_bit 12 (ucast m) + (push_bit 4 (ucast l) + drop_bit 4 (ucast x)) :: u32)"
    using or_disjoint_add [OF d] or_disjoint_add [OF e] by (simp add: or.assoc)
  moreover have "uint (push_bit 12 (ucast m) :: u32) = uint m * 4096" "uint (push_bit 4 (ucast l) :: u32) = uint l * 16"
    "uint (drop_bit 4 (ucast x) :: u32) = uint x div 16"
    using b by (simp_all add: uint_word_ariths push_bit_eq_mult uint_up_ucast is_up drop_bit_eq_div uint_div)
  ultimately have "adc_value m l x = (uint m * 4096 + (uint l * 16 + uint x div 16)) mod 2 ^ 32"
    by (simp add: adc_value_def uint_word_ariths mod_simps)
  also have "\<dots> = uint m * 4096 + uint l * 16 + uint x div 16"
    using b q by (subst mod_pos_pos_trivial) auto
  finally show ?thesis using b q by auto
qed

theorem adc_value_range_witness: "adc_value 0x7E 0xED 0x00 = 519888"
  using adc_value_range [of "0x7E" "0xED" 0] by simp

section \<open>The calibration block\<close>

definition le16 :: "int \<Rightarrow> u8 list" where
  "le16 x = [word_of_int x, word_of_int (x div 256)]"

definition encode_calib :: "calib_param \<Rightarrow> u8 list" where
  "encode_calib c = concat (map le16
     [dig_T1 c, dig_T2 c, dig_T3 c, dig_P1 c, dig_P2 c, dig_P3 c, dig_P4 c, dig_P5 c,
      dig_P6 c, dig_P7 c, dig_P8 c, dig_P9 c])"

definition u16_ok :: "int \<Rightarrow> bool" where "u16_ok x \<longleftrightarrow> 0 \<le> x \<and> x < 65536"

definition wf_calib :: "calib_param \<Rightarrow> bool" where
  "wf_calib c \<longleftrightarrow> u16_ok (dig_T1 c) \<and> u16_ok (dig_P1 c) \<and>
     list_all int16_ok [dig_T2 c, dig_T3 c, dig_P2 c, dig_P3 c, dig_P4 c, dig_P5 c, dig_P6 c,
       dig_P7 c, dig_P8 c, dig_P9 c]"

lemma calib_u16_value:
  "a ! k = l \<Longrightarrow> a ! (k + 1) = m \<Longrightarrow> calib_u16 a k = uint m * 256 + uint l"
proof -
  assume a: "a ! k = l" "a ! (k + 1) = m"
  have b: "uint m < 256" "uint l < 256" "0 \<le> uint m" "0 \<le> uint l"
    using uint_bounded [of m] uint_bounded [of l] by simp_all
  have d: "push_bit 8 (ucast m :: u16) AND ucast l = 0"
    by (rule bit_word_eqI) (auto simp: bit_simps dest: bit_imp_le_length)
  have "uint (push_bit 8 (ucast m :: u16)) = uint m * 256"
    using b by (simp add: uint_word_ariths push_bit_eq_mult uint_up_ucast is_up)
  then have "calib_u16 a k = (uint m * 256 + uint l) mod 65536"
    using disjunctive_add_eq_or [OF d] a
    by (simp add: calib_u16_def uint_word_ariths uint_up_ucast is_up flip: disjunctive_add_eq_or [OF d])
  also have "\<dots> = uint m * 256 + uint l"
    using b by (subst mod_pos_pos_trivial) auto
  finally show ?thesis .
qed

lemma calib_s16_value:
  "a ! k = l \<Longrightarrow> a ! (k + 1) = m \<Longrightarrow> calib_s16 a k = sint m * 256 + uint l"
proof -
  assume a: "a ! k = l" "a ! (k + 1) = m"
  have b: "-128 \<le> sint m" "sint m < 128" "uint l < 256" "0 \<le> uint l"
    using sint_range_size [of m] uint_bounded [of l] by (simp_all add: word_size sint_ge sint_lt)
  have "push_bit 8 (sint m) AND uint l = 0"
    by (rule bit_eqI) (auto simp: bit_simps dest: bit_imp_le_length)
  then have "push_bit 8 (sint m) OR uint l = sint m * 256 + uint l"
    by (simp add: push_bit_eq_mult flip: disjunctive_add_eq_or)
  moreover have "-32768 \<le> sint m * 256 + uint l" "sint m * 256 + uint l < 32768"
    using b by linarith+
  ultimately show ?thesis
    using a by (simp add: calib_s16_def signed_take_bit_int_eq_self)
qed

lemma le16_unsigned: "u16_ok x \<Longrightarrow> uint (word_of_int (x div 256) :: u8) * 256 + uint (word_of_int x :: u8) = x"
proof -
  assume "u16_ok x"
  then have "0 \<le> x div 256" "x div 256 < 256" by (auto simp: u16_ok_def pos_imp_zdiv_nonneg_iff)
  then show ?thesis by (simp add: uint_word_of_int)
qed

lemma le16_signed: "int16_ok x \<Longrightarrow> sint (word_of_int (x div 256) :: u8) * 256 + uint (word_of_int x :: u8) = x"
proof -
  assume "int16_ok x"
  then have "-128 \<le> x div 256" "x div 256 < 128" by (auto simp: int16_ok_def)
  then have "sint (word_of_int (x div 256) :: u8) = x div 256"
    by (simp add: sint_sbintrunc' signed_take_bit_int_eq_self)
  then show ?thesis by (simp add: uint_word_of_int)
qed

text \<open>C34. Calibration round trip: the 24 bytes that hold the trimming values in little-endian order,
  the signed ones in two's complement, are decoded to those values.\<close>

theorem parse_calib_roundtrip:
  assumes "wf_calib c"
  shows "parse_calib (overlay 24 (encode_calib c)) c0 = c\<lparr>t_fine := t_fine c0\<rparr>"
proof -
  have o: "overlay 24 (encode_calib c) = encode_calib c"
    by (simp add: overlay_def encode_calib_def le16_def)
  have u: "calib_u16 (encode_calib c) 0 = dig_T1 c" "calib_u16 (encode_calib c) 6 = dig_P1 c"
    using assms le16_unsigned unfolding wf_calib_def
    by (subst calib_u16_value [OF refl refl]; simp add: encode_calib_def le16_def)+
  have s: "calib_s16 (encode_calib c) 2 = dig_T2 c" "calib_s16 (encode_calib c) 4 = dig_T3 c"
    "calib_s16 (encode_calib c) 8 = dig_P2 c" "calib_s16 (encode_calib c) 10 = dig_P3 c"
    "calib_s16 (encode_calib c) 12 = dig_P4 c" "calib_s16 (encode_calib c) 14 = dig_P5 c"
    "calib_s16 (encode_calib c) 16 = dig_P6 c" "calib_s16 (encode_calib c) 18 = dig_P7 c"
    "calib_s16 (encode_calib c) 20 = dig_P8 c" "calib_s16 (encode_calib c) 22 = dig_P9 c"
    using assms le16_signed unfolding wf_calib_def
    by (subst calib_s16_value [OF refl refl]; simp add: encode_calib_def le16_def)+
  show ?thesis by (simp add: parse_calib_def o u s)
qed

definition datasheet_calib :: calib_param where
  "datasheet_calib = \<lparr>dig_T1 = 27504, dig_T2 = 26435, dig_T3 = -1000, dig_P1 = 36477, dig_P2 = -10685,
     dig_P3 = 3024, dig_P4 = 2855, dig_P5 = 140, dig_P6 = -7, dig_P7 = 15500, dig_P8 = -14600,
     dig_P9 = 6000, t_fine = 0\<rparr>"

theorem parse_calib_roundtrip_witness:
  "dig_P8 (parse_calib (overlay 24 (encode_calib datasheet_calib)) datasheet_calib) = -14600"
proof -
  have "wf_calib datasheet_calib" by code_simp
  from parse_calib_roundtrip [OF this] show ?thesis by (simp add: datasheet_calib_def)
qed

section \<open>Setters and getters over a bus of registers\<close>

text \<open>The data sheet's view of the device: the world holds registers; a one-byte read of a register
  returns it, a write stores it.\<close>

definition register_bus :: "'w bus \<Rightarrow> ('w \<Rightarrow> u8 \<Rightarrow> u8) \<Rightarrow> bool" where
  "register_bus B regs \<longleftrightarrow>
     (\<forall>a reg w. \<exists>w'. bus_read B a reg 1 w = (0, [regs w reg], w') \<and> regs w' = regs w) \<and>
     (\<forall>a reg v w. \<exists>w'. bus_write B a reg [v] w = (0, w') \<and> regs w' = (regs w)(reg := v))"

definition demo_bus :: "(u8 \<Rightarrow> u8) bus" where
  "demo_bus = \<lparr>bus_read = (\<lambda>a reg n w. (0, map (\<lambda>k. w (reg + of_nat k)) [0..<n], w)),
     bus_write = (\<lambda>a reg bs w. (0, w(reg := hd bs))), delay_msec = (\<lambda>_ w. w)\<rparr>"

lemma demo_bus_registers: "register_bus demo_bus (\<lambda>w. w)"
  by (simp add: register_bus_def demo_bus_def)

lemma register_read:
  assumes "register_bus B regs"
  obtains w' where "read_byte_reg B d reg w = (0, regs w reg, w')" "regs w' = regs w"
proof -
  from assms obtain w' where "bus_read B (dev_addr d) reg 1 w = (0, [regs w reg], w')" "regs w' = regs w"
    unfolding register_bus_def by blast
  with that show thesis by (simp add: read_byte_reg_def store1_def)
qed

lemma to_s8_0 [simp]: "to_s8 0 = 0"
  by (simp add: to_s8_def)

lemma set_field_registers:
  assumes "register_bus B regs"
  obtains w' where "set_field f B d v w = (0, True, w')"
    "regs w' = (regs w)(bn_reg f := SET_BITSLICE (regs w (bn_reg f)) f v)"
proof -
  obtain w1 where r: "read_byte_reg B d (bn_reg f) w = (0, regs w (bn_reg f), w1)" "regs w1 = regs w"
    using register_read [OF assms] .
  from assms obtain w2 where "bus_write B (dev_addr d) (bn_reg f) [SET_BITSLICE (regs w (bn_reg f)) f v] w1 = (0, w2)"
    "regs w2 = (regs w1)(bn_reg f := SET_BITSLICE (regs w (bn_reg f)) f v)"
    unfolding register_bus_def by blast
  with r that show thesis by (simp add: set_field_def E_BMP280_SUCCESS_def)
qed

definition config_of :: "u8 \<Rightarrow> u8 \<times> u8 \<times> u8" where
  "config_of r = (GET_BITSLICE r STANDBY_DURN, GET_BITSLICE r FILTER, GET_BITSLICE r SPI3_ENABLE)"

definition ctrl_of :: "u8 \<Rightarrow> u8 \<times> u8 \<times> u8" where
  "ctrl_of r = (GET_BITSLICE r OVERSAMP_TEMPERATURE, GET_BITSLICE r OVERSAMP_PRESSURE, GET_BITSLICE r POWER_MODE)"

lemma slices_disjoint [simp]:
  "bn_msk STANDBY_DURN AND bn_msk FILTER = 0" "bn_msk SPI3_ENABLE AND bn_msk FILTER = 0"
  "bn_msk FILTER AND bn_msk STANDBY_DURN = 0" "bn_msk SPI3_ENABLE AND bn_msk STANDBY_DURN = 0"
  "bn_msk STANDBY_DURN AND bn_msk SPI3_ENABLE = 0" "bn_msk FILTER AND bn_msk SPI3_ENABLE = 0"
  "bn_msk OVERSAMP_PRESSURE AND bn_msk OVERSAMP_TEMPERATURE = 0"
  "bn_msk POWER_MODE AND bn_msk OVERSAMP_TEMPERATURE = 0"
  "bn_msk OVERSAMP_TEMPERATURE AND bn_msk OVERSAMP_PRESSURE = 0"
  "bn_msk POWER_MODE AND bn_msk OVERSAMP_PRESSURE = 0"
  by (simp_all add: field_defs)

lemma field_regs [simp]:
  "bn_reg STANDBY_DURN = BMP280_CONFIG_REG" "bn_reg FILTER = BMP280_CONFIG_REG"
  "bn_reg SPI3_ENABLE = BMP280_CONFIG_REG" "bn_reg OVERSAMP_TEMPERATURE = BMP280_CTRL_MEAS_REG"
  "bn_reg OVERSAMP_PRESSURE = BMP280_CTRL_MEAS_REG" "bn_reg POWER_MODE = BMP280_CTRL_MEAS_REG"
  by (simp_all add: field_defs)

lemma ctrl_of_set:
  "ctrl_of (SET_BITSLICE r OVERSAMP_TEMPERATURE v) = (v AND mask 3, snd (ctrl_of r))"
  "ctrl_of (SET_BITSLICE r OVERSAMP_PRESSURE v) = (fst (ctrl_of r), v AND mask 3, snd (snd (ctrl_of r)))"
  by (simp_all add: ctrl_of_def osrs_t.get_set osrs_p.get_set osrs_t.set_other osrs_p.set_other)

lemma config_of_set:
  "config_of (SET_BITSLICE r STANDBY_DURN v) = (v AND mask 3, snd (config_of r))"
  "config_of (SET_BITSLICE r FILTER v) = (fst (config_of r), v AND mask 3, snd (snd (config_of r)))"
  "config_of (SET_BITSLICE r SPI3_ENABLE v) = (fst (config_of r), fst (snd (config_of r)), v AND mask 1)"
  by (simp_all add: config_of_def standby.get_set filt.get_set spi3.get_set standby.set_other
      filt.set_other spi3.set_other)

text \<open>What a configuration setter must do: succeed, change the three fields of the register by
  \<open>change\<close>, and leave every other register alone.\<close>

definition sets_config ::
  "('w \<Rightarrow> u8 \<Rightarrow> u8) \<Rightarrow> (bmp280_t option \<Rightarrow> 'w \<Rightarrow> int \<times> unit option \<times> bmp280_t option \<times> 'w) \<Rightarrow>
    (u8 \<times> u8 \<times> u8 \<Rightarrow> u8 \<times> u8 \<times> u8) \<Rightarrow> bool" where
  "sets_config regs setter change \<longleftrightarrow> (\<forall>d w. \<exists>w'. setter (Some d) w = (0, None, Some d, w')
     \<and> config_of (regs w' 0xF5) = change (config_of (regs w 0xF5))
     \<and> (\<forall>reg. reg \<noteq> 0xF5 \<longrightarrow> regs w' reg = regs w reg))"

lemma sets_configI:
  assumes "register_bus B regs" "bn_reg f = BMP280_CONFIG_REG"
    and "\<And>d w w'. set_field f B d v w = (0, True, w') \<Longrightarrow> setter (Some d) w = (0, None, Some d, w')"
    and "\<And>r. config_of (SET_BITSLICE r f v) = change (config_of r)"
  shows "sets_config regs setter change"
  unfolding sets_config_def
proof (intro allI)
  fix d w
  obtain w' where "set_field f B d v w = (0, True, w')"
    "regs w' = (regs w)(bn_reg f := SET_BITSLICE (regs w (bn_reg f)) f v)"
    using set_field_registers [OF assms(1)] .
  with assms(2-4) show "\<exists>w'. setter (Some d) w = (0, None, Some d, w')
     \<and> config_of (regs w' 0xF5) = change (config_of (regs w 0xF5))
     \<and> (\<forall>reg. reg \<noteq> 0xF5 \<longrightarrow> regs w' reg = regs w reg)"
    by (intro exI [of _ w']) (simp add: BMP280_CONFIG_REG_def)
qed

text \<open>Over a bus of registers every configuration setter succeeds, changes its own field to the
  value given (cut to the field) and nothing else: not the other fields of the register, not the
  other registers.\<close>

theorem bmp280_setters_frame:
  assumes "register_bus B regs"
  shows "sets_config regs (bmp280_set_standby_durn B v) (\<lambda>(s, f, e). (v AND mask 3, f, e)) \<and>
    sets_config regs (bmp280_set_filter B v) (\<lambda>(s, f, e). (s, v AND mask 3, e)) \<and>
    sets_config regs (bmp280_set_spi3 B v) (\<lambda>(s, f, e). (s, f, v AND mask 1))"
proof (intro conjI)
  show "sets_config regs (bmp280_set_standby_durn B v) (\<lambda>(s, f, e). (v AND mask 3, f, e))"
    by (rule sets_configI [OF assms, of STANDBY_DURN v])
      (auto simp: bmp280_set_standby_durn_def if_device_def config_of_set split: prod.split)
  show "sets_config regs (bmp280_set_filter B v) (\<lambda>(s, f, e). (s, v AND mask 3, e))"
    by (rule sets_configI [OF assms, of FILTER v])
      (auto simp: bmp280_set_filter_def if_device_def config_of_set split: prod.split)
  show "sets_config regs (bmp280_set_spi3 B v) (\<lambda>(s, f, e). (s, f, v AND mask 1))"
    by (rule sets_configI [OF assms, of SPI3_ENABLE v])
      (auto simp: bmp280_set_spi3_def if_device_def config_of_set split: prod.split)
qed

theorem bmp280_setters_frame_witness:
  "sets_config (\<lambda>w. w) (bmp280_set_filter demo_bus 4) (\<lambda>(s, f, e). (s, 4, e))"
proof -
  have "(4 :: u8) AND mask 3 = 4" by code_simp
  with bmp280_setters_frame [OF demo_bus_registers, of 4] show ?thesis by simp
qed

section \<open>The mode byte\<close>

lemma bit_less_pow: "(x :: u8) < 2 ^ k \<Longrightarrow> k < 8 \<Longrightarrow> bit x n \<Longrightarrow> n < k"
  by (metis bit_and_iff bit_mask_iff less_mask_eq)

lemma mode_byte_or:
  assumes "oversamp_temperature d < 8" "oversamp_pressure d < 8" "mode < 4"
  shows "mode_byte d mode = push_bit 5 (oversamp_temperature d) OR (push_bit 2 (oversamp_pressure d) OR mode)"
proof -
  have m: "mode_byte d mode = push_bit 5 (oversamp_temperature d) + (push_bit 2 (oversamp_pressure d) + mode)"
    by (simp add: mode_byte_def push_bit_eq_mult ac_simps)
  have b: "bit (oversamp_pressure d) n \<Longrightarrow> n < 3" "bit mode n \<Longrightarrow> n < 2" for n
    using assms(2,3) bit_less_pow [of "oversamp_pressure d" 3] bit_less_pow [of mode 2] by simp_all
  have 1: "push_bit 2 (oversamp_pressure d) AND mode = 0"
    by (rule bit_word_eqI) (auto simp: bit_simps dest: b)
  have 2: "push_bit 5 (oversamp_temperature d) AND (push_bit 2 (oversamp_pressure d) OR mode) = 0"
    by (rule bit_word_eqI) (auto simp: bit_simps dest!: b)
  show ?thesis
    by (simp add: m disjunctive_add_eq_or [OF 1] disjunctive_add_eq_or [OF 2])
qed

lemma field_pos:
  "bn_pos OVERSAMP_TEMPERATURE = 5" "bn_pos OVERSAMP_PRESSURE = 2" "bn_pos POWER_MODE = 0"
  by (simp_all add: field_defs)

lemma field_bits:
  "bit (bn_msk OVERSAMP_TEMPERATURE) n \<longleftrightarrow> 5 \<le> n \<and> n < 8"
  "bit (bn_msk OVERSAMP_PRESSURE) n \<longleftrightarrow> 2 \<le> n \<and> n < 5"
  "bit (bn_msk POWER_MODE) n \<longleftrightarrow> n < 2"
  using osrs_t.bit_msk [of n] osrs_p.bit_msk [of n] power_mode.bit_msk [of n]
  by (simp_all add: field_pos numeral_2_eq_2)

text \<open>The control byte that \<open>bmp280_set_power_mode\<close> writes has the cached oversamplings and the
  mode in their fields, provided the cached values fit their three bits. (The oversampling setters
  cache the caller's value uncut, so a value of 8 or more would spill into the next field.)\<close>

theorem mode_byte_fields:
  assumes "oversamp_temperature d < 8" "oversamp_pressure d < 8" "mode < 4"
  shows "ctrl_of (mode_byte d mode) = (oversamp_temperature d, oversamp_pressure d, mode)"
proof -
  let ?t = "oversamp_temperature d" and ?p = "oversamp_pressure d"
  have b: "bit ?t n \<Longrightarrow> n < 3" "bit ?p n \<Longrightarrow> n < 3" "bit mode n \<Longrightarrow> n < 2" for n
    using assms bit_less_pow [of ?t 3] bit_less_pow [of ?p 3] bit_less_pow [of mode 2] by simp_all
  note g = mode_byte_or [OF assms] GET_BITSLICE_def bit_simps field_bits field_pos
  have "GET_BITSLICE (mode_byte d mode) OVERSAMP_TEMPERATURE = ?t"
    by (rule bit_word_eqI) (auto simp: g dest: b)
  moreover have "GET_BITSLICE (mode_byte d mode) OVERSAMP_PRESSURE = ?p"
    by (rule bit_word_eqI) (auto simp: g dest: b)
  moreover have "GET_BITSLICE (mode_byte d mode) POWER_MODE = mode"
    by (rule bit_word_eqI) (auto simp: g dest: b)
  ultimately show ?thesis by (simp add: ctrl_of_def)
qed

definition demo_device :: bmp280_t where
  "demo_device = \<lparr>calib = datasheet_calib, chip_id = 0x58, dev_addr = 0x76,
     oversamp_temperature = 2, oversamp_pressure = 5\<rparr>"

theorem mode_byte_fields_witness: "ctrl_of (mode_byte demo_device 3) = (2, 5, 3)"
  using mode_byte_fields [of demo_device 3] by (simp add: demo_device_def)

section \<open>The waiting time\<close>

lemma small_cases: "(x :: u8) \<le> 5 \<Longrightarrow> x = 0 \<or> x = 1 \<or> x = 2 \<or> x = 3 \<or> x = 4 \<or> x = 5"
  by (auto simp: word_le_nat_alt word_unat_eq_iff)

text \<open>For the oversampling codes of the data sheet (0 to 5) the waiting time is the measurement
  time in sixteenths of a millisecond, rounded up to whole milliseconds: it covers the measurement,
  wastes less than a millisecond, and its eight bits do not overflow.\<close>

theorem wait_time_covers:
  assumes "oversamp_temperature d \<le> 5" "oversamp_pressure d \<le> 5"
  shows "\<exists>t. bmp280_compute_wait_time d = Some t \<and> wait_units d \<le> 16 * uint t \<and>
    16 * uint t < wait_units d + 16 \<and> uint t \<le> 76"
proof -
  have "20 \<le> wait_units d" "wait_units d \<le> 1214"
    using small_cases [OF assms(1)] small_cases [OF assms(2)] by (auto simp: wait_units_def)
  moreover from this have "0 \<le> (wait_units d + 15) div 16" "(wait_units d + 15) div 16 \<le> 76" by auto
  moreover have "oversamp_temperature d < 31" "oversamp_pressure d < 31"
    using assms by (auto simp: word_le_nat_alt word_less_nat_alt)
  ultimately show ?thesis
    by (auto simp: bmp280_compute_wait_time_def int_range_defs uint_word_of_int)
qed

theorem wait_time_covers_witness: "\<exists>t. bmp280_compute_wait_time demo_device = Some t \<and> uint t \<le> 76"
  using wait_time_covers [of demo_device] by (auto simp: demo_device_def)

text \<open>Code 7, which reads back as 16x too, overflows the byte.\<close>

lemma wait_time_truncated:
  "bmp280_compute_wait_time (demo_device\<lparr>oversamp_temperature := 7, oversamp_pressure := 7\<rparr>) = Some 42 \<and>
   (wait_units (demo_device\<lparr>oversamp_temperature := 7, oversamp_pressure := 7\<rparr>) + 15) div 16 = 298"
  by code_simp

section \<open>The NULL pointer\<close>

lemma if_device_None [simp]: "if_device body None w = (E_BMP280_NULL_PTR, None, None, w)"
  by (simp add: if_device_def)

text \<open>Every function that goes through the global pointer checks it: with no device it returns the
  NULL-pointer code, writes no output and does not touch the bus.\<close>

theorem bmp280_null_safe:
  "bmp280_read_uncomp_temperature B None w = (-127, None, None, w) \<and>
   bmp280_read_uncomp_pressure B None w = (-127, None, None, w) \<and>
   bmp280_read_uncomp_pressure_temperature B None w = (-127, None, None, w) \<and>
   bmp280_get_calib_param B None w = (-127, None, None, w) \<and>
   bmp280_get_oversamp_temperature B None w = (-127, None, None, w) \<and>
   bmp280_set_oversamp_temperature B v None w = (-127, None, None, w) \<and>
   bmp280_get_oversamp_pressure B None w = (-127, None, None, w) \<and>
   bmp280_set_oversamp_pressure B v None w = (-127, None, None, w) \<and>
   bmp280_get_power_mode B None w = (-127, None, None, w) \<and>
   bmp280_set_power_mode B v None w = (-127, None, None, w) \<and>
   bmp280_set_soft_rst B None w = (-127, None, None, w) \<and>
   bmp280_get_spi3 B None w = (-127, None, None, w) \<and> bmp280_set_spi3 B v None w = (-127, None, None, w) \<and>
   bmp280_get_filter B None w = (-127, None, None, w) \<and> bmp280_set_filter B v None w = (-127, None, None, w) \<and>
   bmp280_get_standby_durn B None w = (-127, None, None, w) \<and>
   bmp280_set_standby_durn B v None w = (-127, None, None, w) \<and>
   bmp280_set_work_mode B v None w = (-127, None, None, w) \<and>
   bmp280_get_forced_uncomp_pressure_temperature B None w = Some (-127, None, None, w) \<and>
   bmp280_write_register B reg bs None w = (-127, None, None, w) \<and>
   bmp280_read_register B reg n None w = (-127, None, None, w)"
  unfolding bmp280_read_uncomp_temperature_def bmp280_read_uncomp_pressure_def
    bmp280_read_uncomp_pressure_temperature_def bmp280_get_calib_param_def
    bmp280_get_oversamp_temperature_def bmp280_set_oversamp_temperature_def
    bmp280_get_oversamp_pressure_def bmp280_set_oversamp_pressure_def bmp280_get_power_mode_def
    bmp280_set_power_mode_def bmp280_set_soft_rst_def bmp280_get_spi3_def bmp280_set_spi3_def
    bmp280_get_filter_def bmp280_set_filter_def bmp280_get_standby_durn_def bmp280_set_standby_durn_def
    bmp280_set_work_mode_def bmp280_get_forced_uncomp_pressure_temperature_def
    bmp280_write_register_def bmp280_read_register_def
  by (simp add: rslt_defs)

end
