(* ===== verification/Bmp280_Comp.thy ===== *)
theory Bmp280_Comp
  imports Bmp280_Properties Ieee754 Complex_Main
begin

text \<open>
  The compensation formulas of \<^verbatim>\<open>bmp280.c\<close>: 32-bit temperature and pressure, 64-bit pressure and
  the two floating-point versions. Signed arithmetic is checked at its width (\<open>None\<close> is an
  overflow, undefined in C); right shifts of negative numbers are arithmetic and left shifts
  multiply, as GCC defines both. Unsigned arithmetic is on words and wraps.

  The lemmas: no overflow over a box of calibrations and readings that contains the data sheet's
  example, the accuracy of the integer temperature against the exact formula, and the data
  sheet's numbers.
\<close>

section \<open>Checked arithmetic\<close>

definition chk64 :: "int \<Rightarrow> int option" where
  "chk64 x = (if - (2 ^ 63) \<le> x \<and> x < 2 ^ 63 then Some x else None)"

text \<open>A division that is undefined when it divides by zero.\<close>

definition div64 :: "int \<Rightarrow> int \<Rightarrow> int option" where
  "div64 x y = (if y = 0 then None else chk64 (x sdiv y))"

lemma chk32_in: "\<bar>x\<bar> \<le> 2147483647 \<Longrightarrow> chk32 x = Some x"
  by (auto simp: int_range_defs)

lemma chk64_in: "\<bar>x\<bar> \<le> 9223372036854775807 \<Longrightarrow> chk64 x = Some x"
  by (auto simp: chk64_def)

section \<open>Temperature, 32 bits\<close>

definition bmp280_compensate_temperature_int32 :: "calib_param \<Rightarrow> int \<Rightarrow> (calib_param \<times> int) option" where
  "bmp280_compensate_temperature_int32 c adc =
     do {
       a \<leftarrow> chk32 (drop_bit 3 adc - dig_T1 c * 2);
       b \<leftarrow> chk32 (a * dig_T2 c);
       let x1 = drop_bit 11 b;
       d \<leftarrow> chk32 (drop_bit 4 adc - dig_T1 c);
       e \<leftarrow> chk32 (d * d);
       f \<leftarrow> chk32 (drop_bit 12 e * dig_T3 c);
       let x2 = drop_bit 14 f;
       tf \<leftarrow> chk32 (x1 + x2);
       g \<leftarrow> chk32 (tf * 5);
       h \<leftarrow> chk32 (g + 128);
       Some (c\<lparr>t_fine := tf\<rparr>, drop_bit 8 h)
     }"

section \<open>Pressure, 32 bits\<close>

definition pressure_x2 :: "calib_param \<Rightarrow> int \<Rightarrow> int option" where
  "pressure_x2 c x1 =
     do {
       q \<leftarrow> chk32 (drop_bit 2 x1 * drop_bit 2 x1);
       a \<leftarrow> chk32 (drop_bit 11 q * dig_P6 c);
       b \<leftarrow> chk32 (x1 * dig_P5 c);
       b2 \<leftarrow> chk32 (b * 2);
       s \<leftarrow> chk32 (a + b2);
       p4 \<leftarrow> chk32 (dig_P4 c * 65536);
       chk32 (drop_bit 2 s + p4)
     }"

definition pressure_x1 :: "calib_param \<Rightarrow> int \<Rightarrow> int option" where
  "pressure_x1 c x1 =
     do {
       q \<leftarrow> chk32 (drop_bit 2 x1 * drop_bit 2 x1);
       a \<leftarrow> chk32 (dig_P3 c * drop_bit 13 q);
       b \<leftarrow> chk32 (dig_P2 c * x1);
       s \<leftarrow> chk32 (drop_bit 3 a + drop_bit 1 b);
       t \<leftarrow> chk32 (32768 + drop_bit 18 s);
       u \<leftarrow> chk32 (t * dig_P1 c);
       Some (drop_bit 15 u)
     }"

definition pressure_quot :: "u32 \<Rightarrow> int \<Rightarrow> u32" where
  "pressure_quot p x1 =
     (if p < 0x80000000 then push_bit 1 p div word_of_int x1 else (p div word_of_int x1) * 2)"

definition pressure_final :: "calib_param \<Rightarrow> u32 \<Rightarrow> u32 option" where
  "pressure_final c p =
     do {
       a \<leftarrow> chk32 (dig_P9 c * sint (drop_bit 13 (drop_bit 3 p * drop_bit 3 p)));
       b \<leftarrow> chk32 (sint (drop_bit 2 p) * dig_P8 c);
       s \<leftarrow> chk32 (drop_bit 12 a + drop_bit 13 b);
       t \<leftarrow> chk32 (s + dig_P7 c);
       r \<leftarrow> chk32 (sint p + drop_bit 4 t);
       Some (word_of_int r)
     }"

definition bmp280_compensate_pressure_int32 :: "calib_param \<Rightarrow> int \<Rightarrow> u32 option" where
  "bmp280_compensate_pressure_int32 c adc =
     do {
       x1 \<leftarrow> chk32 (drop_bit 1 (t_fine c) - 64000);
       x2 \<leftarrow> pressure_x2 c x1;
       y1 \<leftarrow> pressure_x1 c x1;
       n \<leftarrow> chk32 (1048576 - adc);
       let p = (word_of_int n - word_of_int (drop_bit 12 x2)) * 3125;
       if y1 \<noteq> 0 then pressure_final c (pressure_quot p y1) else Some 0
     }"

text \<open>\<open>bmp280_read_pressure_temperature\<close>: both, the temperature first, for its \<open>t_fine\<close>.\<close>

definition bmp280_read_pressure_temperature ::
  "'w bus \<Rightarrow> bmp280_t option \<Rightarrow> 'w \<Rightarrow> (int \<times> (u32 \<times> int) option \<times> bmp280_t option \<times> 'w) option" where
  "bmp280_read_pressure_temperature B p w =
     (case p of None \<Rightarrow> Some (E_BMP280_NULL_PTR, None, None, w)
      | Some d \<Rightarrow>
          (case read_uncomp B d w of (r, (up, ut), w') \<Rightarrow>
             do {
               (c, temperature) \<leftarrow> bmp280_compensate_temperature_int32 (calib d) ut;
               pressure \<leftarrow> bmp280_compensate_pressure_int32 c up;
               Some (r, Some (pressure, temperature), Some (d\<lparr>calib := c\<rparr>), w')
             }))"

section \<open>Pressure, 64 bits\<close>

definition pressure64_x2 :: "calib_param \<Rightarrow> int \<Rightarrow> int option" where
  "pressure64_x2 c x1 =
     do {
       q \<leftarrow> chk64 (x1 * x1);
       a \<leftarrow> chk64 (q * dig_P6 c);
       b \<leftarrow> chk64 (x1 * dig_P5 c);
       b2 \<leftarrow> chk64 (b * 2 ^ 17);
       s \<leftarrow> chk64 (a + b2);
       p4 \<leftarrow> chk64 (dig_P4 c * 2 ^ 35);
       chk64 (s + p4)
     }"

definition pressure64_x1 :: "calib_param \<Rightarrow> int \<Rightarrow> int option" where
  "pressure64_x1 c x1 =
     do {
       q \<leftarrow> chk64 (x1 * x1);
       a \<leftarrow> chk64 (q * dig_P3 c);
       b \<leftarrow> chk64 (x1 * dig_P2 c);
       b2 \<leftarrow> chk64 (b * 2 ^ 12);
       s \<leftarrow> chk64 (drop_bit 8 a + b2);
       t \<leftarrow> chk64 (2 ^ 47 + s);
       u \<leftarrow> chk64 (t * dig_P1 c);
       Some (drop_bit 33 u)
     }"

definition pressure64_final :: "calib_param \<Rightarrow> int \<Rightarrow> u32 option" where
  "pressure64_final c p =
     do {
       a \<leftarrow> chk64 (dig_P9 c * drop_bit 13 p);
       a2 \<leftarrow> chk64 (a * drop_bit 13 p);
       b \<leftarrow> chk64 (dig_P8 c * p);
       s \<leftarrow> chk64 (p + drop_bit 25 a2);
       t \<leftarrow> chk64 (s + drop_bit 19 b);
       p7 \<leftarrow> chk64 (dig_P7 c * 16);
       r \<leftarrow> chk64 (drop_bit 8 t + p7);
       Some (word_of_int r)
     }"

definition bmp280_compensate_pressure_int64 :: "calib_param \<Rightarrow> int \<Rightarrow> u32 option" where
  "bmp280_compensate_pressure_int64 c adc =
     do {
       x1 \<leftarrow> chk64 (t_fine c - 128000);
       x2 \<leftarrow> pressure64_x2 c x1;
       y1 \<leftarrow> pressure64_x1 c x1;
       n \<leftarrow> chk32 (1048576 - adc);
       if y1 \<noteq> 0 then
         do {
           m \<leftarrow> chk64 (n * 2 ^ 31);
           s \<leftarrow> chk64 (m - x2);
           t \<leftarrow> chk64 (s * 3125);
           p \<leftarrow> div64 t y1;
           pressure64_final c p
         }
       else Some 0
     }"

section \<open>Floating point\<close>

abbreviation D64 :: ffmt where "D64 \<equiv> binary64"

definition bmp280_compensate_temperature_double :: "calib_param \<Rightarrow> int \<Rightarrow> (calib_param \<times> fnum) option" where
  "bmp280_compensate_temperature_double c adc =
     (let i = of_int_f D64; l = (\<lambda>n. lit D64 n 1);
          x1 = fmul D64 (fsub D64 (fdiv D64 (i adc) (l 16384)) (fdiv D64 (i (dig_T1 c)) (l 1024))) (i (dig_T2 c));
          d = fsub D64 (fdiv D64 (i adc) (l 131072)) (fdiv D64 (i (dig_T1 c)) (l 8192));
          x2 = fmul D64 (fmul D64 d d) (i (dig_T3 c));
          s = fadd D64 x1 x2
      in map_option (\<lambda>tf. (c\<lparr>t_fine := tf\<rparr>, fdiv D64 s (l 5120))) (to_int32 s))"

definition bmp280_compensate_pressure_double :: "calib_param \<Rightarrow> int \<Rightarrow> fnum" where
  "bmp280_compensate_pressure_double c adc =
     (let i = of_int_f D64; l = (\<lambda>n. lit D64 n 1); mul = fmul D64; add = fadd D64; sub = fsub D64; dv = fdiv D64;
          x1 = sub (dv (i (t_fine c)) (l 2)) (l 64000);
          x2 = dv (mul (mul x1 x1) (i (dig_P6 c))) (l 32768);
          x2 = add x2 (mul (mul x1 (i (dig_P5 c))) (l 2));
          x2 = add (dv x2 (l 4)) (mul (i (dig_P4 c)) (l 65536));
          x1 = dv (add (dv (mul (mul (i (dig_P3 c)) x1) x1) (l 524288)) (mul (i (dig_P2 c)) x1)) (l 524288);
          x1 = mul (add (l 1) (dv x1 (l 32768))) (i (dig_P1 c));
          pressure = sub (l 1048576) (i adc)
      in if flt (l 0) x1 \<or> flt x1 (l 0) then
           let pressure = dv (mul (sub pressure (dv x2 (l 4096))) (l 6250)) x1;
               x1 = dv (mul (mul (i (dig_P9 c)) pressure) pressure) (l 2147483648);
               x2 = dv (mul pressure (i (dig_P8 c))) (l 32768)
           in add pressure (dv (add (add x1 x2) (i (dig_P7 c))) (l 16))
         else l 0)"

lemma datasheet_example:
  "bmp280_compensate_temperature_int32 datasheet_calib 519888 = Some (datasheet_calib\<lparr>t_fine := 128422\<rparr>, 2508)"
  "bmp280_compensate_pressure_int32 (datasheet_calib\<lparr>t_fine := 128422\<rparr>) 415148 = Some 100656"
  "bmp280_compensate_pressure_int64 (datasheet_calib\<lparr>t_fine := 128422\<rparr>) 415148 = Some 25767233"
  by code_simp+

section \<open>Bounds\<close>

text \<open>Products and shifts of bounded numbers are bounded.\<close>

lemma abs_mult_le: "\<bar>x\<bar> \<le> A \<Longrightarrow> \<bar>y\<bar> \<le> B \<Longrightarrow> \<bar>x * y :: int\<bar> \<le> A * B"
  by (simp add: abs_mult mult_mono)

lemma abs_add_le: "\<bar>x\<bar> \<le> A \<Longrightarrow> \<bar>y\<bar> \<le> B \<Longrightarrow> \<bar>x + y :: int\<bar> \<le> A + B"
  by simp

lemma abs_shr_le:
  assumes "\<bar>x\<bar> \<le> A * 2 ^ k"
  shows "\<bar>drop_bit k x :: int\<bar> \<le> A"
proof -
  have u: "x \<le> A * 2 ^ k" "(- A) * 2 ^ k \<le> x" using assms by auto
  have "x div 2 ^ k \<le> A * 2 ^ k div 2 ^ k" "(- A) * 2 ^ k div 2 ^ k \<le> x div 2 ^ k"
    using zdiv_mono1 [OF u(1), of "2 ^ k"] zdiv_mono1 [OF u(2), of "2 ^ k"] by simp_all
  then have "x div 2 ^ k \<le> A" "- A \<le> x div 2 ^ k" by (simp_all del: mult_minus_left)
  then show ?thesis by (simp add: drop_bit_eq_div abs_le_iff)
qed

lemma shr_real:
  "real_of_int x / 2 ^ k - 1 < real_of_int (drop_bit k x)" "real_of_int (drop_bit k x) \<le> real_of_int x / 2 ^ k"
proof -
  have f: "drop_bit k x = \<lfloor>real_of_int x / 2 ^ k\<rfloor>"
    using floor_divide_of_int_eq [where 'a = real, of x "2 ^ k"] by (simp add: drop_bit_eq_div)
  show "real_of_int x / 2 ^ k - 1 < real_of_int (drop_bit k x)" "real_of_int (drop_bit k x) \<le> real_of_int x / 2 ^ k"
    unfolding f by linarith+
qed

section \<open>The temperature\<close>

text \<open>The readings and trimming values for which the 32-bit formula does not overflow: a reading
  within half the range of the trimming point, and a quadratic term of a real part.\<close>

definition temperature_box :: "calib_param \<Rightarrow> int \<Rightarrow> bool" where
  "temperature_box c adc \<longleftrightarrow> 0 \<le> adc \<and> adc < 2 ^ 20 \<and> u16_ok (dig_T1 c) \<and> int16_ok (dig_T2 c)
     \<and> \<bar>dig_T3 c\<bar> \<le> 8000 \<and> \<bar>drop_bit 3 adc - dig_T1 c * 2\<bar> \<le> 65535"

definition t_fine_exact :: "calib_param \<Rightarrow> int \<Rightarrow> real" where
  "t_fine_exact c adc =
     (real_of_int adc / 8 - 2 * real_of_int (dig_T1 c)) * real_of_int (dig_T2 c) / 2048
     + (real_of_int adc / 16 - real_of_int (dig_T1 c))\<^sup>2 / 4096 * real_of_int (dig_T3 c) / 16384"

lemma shr_shr: "drop_bit 4 x = drop_bit 1 (drop_bit 3 (x :: int))"
  by (simp add: drop_bit_drop_bit)

lemma temperature_steps:
  assumes "temperature_box c adc"
  defines "a \<equiv> drop_bit 3 adc - dig_T1 c * 2" and "d \<equiv> drop_bit 4 adc - dig_T1 c"
  shows "\<bar>a\<bar> \<le> 65535" "\<bar>d\<bar> \<le> 32768" "\<bar>a * dig_T2 c\<bar> \<le> 2147450880" "\<bar>d * d\<bar> \<le> 1073741824"
    "\<bar>drop_bit 12 (d * d) * dig_T3 c\<bar> \<le> 2097152000" "\<bar>drop_bit 11 (a * dig_T2 c)\<bar> \<le> 1048560"
    "\<bar>drop_bit 14 (drop_bit 12 (d * d) * dig_T3 c)\<bar> \<le> 128000"
proof -
  show a: "\<bar>a\<bar> \<le> 65535" using assms by (simp add: temperature_box_def)
  have "d = a div 2"
    unfolding a_def d_def shr_shr by (simp add: drop_bit_eq_div)
  with a show d: "\<bar>d\<bar> \<le> 32768" by (auto simp: abs_le_iff)
  have T: "\<bar>dig_T2 c\<bar> \<le> 32768" "\<bar>dig_T3 c\<bar> \<le> 8000"
    using assms by (auto simp: temperature_box_def int16_ok_def)
  show b: "\<bar>a * dig_T2 c\<bar> \<le> 2147450880" using abs_mult_le [OF a T(1)] by simp
  show e: "\<bar>d * d\<bar> \<le> 1073741824" using abs_mult_le [OF d d] by simp
  have "\<bar>drop_bit 12 (d * d)\<bar> \<le> 262144" using e by (intro abs_shr_le) simp
  from abs_mult_le [OF this T(2)] show f: "\<bar>drop_bit 12 (d * d) * dig_T3 c\<bar> \<le> 2097152000" by simp
  show "\<bar>drop_bit 11 (a * dig_T2 c)\<bar> \<le> 1048560" using b by (intro abs_shr_le) simp
  show "\<bar>drop_bit 14 (drop_bit 12 (d * d) * dig_T3 c)\<bar> \<le> 128000" using f by (intro abs_shr_le) simp
qed

lemma temperature_value:
  assumes "temperature_box c adc"
  shows "\<exists>tf. bmp280_compensate_temperature_int32 c adc = Some (c\<lparr>t_fine := tf\<rparr>, drop_bit 8 (tf * 5 + 128)) \<and>
    tf = drop_bit 11 ((drop_bit 3 adc - dig_T1 c * 2) * dig_T2 c) +
      drop_bit 14 (drop_bit 12 ((drop_bit 4 adc - dig_T1 c) * (drop_bit 4 adc - dig_T1 c)) * dig_T3 c)"
  using temperature_steps [OF assms]
  by (simp add: bmp280_compensate_temperature_int32_def chk32_in Let_def)

text \<open>A product of bounded reals is bounded.\<close>

lemma abs_mult_le_real: "\<bar>x\<bar> \<le> A \<Longrightarrow> \<bar>y\<bar> \<le> B \<Longrightarrow> \<bar>x * y :: real\<bar> \<le> A * B"
  by (simp add: abs_mult mult_mono)

text \<open>A division that rounds down, of a number known up to \<open>E\<close>.\<close>

lemma quotient_error:
  assumes "0 < (k :: real)" "\<bar>x - y\<bar> \<le> E" "y / k - 1 < q" "q \<le> y / k"
  shows "\<bar>q - x / k\<bar> \<le> 1 + E / k"
proof -
  have "\<bar>x / k - y / k\<bar> \<le> E / k"
    using divide_right_mono [OF assms(2), of k] assms(1) by (simp flip: diff_divide_distrib)
  with assms(3,4) show ?thesis by linarith
qed

text \<open>The linear term: one division loses less than \<open>1\<close> of the reading, which \<open>dig_T2\<close> scales by
  at most \<open>16\<close>, and one more at the end.\<close>

lemma linear_term_error:
  assumes "int16_ok (dig_T2 c)"
  shows "\<bar>real_of_int (drop_bit 11 ((drop_bit 3 adc - dig_T1 c * 2) * dig_T2 c))
    - (real_of_int adc / 8 - 2 * real_of_int (dig_T1 c)) * real_of_int (dig_T2 c) / 2048\<bar> \<le> 17"
proof -
  define a where "a = drop_bit 3 adc - dig_T1 c * 2"
  define e where "e = real_of_int adc / 8 - real_of_int (drop_bit 3 adc)"
  have e: "\<bar>e\<bar> \<le> 1" using shr_real [where x = adc and k = 3] by (simp add: e_def)
  have "\<bar>real_of_int (dig_T2 c)\<bar> \<le> 32768" using assms by (auto simp: int16_ok_def abs_le_iff)
  from abs_mult_le_real [OF e this] have "\<bar>e * real_of_int (dig_T2 c)\<bar> \<le> 32768" by simp
  moreover have "(real_of_int adc / 8 - 2 * real_of_int (dig_T1 c)) * real_of_int (dig_T2 c)
      = real_of_int (a * dig_T2 c) + e * real_of_int (dig_T2 c)"
    by (simp add: a_def e_def algebra_simps)
  moreover have "real_of_int (a * dig_T2 c) / 2048 - 1 < real_of_int (drop_bit 11 (a * dig_T2 c))"
    "real_of_int (drop_bit 11 (a * dig_T2 c)) \<le> real_of_int (a * dig_T2 c) / 2048"
    using shr_real [where x = "a * dig_T2 c" and k = 11] by simp_all
  ultimately have "\<bar>real_of_int (drop_bit 11 (a * dig_T2 c))
      - (real_of_int adc / 8 - 2 * real_of_int (dig_T1 c)) * real_of_int (dig_T2 c) / 2048\<bar> \<le> 1 + 32768 / 2048"
    by (intro quotient_error) simp_all
  then show ?thesis by (simp add: a_def)
qed

lemma quadratic_term_error:
  assumes d: "\<bar>drop_bit 4 adc - dig_T1 c\<bar> \<le> 32768" and T3: "\<bar>dig_T3 c\<bar> \<le> 8000"
  shows "\<bar>real_of_int (drop_bit 14 (drop_bit 12 ((drop_bit 4 adc - dig_T1 c) * (drop_bit 4 adc - dig_T1 c)) * dig_T3 c))
    - (real_of_int adc / 16 - real_of_int (dig_T1 c))\<^sup>2 / 4096 * real_of_int (dig_T3 c) / 16384\<bar> < 10"
proof -
  define d where "d = drop_bit 4 adc - dig_T1 c"
  define f where "f = drop_bit 12 (d * d)"
  define e where "e = real_of_int adc / 16 - real_of_int (drop_bit 4 adc)"
  define x where "x = (real_of_int adc / 16 - real_of_int (dig_T1 c))\<^sup>2 / 4096"
  have e: "0 \<le> e" "e \<le> 1" using shr_real [where x = adc and k = 4] by (simp_all add: e_def)
  have "real_of_int adc / 16 - real_of_int (dig_T1 c) = real_of_int d + e"
    by (simp add: d_def e_def)
  then have x: "x * 4096 = real_of_int (d * d) + e * (2 * real_of_int d + e)"
    by (simp add: x_def power2_eq_square algebra_simps)
  have "\<bar>2 * real_of_int d + e\<bar> \<le> 65537" using assms(1) e by (auto simp: d_def [symmetric] abs_le_iff)
  with e have g: "\<bar>e * (2 * real_of_int d + e)\<bar> \<le> 65537"
    using abs_mult_le_real [of e 1 "2 * real_of_int d + e" 65537] by simp
  have "real_of_int (d * d) / 4096 - 1 < real_of_int f" "real_of_int f \<le> real_of_int (d * d) / 4096"
    using shr_real [where x = "d * d" and k = 12] by (simp_all add: f_def)
  then have "\<bar>real_of_int f - x * 4096 / 4096\<bar> \<le> 1 + 65537 / 4096"
    using x g by (intro quotient_error) simp_all
  then have "\<bar>x - real_of_int f\<bar> \<le> 17.0003" by (simp add: abs_minus_commute [of _ x])
  moreover have "\<bar>real_of_int (dig_T3 c)\<bar> \<le> 8000" using T3 by linarith
  ultimately have "\<bar>(x - real_of_int f) * real_of_int (dig_T3 c)\<bar> \<le> 17.0003 * 8000"
    by (rule abs_mult_le_real)
  then have "\<bar>x * real_of_int (dig_T3 c) - real_of_int (f * dig_T3 c)\<bar> \<le> 136003"
    by (simp add: algebra_simps)
  moreover have "real_of_int (f * dig_T3 c) / 16384 - 1 < real_of_int (drop_bit 14 (f * dig_T3 c))"
    "real_of_int (drop_bit 14 (f * dig_T3 c)) \<le> real_of_int (f * dig_T3 c) / 16384"
    using shr_real [where x = "f * dig_T3 c" and k = 14] by simp_all
  ultimately have "\<bar>real_of_int (drop_bit 14 (f * dig_T3 c)) - x * real_of_int (dig_T3 c) / 16384\<bar> \<le> 1 + 136003 / 16384"
    by (intro quotient_error) simp_all
  then show ?thesis by (simp add: x_def d_def f_def)
qed

text \<open>C26. The 32-bit temperature formula is defined (no signed overflow) for every reading in
  \<open>temperature_box\<close>; the fine temperature it stores for the pressure formulas, in units of
  1/5120 degree, is within 28 units of the exact real formula of the data sheet, and it changes no
  other trimming value.\<close>

theorem temperature_int32_accurate:
  assumes "temperature_box c adc"
  shows "\<exists>tf t. bmp280_compensate_temperature_int32 c adc = Some (c\<lparr>t_fine := tf\<rparr>, t) \<and>
    \<bar>real_of_int tf - t_fine_exact c adc\<bar> < 28 \<and> t = (tf * 5 + 128) div 256"
proof -
  have "int16_ok (dig_T2 c)" "\<bar>dig_T3 c\<bar> \<le> 8000" using assms by (auto simp: temperature_box_def)
  from linear_term_error [OF this(1), of adc] quadratic_term_error [OF temperature_steps(2) [OF assms] this(2)]
    temperature_value [OF assms]
  show ?thesis
    by (fastforce simp: t_fine_exact_def drop_bit_eq_div [of 8] abs_less_iff)
qed

lemma temperature_int32_accurate_witness:
  "\<exists>tf t. bmp280_compensate_temperature_int32 datasheet_calib 519888 = Some (datasheet_calib\<lparr>t_fine := tf\<rparr>, t) \<and>
    \<bar>real_of_int tf - t_fine_exact datasheet_calib 519888\<bar> < 28 \<and> t = (tf * 5 + 128) div 256"
  by (rule temperature_int32_accurate) code_simp

section \<open>The 64-bit pressure\<close>

text \<open>The operating range: -40 to 85 degrees, the trimming values of real parts with a wide margin,
  and every 20-bit reading.\<close>

definition pressure_box :: "calib_param \<Rightarrow> int \<Rightarrow> bool" where
  "pressure_box c adc \<longleftrightarrow> 0 \<le> adc \<and> adc < 2 ^ 20 \<and> -204800 \<le> t_fine c \<and> t_fine c \<le> 435200
     \<and> 25000 \<le> dig_P1 c \<and> dig_P1 c \<le> 40000 \<and> \<bar>dig_P2 c\<bar> \<le> 16384 \<and> \<bar>dig_P3 c\<bar> \<le> 8192
     \<and> \<bar>dig_P4 c\<bar> \<le> 8192 \<and> \<bar>dig_P5 c\<bar> \<le> 1024 \<and> \<bar>dig_P6 c\<bar> \<le> 128
     \<and> \<bar>dig_P7 c\<bar> \<le> 32768 \<and> \<bar>dig_P8 c\<bar> \<le> 32768 \<and> \<bar>dig_P9 c\<bar> \<le> 32768"

lemma sdiv_bound:
  assumes "\<bar>t\<bar> \<le> Q * Y" "0 < Y" "Y \<le> (y :: int)" "0 \<le> Q"
  shows "\<bar>t sdiv y\<bar> \<le> Q"
proof -
  have "\<bar>t sdiv y\<bar> \<le> \<bar>t\<bar> div y"
    using assms(2,3) by (cases "t = 0") (auto simp: signed_divide_int_def abs_mult abs_sgn_eq pos_imp_zdiv_nonneg_iff)
  also have "\<dots> \<le> \<bar>t\<bar> div Y" using assms(2,3) by (intro zdiv_mono2) auto
  also have "\<dots> \<le> Q * Y div Y" using assms(1,2) by (intro zdiv_mono1) auto
  finally show ?thesis using assms(2) by simp
qed

lemma pressure64_x2_bound:
  assumes "\<bar>x1\<bar> \<le> 332800" "\<bar>dig_P4 c\<bar> \<le> 8192" "\<bar>dig_P5 c\<bar> \<le> 1024" "\<bar>dig_P6 c\<bar> \<le> 128"
  shows "pressure64_x2 c x1 = Some (x1 * x1 * dig_P6 c + x1 * dig_P5 c * 2 ^ 17 + dig_P4 c * 2 ^ 35)
    \<and> \<bar>x1 * x1 * dig_P6 c + x1 * dig_P5 c * 2 ^ 17 + dig_P4 c * 2 ^ 35\<bar> \<le> 341000000000000"
proof -
  have q: "\<bar>x1 * x1\<bar> \<le> 110755840000" using abs_mult_le [OF assms(1,1)] by simp
  have a: "\<bar>x1 * x1 * dig_P6 c\<bar> \<le> 14176747520000" using abs_mult_le [OF q assms(4)] by simp
  have b: "\<bar>x1 * dig_P5 c\<bar> \<le> 340787200" using abs_mult_le [OF assms(1,3)] by simp
  show ?thesis using q a b assms(2) by (simp add: pressure64_x2_def chk64_in)
qed

lemma pressure64_x1_bound:
  assumes "\<bar>x1\<bar> \<le> 332800" "25000 \<le> dig_P1 c" "dig_P1 c \<le> 40000" "\<bar>dig_P2 c\<bar> \<le> 16384" "\<bar>dig_P3 c\<bar> \<le> 8192"
  shows "\<exists>v. pressure64_x1 c x1 = Some v \<and> 333000000 \<le> v
    \<and> v = drop_bit 33 ((2 ^ 47 + (drop_bit 8 (x1 * x1 * dig_P3 c) + x1 * dig_P2 c * 4096)) * dig_P1 c)"
proof -
  have q: "\<bar>x1 * x1\<bar> \<le> 110755840000" using abs_mult_le [OF assms(1,1)] by simp
  have a: "\<bar>x1 * x1 * dig_P3 c\<bar> \<le> 907311841280000" using abs_mult_le [OF q assms(5)] by simp
  then have a2: "\<bar>drop_bit 8 (x1 * x1 * dig_P3 c)\<bar> \<le> 3544186880000" by (intro abs_shr_le) simp
  have b: "\<bar>x1 * dig_P2 c\<bar> \<le> 5452595200" using abs_mult_le [OF assms(1,4)] by simp
  define s where "s = drop_bit 8 (x1 * x1 * dig_P3 c) + x1 * dig_P2 c * 4096"
  have s: "\<bar>s\<bar> \<le> 25879000000000" using a2 b by (simp add: s_def)
  have u: "(2 ^ 47 + s) * dig_P1 c \<le> 166616488355328 * 40000" "114858488355328 * 25000 \<le> (2 ^ 47 + s) * dig_P1 c"
    using s assms(2,3) by (intro mult_mono; simp)+
  then have v: "333000000 \<le> drop_bit 33 ((2 ^ 47 + s) * dig_P1 c)" by (simp add: drop_bit_eq_div)
  have "chk64 ((2 ^ 47 + s) * dig_P1 c) = Some ((2 ^ 47 + s) * dig_P1 c)"
    using u by (intro chk64_in) simp
  then show ?thesis using q a b a2 s v by (simp add: pressure64_x1_def chk64_in s_def)
qed

lemma pressure64_final_bound:
  assumes "\<bar>p\<bar> \<le> 24500000000" "\<bar>dig_P7 c\<bar> \<le> 32768" "\<bar>dig_P8 c\<bar> \<le> 32768" "\<bar>dig_P9 c\<bar> \<le> 32768"
  shows "\<exists>r. pressure64_final c p = Some (word_of_int r) \<and> \<bar>r\<bar> \<le> 140000000
    \<and> r = drop_bit 8 (p + drop_bit 25 (dig_P9 c * drop_bit 13 p * drop_bit 13 p) + drop_bit 19 (dig_P8 c * p)) + dig_P7 c * 16"
proof -
  have d: "\<bar>drop_bit 13 p\<bar> \<le> 3000000" using assms(1) by (intro abs_shr_le) simp
  have a: "\<bar>dig_P9 c * drop_bit 13 p\<bar> \<le> 98304000000" using abs_mult_le [OF assms(4) d] by simp
  have a2: "\<bar>dig_P9 c * drop_bit 13 p * drop_bit 13 p\<bar> \<le> 294912000000000000" using abs_mult_le [OF a d] by simp
  then have a3: "\<bar>drop_bit 25 (dig_P9 c * drop_bit 13 p * drop_bit 13 p)\<bar> \<le> 8790000000" by (intro abs_shr_le) simp
  have b: "\<bar>dig_P8 c * p\<bar> \<le> 802816000000000" using abs_mult_le [OF assms(3,1)] by simp
  then have b2: "\<bar>drop_bit 19 (dig_P8 c * p)\<bar> \<le> 1532000000" by (intro abs_shr_le) simp
  define s1 where "s1 = p + drop_bit 25 (dig_P9 c * drop_bit 13 p * drop_bit 13 p)"
  have s1: "\<bar>s1\<bar> \<le> 33290000000" using abs_add_le [OF assms(1) a3] by (simp add: s1_def)
  define s where "s = s1 + drop_bit 19 (dig_P8 c * p)"
  have s: "\<bar>s\<bar> \<le> 34822000000" using abs_add_le [OF s1 b2] by (simp add: s_def)
  then have s2: "\<bar>drop_bit 8 s\<bar> \<le> 136100000" by (intro abs_shr_le) simp
  have p7: "\<bar>dig_P7 c * 16\<bar> \<le> 524288" using assms(2) by simp
  have r: "\<bar>drop_bit 8 s + dig_P7 c * 16\<bar> \<le> 136624288" using abs_add_le [OF s2 p7] by simp
  have "pressure64_final c p = Some (word_of_int (drop_bit 8 s + dig_P7 c * 16))"
    using a a2 b s s1 p7 r by (simp add: pressure64_final_def chk64_in flip: s1_def s_def)
  moreover have "\<bar>drop_bit 8 s + dig_P7 c * 16\<bar> \<le> 140000000" using r by linarith
  ultimately show ?thesis unfolding s_def s1_def by blast
qed

text \<open>The formula without any rounding, in 1/256 Pascal.\<close>

definition pressure64_divisor :: "calib_param \<Rightarrow> real" where
  "pressure64_divisor c =
     (let x = real_of_int (t_fine c - 128000) in
      (2 ^ 47 + x * x * real_of_int (dig_P3 c) / 256 + x * real_of_int (dig_P2 c) * 4096) * real_of_int (dig_P1 c) / 2 ^ 33)"

definition pressure64_raw :: "calib_param \<Rightarrow> int \<Rightarrow> real" where
  "pressure64_raw c adc =
     (let x = real_of_int (t_fine c - 128000);
          x2 = x * x * real_of_int (dig_P6 c) + x * real_of_int (dig_P5 c) * 2 ^ 17 + real_of_int (dig_P4 c) * 2 ^ 35
      in ((1048576 - real_of_int adc) * 2 ^ 31 - x2) * 3125 / pressure64_divisor c)"

definition pressure_exact :: "calib_param \<Rightarrow> int \<Rightarrow> real" where
  "pressure_exact c adc =
     (let p = pressure64_raw c adc in
      (p + real_of_int (dig_P9 c) * (p / 2 ^ 13)\<^sup>2 / 2 ^ 25 + real_of_int (dig_P8 c) * p / 2 ^ 19) / 2 ^ 8
        + real_of_int (dig_P7 c) * 16)"

text \<open>The integer divisor is at most \<open>1.01\<close> below the exact one.\<close>

lemma divisor_error:
  assumes "25000 \<le> dig_P1 c" "dig_P1 c \<le> 40000" and x1: "x1 = t_fine c - 128000"
    and v: "v = drop_bit 33 ((2 ^ 47 + (drop_bit 8 (x1 * x1 * dig_P3 c) + x1 * dig_P2 c * 4096)) * dig_P1 c)"
  shows "real_of_int v \<le> pressure64_divisor c" "pressure64_divisor c \<le> real_of_int v + 101 / 100"
proof -
  define q where "q = real_of_int (x1 * x1 * dig_P3 c) / 256 - real_of_int (drop_bit 8 (x1 * x1 * dig_P3 c))"
  have q: "0 \<le> q" "q \<le> 1" using shr_real [where x = "x1 * x1 * dig_P3 c" and k = 8] by (simp_all add: q_def)
  define n where "n = (2 ^ 47 + (drop_bit 8 (x1 * x1 * dig_P3 c) + x1 * dig_P2 c * 4096)) * dig_P1 c"
  have d: "pressure64_divisor c = real_of_int n / 2 ^ 33 + q * real_of_int (dig_P1 c) / 2 ^ 33"
    by (simp add: pressure64_divisor_def Let_def n_def q_def x1 field_simps)
  have P1: "0 \<le> real_of_int (dig_P1 c)" "real_of_int (dig_P1 c) \<le> 40000" using assms(1,2) by linarith+
  have "0 \<le> q * real_of_int (dig_P1 c)" "q * real_of_int (dig_P1 c) \<le> 1 * 40000"
    using q P1 mult_mono [OF q(2) P1(2)] by simp_all
  then have "0 \<le> q * real_of_int (dig_P1 c) / 2 ^ 33" "q * real_of_int (dig_P1 c) / 2 ^ 33 \<le> 1 / 100" by simp_all
  moreover have "real_of_int n / 2 ^ 33 - 1 < real_of_int v" "real_of_int v \<le> real_of_int n / 2 ^ 33"
    using shr_real [where x = n and k = 33] by (simp_all only: v n_def)
  ultimately show "real_of_int v \<le> pressure64_divisor c" "pressure64_divisor c \<le> real_of_int v + 101 / 100"
    unfolding d by linarith+
qed

text \<open>Division towards zero is off by less than one.\<close>

lemma sdiv_real:
  assumes "0 < (y :: int)" shows "\<bar>real_of_int (t sdiv y) - real_of_int t / real_of_int y\<bar> \<le> 1"
proof -
  have f: "\<bar>real_of_int (a div y) - real_of_int a / real_of_int y\<bar> \<le> 1" for a
    using real_of_int_div4 [of a y] real_of_int_div3 [of a y] by linarith
  show ?thesis
  proof (cases "0 \<le> t")
    case True
    then have "t sdiv y = t div y" using assms by (cases "t = 0") (auto simp: signed_divide_int_def)
    then show ?thesis using f [of t] by simp
  next
    case False
    then have "t sdiv y = - ((- t) div y)" using assms by (auto simp: signed_divide_int_def)
    then show ?thesis using f [of "- t"] by simp
  qed
qed

text \<open>A quotient whose divisor is off by at most \<open>1.01\<close>.\<close>

lemma raw_error:
  assumes "\<bar>real_of_int t\<bar> \<le> 24500000000 * real_of_int y" "333000000 \<le> y" "real_of_int y \<le> Y" "Y \<le> real_of_int y + 101 / 100"
  shows "\<bar>real_of_int (t sdiv y) - real_of_int t / Y\<bar> \<le> 76" "\<bar>real_of_int t / Y\<bar> \<le> 24500000000"
proof -
  have y: "0 < real_of_int y" "333000000 \<le> real_of_int y" using assms(2) by linarith+
  have Y: "0 < Y" using y assms(3) by linarith
  have "24500000000 * real_of_int y \<le> 24500000000 * Y" using assms(3) by simp
  then show p: "\<bar>real_of_int t / Y\<bar> \<le> 24500000000"
    using assms(1) Y by (simp add: abs_divide pos_divide_le_eq)
  have e: "real_of_int t / real_of_int y - real_of_int t / Y = real_of_int t / Y * ((Y - real_of_int y) / real_of_int y)"
    using y Y by (simp add: field_simps)
  have "(Y - real_of_int y) / real_of_int y \<le> (101 / 100) / 333000000"
    using assms(4) y by (intro frac_le) linarith+
  then have "\<bar>(Y - real_of_int y) / real_of_int y\<bar> \<le> 101 / 100 / 333000000" using assms(3) y by simp
  from abs_mult_le_real [OF p this] have "\<bar>real_of_int t / Y * ((Y - real_of_int y) / real_of_int y)\<bar> \<le> 75"
    by (rule order_trans) simp
  then have "\<bar>real_of_int t / real_of_int y - real_of_int t / Y\<bar> \<le> 75" unfolding e .
  moreover have "\<bar>real_of_int (t sdiv y) - real_of_int t / real_of_int y\<bar> \<le> 1" using assms(2) by (intro sdiv_real) simp
  ultimately show "\<bar>real_of_int (t sdiv y) - real_of_int t / Y\<bar> \<le> 76" by argo
qed

lemma final_error:
  fixes p :: int and P :: real
  assumes "\<bar>real_of_int p - P\<bar> \<le> 76" "\<bar>p\<bar> \<le> 24500000000" "\<bar>P\<bar> \<le> 24500000000"
    and "\<bar>dig_P8 c\<bar> \<le> 32768" "\<bar>dig_P9 c\<bar> \<le> 32768"
  shows "\<bar>real_of_int (drop_bit 8 (p + drop_bit 25 (dig_P9 c * drop_bit 13 p * drop_bit 13 p) + drop_bit 19 (dig_P8 c * p)))
    - (P + real_of_int (dig_P9 c) * (P / 2 ^ 13)\<^sup>2 / 2 ^ 25 + real_of_int (dig_P8 c) * P / 2 ^ 19) / 2 ^ 8\<bar> \<le> 25"
proof -
  have P8: "\<bar>real_of_int (dig_P8 c)\<bar> \<le> 32768" and P9: "\<bar>real_of_int (dig_P9 c)\<bar> \<le> 32768" using assms(4,5) by linarith+
  define d where "d = real_of_int (drop_bit 13 p)"
  have "real_of_int p / 2 ^ 13 - 1 < d" "d \<le> real_of_int p / 2 ^ 13" using shr_real [where x = p and k = 13] by (simp_all only: d_def)
  moreover have "real_of_int p - P \<le> 76" "P - real_of_int p \<le> 76" using assms(1) by linarith+
  ultimately have d: "\<bar>d - P / 2 ^ 13\<bar> \<le> 101 / 100" by (intro abs_leI; simp)
  have "P \<le> 24500000000" "- P \<le> 24500000000" using assms(3) by linarith+
  moreover have "d - P / 2 ^ 13 \<le> 101 / 100" "P / 2 ^ 13 - d \<le> 101 / 100" using d by linarith+
  ultimately have size: "\<bar>d + P / 2 ^ 13\<bar> \<le> 5990000" by (intro abs_leI; simp)
  have "\<bar>(d - P / 2 ^ 13) * (d + P / 2 ^ 13)\<bar> \<le> 101 / 100 * 5990000" by (rule abs_mult_le_real [OF d size])
  then have "\<bar>d * d - (P / 2 ^ 13)\<^sup>2\<bar> \<le> 6050000" by (simp add: power2_eq_square algebra_simps)
  from abs_mult_le_real [OF P9 this] have "\<bar>real_of_int (dig_P9 c) * (P / 2 ^ 13)\<^sup>2 - real_of_int (dig_P9 c * drop_bit 13 p * drop_bit 13 p)\<bar> \<le> 32768 * 6050000"
    by (simp add: d_def algebra_simps)
  then have a: "\<bar>real_of_int (drop_bit 25 (dig_P9 c * drop_bit 13 p * drop_bit 13 p)) - real_of_int (dig_P9 c) * (P / 2 ^ 13)\<^sup>2 / 2 ^ 25\<bar>
      \<le> 1 + 32768 * 6050000 / 2 ^ 25"
    by - (rule quotient_error [OF _ _ shr_real], simp, assumption)
  have "\<bar>P - real_of_int p\<bar> \<le> 76" using assms(1) by simp
  from abs_mult_le_real [OF P8 this] have "\<bar>real_of_int (dig_P8 c) * P - real_of_int (dig_P8 c * p)\<bar> \<le> 32768 * 76"
    by (simp add: algebra_simps)
  then have b: "\<bar>real_of_int (drop_bit 19 (dig_P8 c * p)) - real_of_int (dig_P8 c) * P / 2 ^ 19\<bar> \<le> 1 + 32768 * 76 / 2 ^ 19"
    by - (rule quotient_error [OF _ _ shr_real], simp, assumption)
  define S where "S = P + real_of_int (dig_P9 c) * (P / 2 ^ 13)\<^sup>2 / 2 ^ 25 + real_of_int (dig_P8 c) * P / 2 ^ 19"
  define s where "s = p + drop_bit 25 (dig_P9 c * drop_bit 13 p * drop_bit 13 p) + drop_bit 19 (dig_P8 c * p)"
  have "\<bar>S - real_of_int s\<bar> \<le> 76 + (1 + 32768 * 6050000 / 2 ^ 25) + (1 + 32768 * 76 / 2 ^ 19)"
    using a b assms(1) unfolding S_def s_def of_int_add by argo
  then have "\<bar>real_of_int (drop_bit 8 s) - S / 2 ^ 8\<bar> \<le> 1 + (76 + (1 + 32768 * 6050000 / 2 ^ 25) + (1 + 32768 * 76 / 2 ^ 19)) / 2 ^ 8"
    by - (rule quotient_error [OF _ _ shr_real], simp, assumption)
  also have "\<dots> \<le> 25" by simp
  finally show ?thesis by (simp only: S_def s_def)
qed

text \<open>C25. Over the whole operating range the 64-bit pressure formula has no signed overflow and never
divides by zero, and its value, in 1/256 Pascal before the cast to \<open>u32\<close>, is within 25 (a tenth of a
Pascal) of the formula without rounding, so the invalid result 0 is not taken; it stays below 140000000
(5.5 bar).\<close>

theorem pressure_int64_defined:
  assumes "pressure_box c adc"
  shows "\<exists>r. bmp280_compensate_pressure_int64 c adc = Some (word_of_int r) \<and> \<bar>r\<bar> \<le> 140000000
    \<and> \<bar>real_of_int r - pressure_exact c adc\<bar> \<le> 25"
proof -
  define x1 where "x1 = t_fine c - 128000"
  have x1: "\<bar>x1\<bar> \<le> 332800" using assms by (auto simp: pressure_box_def x1_def abs_le_iff)
  define x2 where "x2 = x1 * x1 * dig_P6 c + x1 * dig_P5 c * 2 ^ 17 + dig_P4 c * 2 ^ 35"
  have x2: "pressure64_x2 c x1 = Some x2" "\<bar>x2\<bar> \<le> 341000000000000"
    using pressure64_x2_bound [OF x1, of c] assms by (auto simp: pressure_box_def x2_def)
  have P1: "25000 \<le> dig_P1 c" "dig_P1 c \<le> 40000" using assms by (auto simp: pressure_box_def)
  obtain y1 where y1: "pressure64_x1 c x1 = Some y1" "333000000 \<le> y1"
    and y: "y1 = drop_bit 33 ((2 ^ 47 + (drop_bit 8 (x1 * x1 * dig_P3 c) + x1 * dig_P2 c * 4096)) * dig_P1 c)"
    using pressure64_x1_bound [OF x1 P1] assms by (auto simp: pressure_box_def)
  note Y = divisor_error [OF P1 x1_def y]
  define n where "n = 1048576 - adc"
  define t where "t = (n * 2147483648 - x2) * 3125"
  have n: "0 < n" "n \<le> 1048576" using assms by (auto simp: pressure_box_def n_def)
  then have t: "\<bar>t\<bar> \<le> 24500000000 * 333000000" using x2 by (simp add: t_def)
  then have p: "\<bar>t sdiv y1\<bar> \<le> 24500000000" using y1(2) by (intro sdiv_bound) simp_all
  have ty: "\<bar>real_of_int t\<bar> \<le> 24500000000 * real_of_int y1" using t y1(2) by linarith
  have raw: "pressure64_raw c adc = real_of_int t / pressure64_divisor c"
    by (simp add: pressure64_raw_def Let_def t_def n_def x2_def x1_def)
  obtain r where r: "pressure64_final c (t sdiv y1) = Some (word_of_int r)" "\<bar>r\<bar> \<le> 140000000"
    and e: "r = drop_bit 8 (t sdiv y1 + drop_bit 25 (dig_P9 c * drop_bit 13 (t sdiv y1) * drop_bit 13 (t sdiv y1))
      + drop_bit 19 (dig_P8 c * (t sdiv y1))) + dig_P7 c * 16"
    using pressure64_final_bound [OF p, of c] assms by (auto simp: pressure_box_def)
  have "\<bar>real_of_int r - pressure_exact c adc\<bar> \<le> 25"
    using final_error [OF raw_error(1) [OF ty y1(2) Y, folded raw] p raw_error(2) [OF ty y1(2) Y, folded raw], of c] assms
    by (simp add: e pressure_exact_def Let_def pressure_box_def)
  moreover have "chk64 (n * 2147483648) = Some (n * 2147483648)"
    "chk64 (n * 2147483648 - x2) = Some (n * 2147483648 - x2)"
    using n x2 by (intro chk64_in; simp)+
  moreover have "chk64 t = Some t" "div64 t y1 = Some (t sdiv y1)" "chk64 x1 = Some x1"
    using t p x1 y1(2) by (auto simp: div64_def intro!: chk64_in)
  ultimately have "bmp280_compensate_pressure_int64 c adc = Some (word_of_int r)"
    using n x2 y1 r by (simp add: bmp280_compensate_pressure_int64_def chk32_in del: left_diff_distrib_numeral flip: t_def x1_def n_def)
  with r \<open>\<bar>real_of_int r - pressure_exact c adc\<bar> \<le> 25\<close> show ?thesis by blast
qed

lemma pressure_int64_defined_witness:
  "\<exists>r. bmp280_compensate_pressure_int64 (datasheet_calib\<lparr>t_fine := 128422\<rparr>) 415148 = Some (word_of_int r)
    \<and> \<bar>r\<bar> \<le> 140000000 \<and> \<bar>real_of_int r - pressure_exact (datasheet_calib\<lparr>t_fine := 128422\<rparr>) 415148\<bar> \<le> 25"
  by (rule pressure_int64_defined) code_simp

end
