(* ===== verification/Float_Types.thy ===== *)
theory Float_Types
  imports Ieee754
begin

text \<open>
  \<^verbatim>\<open>float\<close> and \<^verbatim>\<open>double\<close> as types with the arithmetic of HOL's classes, so that the formulas of
  the attitude code are written as in C: every operation rounds once to the format (no operation
  is contracted into a fused multiply-add). Then the bit pattern of a \<^verbatim>\<open>float\<close>, which the fast
  inverse square root computes with.
\<close>

section \<open>The types\<close>

datatype f32 = F32 (of_f32: fnum)
datatype f64 = F64 (of_f64: fnum)

instantiation f32 :: "{zero, one, plus, minus, uminus, times, inverse}"
begin
definition zero_f32 :: f32 where "0 = F32 (FFin False 0 0)"
definition one_f32 :: f32 where "1 = F32 (lit binary32 1 1)"
definition plus_f32 :: "f32 \<Rightarrow> f32 \<Rightarrow> f32" where "x + y = F32 (fadd binary32 (of_f32 x) (of_f32 y))"
definition minus_f32 :: "f32 \<Rightarrow> f32 \<Rightarrow> f32" where "x - y = F32 (fsub binary32 (of_f32 x) (of_f32 y))"
definition uminus_f32 :: "f32 \<Rightarrow> f32" where "- x = F32 (fneg (of_f32 x))"
definition times_f32 :: "f32 \<Rightarrow> f32 \<Rightarrow> f32" where "x * y = F32 (fmul binary32 (of_f32 x) (of_f32 y))"
definition divide_f32 :: "f32 \<Rightarrow> f32 \<Rightarrow> f32" where "x div y = F32 (fdiv binary32 (of_f32 x) (of_f32 y))"
definition inverse_f32 :: "f32 \<Rightarrow> f32" where "inverse x = F32 (fdiv binary32 (lit binary32 1 1) (of_f32 x))"
instance ..
end

instantiation f64 :: "{zero, one, plus, minus, uminus, times, inverse}"
begin
definition zero_f64 :: f64 where "0 = F64 (FFin False 0 0)"
definition one_f64 :: f64 where "1 = F64 (lit binary64 1 1)"
definition plus_f64 :: "f64 \<Rightarrow> f64 \<Rightarrow> f64" where "x + y = F64 (fadd binary64 (of_f64 x) (of_f64 y))"
definition minus_f64 :: "f64 \<Rightarrow> f64 \<Rightarrow> f64" where "x - y = F64 (fsub binary64 (of_f64 x) (of_f64 y))"
definition uminus_f64 :: "f64 \<Rightarrow> f64" where "- x = F64 (fneg (of_f64 x))"
definition times_f64 :: "f64 \<Rightarrow> f64 \<Rightarrow> f64" where "x * y = F64 (fmul binary64 (of_f64 x) (of_f64 y))"
definition divide_f64 :: "f64 \<Rightarrow> f64 \<Rightarrow> f64" where "x div y = F64 (fdiv binary64 (of_f64 x) (of_f64 y))"
definition inverse_f64 :: "f64 \<Rightarrow> f64" where "inverse x = F64 (fdiv binary64 (lit binary64 1 1) (of_f64 x))"
instance ..
end

lemmas f32_arith_defs = zero_f32_def one_f32_def plus_f32_def minus_f32_def uminus_f32_def times_f32_def
  divide_f32_def inverse_f32_def
lemmas f64_arith_defs = zero_f64_def one_f64_def plus_f64_def minus_f64_def uminus_f64_def times_f64_def
  divide_f64_def inverse_f64_def

text \<open>Conversions between the two, and of an integer.\<close>

definition f32_of_f64 :: "f64 \<Rightarrow> f32" where "f32_of_f64 x = F32 (fconv binary32 (of_f64 x))"
definition f64_of_f32 :: "f32 \<Rightarrow> f64" where "f64_of_f32 x = F64 (fconv binary64 (of_f32 x))"
definition f32_lit :: "int \<Rightarrow> int \<Rightarrow> f32" where "f32_lit n d = F32 (lit binary32 n d)"
definition f64_lit :: "int \<Rightarrow> int \<Rightarrow> f64" where "f64_lit n d = F64 (lit binary64 n d)"
definition f32_eq :: "f32 \<Rightarrow> f32 \<Rightarrow> bool" where "f32_eq x y = feq (of_f32 x) (of_f32 y)"

section \<open>NaN\<close>

text \<open>A NaN operand makes a NaN.\<close>

abbreviation NaN32 :: f32 where "NaN32 \<equiv> F32 FNaN"

lemma NaN32_arith [simp]:
  "NaN32 + y = NaN32" "x + NaN32 = NaN32" "NaN32 - y = NaN32" "x - NaN32 = NaN32"
  "NaN32 * y = NaN32" "x * NaN32 = NaN32" "- NaN32 = NaN32"
  by (simp_all add: f32_arith_defs)

section \<open>Bit patterns\<close>

definition f32_to_bits :: "f32 \<Rightarrow> u32" where
  "f32_to_bits x =
     (case of_f32 x of
        FNaN \<Rightarrow> 0x7FC00000
      | FInf s \<Rightarrow> (if s then 0xFF800000 else 0x7F800000)
      | FFin s m e \<Rightarrow>
          word_of_int ((if s then 2 ^ 31 else 0)
            + (if m < 2 ^ 23 then m else (e + 150) * 2 ^ 23 + (m - 2 ^ 23))))"

definition f32_of_bits :: "u32 \<Rightarrow> f32" where
  "f32_of_bits w =
     (let s = bit w 31; e = uint (drop_bit 23 w AND 0xFF); m = uint (w AND 0x7FFFFF)
      in F32 (if e = 255 then (if m = 0 then FInf s else FNaN)
              else if e = 0 then FFin s m (if m = 0 then 0 else -149)
              else FFin s (m + 2 ^ 23) (e - 150)))"

lemma bits_test:
  "f32_to_bits (f32_lit 1 1) = 0x3F800000" "f32_to_bits (f32_lit (-2) 1) = 0xC0000000"
  "f32_of_bits 0x3E800000 = f32_lit 1 4" "f32_of_bits 0x5F3759DF = f32_lit 13211836172961054720 1"
  by code_simp+

end
