(* ===== verification/Madgwick.thy ===== *)
theory Madgwick
  imports Float_Types
begin

text \<open>
  The attitude filter \<^verbatim>\<open>granum/madgwick/MadgwickAHRS.c\<close> and its two copies, which differ in
  the sample frequency alone. Its formulas are written once, over any arithmetic with the operators of
  C, and the parts C takes from elsewhere in a record \<open>flops\<close>: literals, the comparison with
  zero, \<open>invSqrt\<close>, \<open>sqrt\<close> and the sample frequency in Hz. The code is the instance at \<^verbatim>\<open>float\<close> (\<open>float_ops\<close>); the instance at
  the real numbers is what the algorithm is meant to compute.
\<close>

section \<open>Arithmetic\<close>

record 'a flops =
  fl_lit :: "int \<Rightarrow> int \<Rightarrow> 'a"
  fl_is_zero :: "'a \<Rightarrow> bool"
  fl_inv_sqrt :: "'a \<Rightarrow> 'a"
  fl_sqrt :: "'a \<Rightarrow> 'a"
  fl_freq :: int

type_synonym 'a vec = "'a \<times> 'a \<times> 'a"
type_synonym 'a quat = "'a \<times> 'a \<times> 'a \<times> 'a"

text \<open>The fast inverse square root. \<open>i >> 1\<close> shifts a signed 32-bit number.\<close>

definition invSqrt :: "f32 \<Rightarrow> f32" where
  "invSqrt x =
     (let halfx = f32_lit 1 2 * x;
          y = x;
          i = f32_to_bits y;
          i = 0x5f3759df - signed_drop_bit 1 i;
          y = f32_of_bits i
      in y * (f32_lit 3 2 - (halfx * y * y)))"

text \<open>\<open>sqrt\<close> of \<^verbatim>\<open>libm\<close> takes and returns a \<^verbatim>\<open>double\<close>: a parameter.\<close>

definition float_ops :: "(f64 \<Rightarrow> f64) \<Rightarrow> f32 flops" where
  "float_ops sqrt =
     \<lparr>fl_lit = f32_lit, fl_is_zero = (\<lambda>x. f32_eq x 0), fl_inv_sqrt = invSqrt,
      fl_sqrt = (\<lambda>x. f32_of_f64 (sqrt (f64_of_f32 x))), fl_freq = 10\<rparr>"

section \<open>The steps of an update\<close>

text \<open>Rate of change of quaternion from gyroscope.\<close>

definition gyro_rate :: "'a flops \<Rightarrow> 'a::{plus,minus,times,uminus} quat \<Rightarrow> 'a vec \<Rightarrow> 'a quat" where
  "gyro_rate A = (\<lambda>(q0, q1, q2, q3) (gx, gy, gz).
     let half = fl_lit A 1 2 in
     (half * (- q1 * gx - q2 * gy - q3 * gz),
      half * (q0 * gx + q2 * gz - q3 * gy),
      half * (q0 * gy - q1 * gz + q3 * gx),
      half * (q0 * gz + q1 * gy - q2 * gx)))"

definition normalise3 :: "'a flops \<Rightarrow> 'a::{plus,times} vec \<Rightarrow> 'a vec" where
  "normalise3 A = (\<lambda>(ax, ay, az).
     let recipNorm = fl_inv_sqrt A (ax * ax + ay * ay + az * az)
     in (ax * recipNorm, ay * recipNorm, az * recipNorm))"

definition normalise4 :: "'a flops \<Rightarrow> 'a::{plus,times} quat \<Rightarrow> 'a quat" where
  "normalise4 A = (\<lambda>(s0, s1, s2, s3).
     let recipNorm = fl_inv_sqrt A (s0 * s0 + s1 * s1 + s2 * s2 + s3 * s3)
     in (s0 * recipNorm, s1 * recipNorm, s2 * recipNorm, s3 * recipNorm))"

text \<open>Apply feedback step.\<close>

definition feedback :: "'a::{minus,times} \<Rightarrow> 'a quat \<Rightarrow> 'a quat \<Rightarrow> 'a quat" where
  "feedback beta = (\<lambda>(qDot1, qDot2, qDot3, qDot4) (s0, s1, s2, s3).
     (qDot1 - beta * s0, qDot2 - beta * s1, qDot3 - beta * s2, qDot4 - beta * s3))"

text \<open>Integrate rate of change of quaternion; \<open>1.0f / sampleFreq\<close> is the literal's correctly rounded value.\<close>

definition integrate :: "'a flops \<Rightarrow> 'a::{plus,times} quat \<Rightarrow> 'a quat \<Rightarrow> 'a quat" where
  "integrate A = (\<lambda>(q0, q1, q2, q3) (qDot1, qDot2, qDot3, qDot4).
     let dt = fl_lit A 1 (fl_freq A) in
     (q0 + qDot1 * dt, q1 + qDot2 * dt, q2 + qDot3 * dt, q3 + qDot4 * dt))"

definition is_zero3 :: "'a flops \<Rightarrow> 'a vec \<Rightarrow> bool" where
  "is_zero3 A = (\<lambda>(x, y, z). fl_is_zero A x \<and> fl_is_zero A y \<and> fl_is_zero A z)"

section \<open>The corrective step without the magnetometer\<close>

definition imu_step :: "'a flops \<Rightarrow> 'a::{plus,minus,times,uminus} quat \<Rightarrow> 'a vec \<Rightarrow> 'a quat" where
  "imu_step A = (\<lambda>(q0, q1, q2, q3) (ax, ay, az).
     let two = fl_lit A 2 1; four = fl_lit A 4 1; eight = fl_lit A 8 1;
         d2q0 = two * q0; d2q1 = two * q1; d2q2 = two * q2; d2q3 = two * q3;
         d4q0 = four * q0; d4q1 = four * q1; d4q2 = four * q2; d8q1 = eight * q1; d8q2 = eight * q2;
         q0q0 = q0 * q0; q1q1 = q1 * q1; q2q2 = q2 * q2; q3q3 = q3 * q3
     in (d4q0 * q2q2 + d2q2 * ax + d4q0 * q1q1 - d2q1 * ay,
         d4q1 * q3q3 - d2q3 * ax + four * q0q0 * q1 - d2q0 * ay - d4q1 + d8q1 * q1q1 + d8q1 * q2q2 + d4q1 * az,
         four * q0q0 * q2 + d2q0 * ax + d4q2 * q3q3 - d2q3 * ay - d4q2 + d8q2 * q1q1 + d8q2 * q2q2 + d4q2 * az,
         four * q1q1 * q3 - d2q1 * ax + four * q2q2 * q3 - d2q2 * ay))"

definition MadgwickAHRSupdateIMU ::
  "'a flops \<Rightarrow> 'a::{plus,minus,times,uminus} \<Rightarrow> 'a vec \<Rightarrow> 'a vec \<Rightarrow> 'a quat \<Rightarrow> 'a quat" where
  "MadgwickAHRSupdateIMU A beta g a q =
     (let qDot = gyro_rate A q g;
          qDot = (if \<not> is_zero3 A a
                  then feedback beta qDot (normalise4 A (imu_step A q (normalise3 A a)))
                  else qDot)
      in normalise4 A (integrate A q qDot))"

section \<open>The corrective step with the magnetometer\<close>

text \<open>Reference direction of Earth's magnetic field: the horizontal part and the vertical part of
  the measured field turned into the earth frame.\<close>

definition earth_field :: "'a flops \<Rightarrow> 'a::{plus,minus,times,uminus} quat \<Rightarrow> 'a vec \<Rightarrow> 'a \<times> 'a" where
  "earth_field A = (\<lambda>(q0, q1, q2, q3) (mx, my, mz).
     let two = fl_lit A 2 1;
         d2q0mx = two * q0 * mx; d2q0my = two * q0 * my; d2q0mz = two * q0 * mz; d2q1mx = two * q1 * mx;
         d2q1 = two * q1; d2q2 = two * q2;
         q0q0 = q0 * q0; q1q1 = q1 * q1; q2q2 = q2 * q2; q3q3 = q3 * q3;
         hx = mx * q0q0 - d2q0my * q3 + d2q0mz * q2 + mx * q1q1 + d2q1 * my * q2 + d2q1 * mz * q3 - mx * q2q2 - mx * q3q3;
         hy = d2q0mx * q3 + my * q0q0 - d2q0mz * q1 + d2q1mx * q2 - my * q1q1 + my * q2q2 + d2q2 * mz * q3 - my * q3q3
     in (fl_sqrt A (hx * hx + hy * hy),
         - d2q0mx * q2 + d2q0my * q1 + mz * q0q0 + d2q1mx * q3 - mz * q1q1 + d2q2 * my * q3 - mz * q2q2 + mz * q3q3))"

text \<open>The gradient, with \<open>bx\<close> and \<open>bz\<close> for \<^verbatim>\<open>_2bx\<close> and \<^verbatim>\<open>_2bz\<close>.\<close>

definition ahrs_step ::
  "'a flops \<Rightarrow> 'a::{plus,minus,times,uminus} quat \<Rightarrow> 'a vec \<Rightarrow> 'a vec \<Rightarrow> 'a \<times> 'a \<Rightarrow> 'a quat" where
  "ahrs_step A = (\<lambda>(q0, q1, q2, q3) (ax, ay, az) (mx, my, mz) (bx, bz).
     let half = fl_lit A 1 2; one = fl_lit A 1 1; two = fl_lit A 2 1; four = fl_lit A 4 1;
         d2q0 = two * q0; d2q1 = two * q1; d2q2 = two * q2; d2q3 = two * q3;
         d2q0q2 = two * q0 * q2; d2q2q3 = two * q2 * q3;
         q0q1 = q0 * q1; q0q2 = q0 * q2; q0q3 = q0 * q3; q1q1 = q1 * q1; q1q2 = q1 * q2;
         q1q3 = q1 * q3; q2q2 = q2 * q2; q2q3 = q2 * q3; q3q3 = q3 * q3;
         d4bx = two * bx; d4bz = two * bz
     in (- d2q2 * (two * q1q3 - d2q0q2 - ax) + d2q1 * (two * q0q1 + d2q2q3 - ay)
           - bz * q2 * (bx * (half - q2q2 - q3q3) + bz * (q1q3 - q0q2) - mx)
           + (- bx * q3 + bz * q1) * (bx * (q1q2 - q0q3) + bz * (q0q1 + q2q3) - my)
           + bx * q2 * (bx * (q0q2 + q1q3) + bz * (half - q1q1 - q2q2) - mz),
         d2q3 * (two * q1q3 - d2q0q2 - ax) + d2q0 * (two * q0q1 + d2q2q3 - ay)
           - four * q1 * (one - two * q1q1 - two * q2q2 - az)
           + bz * q3 * (bx * (half - q2q2 - q3q3) + bz * (q1q3 - q0q2) - mx)
           + (bx * q2 + bz * q0) * (bx * (q1q2 - q0q3) + bz * (q0q1 + q2q3) - my)
           + (bx * q3 - d4bz * q1) * (bx * (q0q2 + q1q3) + bz * (half - q1q1 - q2q2) - mz),
         - d2q0 * (two * q1q3 - d2q0q2 - ax) + d2q3 * (two * q0q1 + d2q2q3 - ay)
           - four * q2 * (one - two * q1q1 - two * q2q2 - az)
           + (- d4bx * q2 - bz * q0) * (bx * (half - q2q2 - q3q3) + bz * (q1q3 - q0q2) - mx)
           + (bx * q1 + bz * q3) * (bx * (q1q2 - q0q3) + bz * (q0q1 + q2q3) - my)
           + (bx * q0 - d4bz * q2) * (bx * (q0q2 + q1q3) + bz * (half - q1q1 - q2q2) - mz),
         d2q1 * (two * q1q3 - d2q0q2 - ax) + d2q2 * (two * q0q1 + d2q2q3 - ay)
           + (- d4bx * q3 + bz * q1) * (bx * (half - q2q2 - q3q3) + bz * (q1q3 - q0q2) - mx)
           + (- bx * q0 + bz * q2) * (bx * (q1q2 - q0q3) + bz * (q0q1 + q2q3) - my)
           + bx * q1 * (bx * (q0q2 + q1q3) + bz * (half - q1q1 - q2q2) - mz)))"

definition MadgwickAHRSupdate ::
  "'a flops \<Rightarrow> 'a::{plus,minus,times,uminus} \<Rightarrow> 'a vec \<Rightarrow> 'a vec \<Rightarrow> 'a vec \<Rightarrow> 'a quat \<Rightarrow> 'a quat" where
  "MadgwickAHRSupdate A beta g a m q =
     (if is_zero3 A m then MadgwickAHRSupdateIMU A beta g a q
      else
        let qDot = gyro_rate A q g;
            qDot = (if \<not> is_zero3 A a then
                      let a' = normalise3 A a; m' = normalise3 A m
                      in feedback beta qDot (normalise4 A (ahrs_step A q a' m' (earth_field A q m')))
                    else qDot)
        in normalise4 A (integrate A q qDot))"

section \<open>The copies\<close>

text \<open>\<^verbatim>\<open>research/Madgwick\<close> runs at 200 Hz, \<^verbatim>\<open>granum/mavlink_test\<close> at 50 Hz; their files are otherwise the same.\<close>

definition float_ops_200 :: "(f64 \<Rightarrow> f64) \<Rightarrow> f32 flops" where
  "float_ops_200 sqrt = (float_ops sqrt)\<lparr>fl_freq := 200\<rparr>"

definition float_ops_50 :: "(f64 \<Rightarrow> f64) \<Rightarrow> f32 flops" where
  "float_ops_50 sqrt = (float_ops sqrt)\<lparr>fl_freq := 50\<rparr>"

definition MadgwickAHRSupdate_200 where "MadgwickAHRSupdate_200 sqrt = MadgwickAHRSupdate (float_ops_200 sqrt)"
definition MadgwickAHRSupdateIMU_200 where "MadgwickAHRSupdateIMU_200 sqrt = MadgwickAHRSupdateIMU (float_ops_200 sqrt)"
definition MadgwickAHRSupdate_50 where "MadgwickAHRSupdate_50 sqrt = MadgwickAHRSupdate (float_ops_50 sqrt)"
definition MadgwickAHRSupdateIMU_50 where "MadgwickAHRSupdateIMU_50 sqrt = MadgwickAHRSupdateIMU (float_ops_50 sqrt)"

end
