(* ===== verification/Madgwick_Gradient.thy ===== *)
theory Madgwick_Gradient
  imports Madgwick Complex_Main
begin

text \<open>
  What the unrolled formulas of the attitude filter are: over the real numbers, the corrective
  steps of both updates are the gradients of the squared distance between the measured directions
  and those the quaternion predicts, the gyroscope term is half a quaternion product, and an
  update ends with a unit quaternion. Over \<^verbatim>\<open>float\<close>, a NaN never leaves the quaternion.
\<close>

section \<open>The reals as arithmetic\<close>

definition real_ops :: "real flops" where
  "real_ops = \<lparr>fl_lit = (\<lambda>n d. of_int n / of_int d), fl_is_zero = (\<lambda>x. x = 0),
     fl_inv_sqrt = (\<lambda>x. 1 / sqrt x), fl_sqrt = sqrt, fl_freq = 10\<rparr>"

lemma real_ops_simps [simp]:
  "fl_lit real_ops n d = of_int n / of_int d" "fl_is_zero real_ops x \<longleftrightarrow> x = 0"
  "fl_inv_sqrt real_ops x = 1 / sqrt x" "fl_sqrt real_ops x = sqrt x"
  "fl_freq real_ops = 10"
  by (simp_all add: real_ops_def)

section \<open>The error functions\<close>

text \<open>The direction of gravity in the sensor frame that \<open>q\<close> predicts, against the measured one.\<close>

definition gravity_residual :: "real quat \<Rightarrow> real vec \<Rightarrow> real vec" where
  "gravity_residual = (\<lambda>(q0, q1, q2, q3) (ax, ay, az).
     (2 * (q1 * q3 - q0 * q2) - ax, 2 * (q0 * q1 + q2 * q3) - ay, 2 * (1 / 2 - q1\<^sup>2 - q2\<^sup>2) - az))"

text \<open>The same for a magnetic field with parts \<open>bx\<close> and \<open>bz\<close>.\<close>

definition field_residual :: "real quat \<Rightarrow> real \<times> real \<Rightarrow> real vec \<Rightarrow> real vec" where
  "field_residual = (\<lambda>(q0, q1, q2, q3) (bx, bz) (mx, my, mz).
     (bx * (1 / 2 - q2\<^sup>2 - q3\<^sup>2) + bz * (q1 * q3 - q0 * q2) - mx,
      bx * (q1 * q2 - q0 * q3) + bz * (q0 * q1 + q2 * q3) - my,
      bx * (q0 * q2 + q1 * q3) + bz * (1 / 2 - q1\<^sup>2 - q2\<^sup>2) - mz))"

definition half_square :: "real vec \<Rightarrow> real" where
  "half_square = (\<lambda>(x, y, z). (x\<^sup>2 + y\<^sup>2 + z\<^sup>2) / 2)"

definition imu_error :: "real vec \<Rightarrow> real quat \<Rightarrow> real" where
  "imu_error a q = half_square (gravity_residual q a)"

definition ahrs_error :: "real vec \<Rightarrow> real vec \<Rightarrow> real \<times> real \<Rightarrow> real quat \<Rightarrow> real" where
  "ahrs_error a m b q = half_square (gravity_residual q a) + half_square (field_residual q b m)"

text \<open>\<open>g\<close> is the gradient of \<open>E\<close> at \<open>q\<close>: its entries are the four partial derivatives.\<close>

definition is_gradient :: "(real quat \<Rightarrow> real) \<Rightarrow> real quat \<Rightarrow> real quat \<Rightarrow> bool" where
  "is_gradient E = (\<lambda>(q0, q1, q2, q3) (s0, s1, s2, s3).
     ((\<lambda>x. E (x, q1, q2, q3)) has_real_derivative s0) (at q0) \<and>
     ((\<lambda>x. E (q0, x, q2, q3)) has_real_derivative s1) (at q1) \<and>
     ((\<lambda>x. E (q0, q1, x, q3)) has_real_derivative s2) (at q2) \<and>
     ((\<lambda>x. E (q0, q1, q2, x)) has_real_derivative s3) (at q3))"

lemmas error_defs = imu_error_def ahrs_error_def half_square_def gravity_residual_def field_residual_def

text \<open>C18. The unrolled correction of \<open>MadgwickAHRSupdateIMU\<close> is, over the reals, exactly the gradient
  of the squared gravity error at the current quaternion: every one of its four optimised
  expressions is the partial derivative it stands for.\<close>

theorem imu_step_is_gradient: "is_gradient (imu_error a) q (imu_step real_ops q a)"
proof -
  obtain q0 q1 q2 q3 where q: "q = (q0, q1, q2, q3)" by (cases q) auto
  obtain ax ay az where a: "a = (ax, ay, az)" by (cases a) auto
  show ?thesis
    unfolding is_gradient_def q a error_defs imu_step_def Let_def prod.case real_ops_simps
    by (intro conjI; auto intro!: derivative_eq_intros simp: field_simps power2_eq_square)
qed

text \<open>C17. With the magnetometer: for any field direction the correction of \<open>MadgwickAHRSupdate\<close> is the
  gradient of the squared error of gravity and field together.\<close>

theorem ahrs_step_is_gradient: "is_gradient (ahrs_error a m b) q (ahrs_step real_ops q a m b)"
proof -
  obtain q0 q1 q2 q3 where q: "q = (q0, q1, q2, q3)" by (cases q) auto
  obtain ax ay az where a: "a = (ax, ay, az)" by (cases a) auto
  obtain mx my mz where m: "m = (mx, my, mz)" by (cases m) auto
  obtain bx bz where b: "b = (bx, bz)" by (cases b) auto
  show ?thesis
    unfolding is_gradient_def q a m b error_defs ahrs_step_def Let_def prod.case real_ops_simps
    by (intro conjI; auto intro!: derivative_eq_intros simp: field_simps power2_eq_square)
qed

section \<open>Unit quaternions\<close>

fun quat_norm2 :: "real quat \<Rightarrow> real" where
  "quat_norm2 (q0, q1, q2, q3) = q0\<^sup>2 + q1\<^sup>2 + q2\<^sup>2 + q3\<^sup>2"

lemma normalise4_unit:
  assumes "quat_norm2 q \<noteq> 0"
  shows "quat_norm2 (normalise4 real_ops q) = 1"
proof (cases q)
  case (fields q0 q1 q2 q3)
  let ?n = "q0 * q0 + q1 * q1 + q2 * q2 + q3 * q3"
  have n: "?n \<noteq> 0" "0 \<le> ?n" using assms fields by (auto simp: power2_eq_square)
  then have "(1 / sqrt ?n)\<^sup>2 = 1 / ?n" by (simp add: power_divide)
  moreover have "quat_norm2 (normalise4 real_ops q) = ?n * (1 / sqrt ?n)\<^sup>2"
    unfolding fields normalise4_def Let_def by (simp add: power_mult_distrib algebra_simps) (simp add: power2_eq_square)
  ultimately show ?thesis using n by simp
qed

text \<open>So an update ends with a unit quaternion, unless the integration gave zero.\<close>

lemma update_unit:
  "\<exists>qDot. let q' = MadgwickAHRSupdate real_ops beta g a m q in
     q' = normalise4 real_ops (integrate real_ops q qDot) \<and>
     (quat_norm2 (integrate real_ops q qDot) \<noteq> 0 \<longrightarrow> quat_norm2 q' = 1)"
proof -
  obtain qDot where "MadgwickAHRSupdate real_ops beta g a m q = normalise4 real_ops (integrate real_ops q qDot)"
    unfolding MadgwickAHRSupdate_def MadgwickAHRSupdateIMU_def Let_def by (cases "is_zero3 real_ops m") simp_all
  then show ?thesis unfolding Let_def by (metis normalise4_unit)
qed

lemma normalise4_of_unit: "quat_norm2 q = 1 \<Longrightarrow> normalise4 real_ops q = q"
  by (cases q) (simp add: normalise4_def Let_def power2_eq_square)

text \<open>The direction of gravity that \<open>q\<close> predicts is a unit vector.\<close>

definition predicted_gravity :: "real quat \<Rightarrow> real vec" where
  "predicted_gravity = (\<lambda>(q0, q1, q2, q3).
     (2 * (q1 * q3 - q0 * q2), 2 * (q0 * q1 + q2 * q3), 2 * (1 / 2 - q1\<^sup>2 - q2\<^sup>2)))"

lemma predicted_gravity_residual: "gravity_residual q (predicted_gravity q) = (0, 0, 0)"
  by (cases q) (simp add: gravity_residual_def predicted_gravity_def)

text \<open>The correction is a combination of the residuals, so it vanishes with them.\<close>

lemma imu_step_residual:
  assumes "gravity_residual (q0, q1, q2, q3) (ax, ay, az) = (f1, f2, f3)"
  shows "imu_step real_ops (q0, q1, q2, q3) (ax, ay, az) =
     (- 2 * q2 * f1 + 2 * q1 * f2, 2 * q3 * f1 + 2 * q0 * f2 - 4 * q1 * f3,
      - 2 * q0 * f1 + 2 * q3 * f2 - 4 * q2 * f3, 2 * q1 * f1 + 2 * q2 * f2)"
proof -
  have f: "f1 = 2 * (q1 * q3 - q0 * q2) - ax" "f2 = 2 * (q0 * q1 + q2 * q3) - ay" "f3 = 2 * (1 / 2 - q1\<^sup>2 - q2\<^sup>2) - az"
    using assms by (auto simp: gravity_residual_def)
  show ?thesis unfolding f by (simp add: imu_step_def Let_def algebra_simps power2_eq_square)
qed

lemma predicted_gravity_unit:
  assumes "quat_norm2 q = 1"
  shows "normalise3 real_ops (predicted_gravity q) = predicted_gravity q"
proof (cases q)
  case (fields q0 q1 q2 q3)
  obtain x y z where p: "predicted_gravity q = (x, y, z)" by (cases "predicted_gravity q") auto
  have xyz: "x = 2 * (q1 * q3 - q0 * q2)" "y = 2 * (q0 * q1 + q2 * q3)" "z = 2 * (1 / 2 - q1\<^sup>2 - q2\<^sup>2)"
    using p fields by (auto simp: predicted_gravity_def)
  have q0: "q0\<^sup>2 = 1 - q1\<^sup>2 - q2\<^sup>2 - q3\<^sup>2" using assms fields by simp
  have "x * x + y * y + z * z = 1 + 4 * (q1\<^sup>2 + q2\<^sup>2) * (q0\<^sup>2 + q1\<^sup>2 + q2\<^sup>2 + q3\<^sup>2 - 1)"
    unfolding xyz by algebra
  then have "x * x + y * y + z * z = 1" using q0 by simp
  then show ?thesis unfolding p by (simp add: normalise3_def)
qed

text \<open>Over the reals the filter without magnetometer is at rest where it should be: at a unit
  quaternion, with no rotation measured and gravity (of any strength) where the quaternion
  predicts it, an update changes nothing.\<close>

theorem imu_update_real:
  assumes "quat_norm2 q = 1" "0 < k" "predicted_gravity q = (x, y, z)"
  shows "MadgwickAHRSupdateIMU real_ops beta (0, 0, 0) (k * x, k * y, k * z) q = q"
proof -
  obtain q0 q1 q2 q3 where q: "q = (q0, q1, q2, q3)" by (cases q) auto
  have n: "normalise3 real_ops (x, y, z) = (x, y, z)" using predicted_gravity_unit [OF assms(1)] assms(3) by simp
  have "k * x * (k * x) + k * y * (k * y) + k * z * (k * z) = k\<^sup>2 * (x * x + y * y + z * z)"
    by (simp add: power2_eq_square algebra_simps)
  then have "sqrt (k * x * (k * x) + k * y * (k * y) + k * z * (k * z)) = k * sqrt (x * x + y * y + z * z)"
    using assms(2) by (simp add: real_sqrt_mult)
  then have m: "normalise3 real_ops (k * x, k * y, k * z) = (x, y, z)"
    using n assms(2) by (simp add: normalise3_def Let_def field_simps)
  have "imu_step real_ops q (x, y, z) = (0, 0, 0, 0)"
    using imu_step_residual [of q0 q1 q2 q3 x y z 0 0 0] predicted_gravity_residual [of q] assms(3) q by simp
  then have s: "normalise4 real_ops (imu_step real_ops q (x, y, z)) = (0, 0, 0, 0)"
    by (simp add: normalise4_def Let_def)
  have "integrate real_ops q (0, 0, 0, 0) = q" by (simp add: q integrate_def Let_def)
  then show ?thesis using m s normalise4_of_unit [OF assms(1)]
    by (auto simp: MadgwickAHRSupdateIMU_def q gyro_rate_def feedback_def Let_def)
qed

lemma imu_update_real_witness:
  "MadgwickAHRSupdateIMU real_ops (1 / 10) (0, 0, 0) (2 * 0, 2 * 0, 2 * 1) (1, 0, 0, 0) = (1, 0, 0, 0)"
  by (rule imu_update_real) (simp_all add: predicted_gravity_def)

section \<open>NaN\<close>

definition has_nan :: "f32 quat \<Rightarrow> bool" where
  "has_nan = (\<lambda>(q0, q1, q2, q3). q0 = NaN32 \<or> q1 = NaN32 \<or> q2 = NaN32 \<or> q3 = NaN32)"

lemma invSqrt_NaN [simp]: "invSqrt NaN32 = NaN32"
  by (simp add: invSqrt_def Let_def)

lemma normalise4_nan: "has_nan q \<Longrightarrow> normalise4 (float_ops sq) q = (NaN32, NaN32, NaN32, NaN32)"
  by (cases q) (auto simp: has_nan_def normalise4_def float_ops_def Let_def)

lemma integrate_nan: "has_nan q \<Longrightarrow> has_nan (integrate (float_ops sq) q d)"
  by (cases q; cases d) (auto simp: has_nan_def integrate_def Let_def)

text \<open>C35. The float filter never recovers from a NaN: once one component of the quaternion is a NaN,
  the next update makes all four NaN, whatever the sensors deliver, with or without a
  magnetometer, so the attitude is lost for the rest of the flight (there is no reset).\<close>

theorem madgwick_nan_absorbing:
  assumes "has_nan q"
  shows "MadgwickAHRSupdate (float_ops sq) beta g a m q = (NaN32, NaN32, NaN32, NaN32)"
  using normalise4_nan [OF integrate_nan [OF assms]]
  by (simp add: MadgwickAHRSupdate_def MadgwickAHRSupdateIMU_def Let_def)

lemma madgwick_nan_absorbing_witness:
  "MadgwickAHRSupdate (float_ops id) (f32_lit 10 1) (0, 0, 0) (0, 0, 1) (0, 0, 0) (1, 0, NaN32, 0)
    = (NaN32, NaN32, NaN32, NaN32)"
  by (rule madgwick_nan_absorbing) (simp add: has_nan_def)

end
