(* ===== verification/Float_Error.thy ===== *)
theory Float_Error
  imports Float_Types Complex_Main
begin

text \<open>
  The value of a floating-point number and the error of an operation: a result in the normal range
  is off the exact one by at most half a unit in the last place, that is by a factor of at most
  \<open>2 ^ - p\<close> for a precision of \<open>p\<close> bits.
\<close>

section \<open>Values\<close>

text \<open>\<open>fpos f x a\<close>: \<open>x\<close> is a positive normal number of the format, of value \<open>a\<close>.\<close>

definition fpos :: "ffmt \<Rightarrow> fnum \<Rightarrow> real \<Rightarrow> bool" where
  "fpos f x a \<longleftrightarrow>
     (\<exists>m e. x = FFin False m e \<and> 2 ^ (fprec f - 1) \<le> m \<and> m < 2 ^ fprec f \<and> femin f \<le> e \<and> e \<le> femax f
        \<and> a = of_int m * 2 powi e)"

text \<open>The range in which rounding neither underflows nor overflows.\<close>

definition in_range :: "ffmt \<Rightarrow> real \<Rightarrow> bool" where
  "in_range f a \<longleftrightarrow> 2 powi (femin f + int (fprec f) - 1) \<le> a \<and> a < 2 powi (femax f + int (fprec f) - 1)"

definition ulp_half :: "ffmt \<Rightarrow> real" where "ulp_half f = 2 powi (- int (fprec f))"

lemma fpos_positive: "fpos f x a \<Longrightarrow> 0 < a"
  by (auto simp: fpos_def intro!: mult_pos_pos) (smt (verit) zero_less_power)

section \<open>Rounding\<close>

lemma bitlen_bounds: "0 < n \<Longrightarrow> 2 ^ nat (bitlen n - 1) \<le> n \<and> n < 2 ^ nat (bitlen n) \<and> 1 \<le> bitlen n"
proof (induction n rule: bitlen.induct)
  case (1 n)
  show ?case
  proof (cases "n div 2 = 0")
    case True
    with 1 have "n = 1" by presburger
    then show ?thesis by (simp add: bitlen.simps)
  next
    case False
    with 1 have "0 < n div 2" by presburger
    with 1 have i: "2 ^ nat (bitlen (n div 2) - 1) \<le> n div 2" "n div 2 < 2 ^ nat (bitlen (n div 2))" "1 \<le> bitlen (n div 2)"
      by auto
    have b: "bitlen n = 1 + bitlen (n div 2)" using 1 by (subst bitlen.simps) simp
    define k where "k = nat (bitlen (n div 2) - 1)"
    have k: "nat (bitlen n - 1) = Suc k" "nat (bitlen n) = Suc (Suc k)" "nat (bitlen (n div 2)) = Suc k"
      using i(3) b by (simp_all add: k_def nat_diff_distrib)
    from i k have "2 ^ k \<le> n div 2" "n div 2 < 2 ^ Suc k" by (simp_all add: k_def)
    then have "2 * 2 ^ k \<le> n" "n < 2 * 2 ^ Suc k" by linarith+
    then show ?thesis using k b i(3) by simp
  qed
qed

lemma bitlen_real:
  assumes "0 < n"
  shows "2 powi (bitlen n - 1) \<le> real_of_int n" "real_of_int n < 2 powi (bitlen n)"
proof -
  have b: "2 ^ nat (bitlen n - 1) \<le> n" "n < 2 ^ nat (bitlen n)" "1 \<le> bitlen n" using bitlen_bounds [OF assms] by auto
  have "real_of_int (2 ^ nat (bitlen n - 1)) \<le> of_int n" "of_int n < real_of_int (2 ^ nat (bitlen n))"
    using b by (simp_all only: of_int_le_iff of_int_less_iff)
  then show "2 powi (bitlen n - 1) \<le> real_of_int n" "real_of_int n < 2 powi (bitlen n)"
    using b(3) by (simp_all add: power_int_def)
qed

lemma scale_ratio_value:
  assumes "0 < d" "scale_ratio n d e = (n1, d1)"
  shows "of_int n1 / of_int d1 = (of_int n / of_int d) * (2 powi (- e) :: real)" "0 < d1"
  using assms by (auto simp: scale_ratio_def power_int_def field_simps split: if_splits)

lemma ratio_of_value:
  assumes "ratio_of m e = (n, d)"
  shows "of_int n / of_int d = (of_int m * 2 powi e :: real)" "0 < d"
  using assms by (auto simp: ratio_of_def power_int_def field_simps split: if_splits)

lemma rne_error:
  assumes "0 < d"
  shows "\<bar>of_int (rne n d) - of_int n / of_int d\<bar> \<le> (1 / 2 :: real)"
proof -
  define q r where "q = n div d" and "r = n mod d"
  have nqr: "n = q * d + r" and r: "0 \<le> r" "r < d" using assms by (simp_all add: q_def r_def)
  have "of_int n / of_int d = (of_int q + of_int r / of_int d :: real)"
    using assms by (simp add: nqr field_simps)
  moreover have "rne n d = q \<and> 2 * r \<le> d \<or> rne n d = q + 1 \<and> d \<le> 2 * r"
    by (auto simp: rne_def Let_def q_def r_def)
  moreover have "of_int r / of_int d \<le> (1 / 2 :: real)" if "2 * r \<le> d"
    using that assms by (simp add: field_simps)
  moreover have "(1 / 2 :: real) \<le> of_int r / of_int d" if "d \<le> 2 * r"
    using that assms by (simp add: field_simps)
  moreover have "of_int r / of_int d < (1 :: real)" "(0 :: real) \<le> of_int r / of_int d"
    using r assms by (simp_all add: field_simps)
  ultimately show ?thesis by (auto simp: abs_le_iff)
qed

lemma round_exp_normal:
  assumes n: "0 < n" and d: "0 < d" and p: "0 < fprec f"
    and lo: "2 powi (femin f + int (fprec f) - 1) \<le> (of_int n / of_int d :: real)"
  defines "e \<equiv> round_exp f n d"
  shows "femin f \<le> e"
    and "2 powi (int (fprec f) - 1) \<le> (of_int n / of_int d :: real) * 2 powi (- e)"
    and "(of_int n / of_int d :: real) * 2 powi (- e) < 2 powi int (fprec f)"
proof -
  define r :: real where "r = of_int n / of_int d"
  define P where "P = int (fprec f)"
  define k where "k = bitlen n - bitlen d - P"
  define e0 where "e0 = max (femin f) k"
  obtain n0 d0 where nd: "scale_ratio n d e0 = (n0, d0)" by (cases "scale_ratio n d e0")
  have v0: "of_int n0 / of_int d0 = r * 2 powi (- e0)" "0 < d0"
    using scale_ratio_value [OF d nd] by (simp_all add: r_def)
  have rpos: "0 < r" using n d by (simp add: r_def)
  have rlo: "2 powi (k + P - 1) < r"
  proof -
    have "2 powi (bitlen n - 1) / 2 powi (bitlen d) < r"
      unfolding r_def using bitlen_real [OF n] bitlen_real [OF d] n d by (intro frac_less2) auto
    then show ?thesis by (simp add: k_def power_int_diff [symmetric] algebra_simps)
  qed
  have rhi: "r < 2 powi (k + P + 1)"
  proof -
    have "r < 2 powi (bitlen n) / 2 powi (bitlen d - 1)"
      unfolding r_def using bitlen_real [OF n] bitlen_real [OF d] n d by (intro frac_less) auto
    then show ?thesis by (simp add: k_def power_int_diff [symmetric] algebra_simps)
  qed
  have e: "e = (if n0 < d0 * 2 ^ fprec f then e0 else e0 + 1)"
    using nd by (simp add: e_def round_exp_def Let_def e0_def k_def P_def)
  have cmp: "n0 < d0 * 2 ^ fprec f \<longleftrightarrow> r * 2 powi (- e0) < 2 powi P"
  proof -
    have "n0 < d0 * 2 ^ fprec f \<longleftrightarrow> real_of_int n0 < of_int (d0 * 2 ^ fprec f)" by (simp only: of_int_less_iff)
    also have "\<dots> \<longleftrightarrow> of_int n0 / of_int d0 < (2 powi P :: real)" using v0(2) by (simp add: field_simps P_def)
    finally show ?thesis by (simp add: v0)
  qed
  show "femin f \<le> e" by (auto simp: e e0_def)
  have scale: "2 powi a \<le> r \<longleftrightarrow> 2 powi (a + b) \<le> r * 2 powi b" "r < 2 powi a \<longleftrightarrow> r * 2 powi b < 2 powi (a + b)" for a b
    by (simp_all add: power_int_add)
  have e0lo: "2 powi (P - 1) \<le> r * 2 powi (- e0)"
    using scale(1) [of "e0 + P - 1" "- e0"] rlo lo by (auto simp: e0_def r_def P_def max_def algebra_simps)
  show "2 powi (int (fprec f) - 1) \<le> (of_int n / of_int d :: real) * 2 powi (- e)"
  proof (cases "r * 2 powi (- e0) < 2 powi P")
    case True
    with e0lo show ?thesis by (simp add: e cmp r_def P_def)
  next
    case False
    then have "2 powi (e0 + P) \<le> r" using scale(1) [of "e0 + P" "- e0"] by simp
    then have "2 powi (P - 1) \<le> r * 2 powi (- (e0 + 1))" using scale(1) [of "e0 + P" "- (e0 + 1)"] by simp
    with False show ?thesis by (simp add: e cmp r_def P_def)
  qed
  show "(of_int n / of_int d :: real) * 2 powi (- e) < 2 powi int (fprec f)"
  proof (cases "r * 2 powi (- e0) < 2 powi P")
    case True
    then show ?thesis by (simp add: e cmp r_def P_def)
  next
    case False
    have "r < 2 powi (e0 + 1 + P)"
      using rhi power_int_increasing [of "k + P + 1" "e0 + 1 + P" "2 :: real"] by (simp add: e0_def)
    then have "r * 2 powi (- (e0 + 1)) < 2 powi P" using scale(2) [of "e0 + 1 + P" "- (e0 + 1)"] by simp
    with False show ?thesis by (simp add: e cmp r_def P_def)
  qed
qed

theorem fround_error:
  assumes n: "0 < n" and d: "0 < d" and p: "1 < fprec f" and range: "in_range f (of_int n / of_int d)"
  shows "\<exists>m e. fround f s n d = FFin s m e \<and> fpos f (FFin False m e) (of_int m * 2 powi e)
    \<and> \<bar>of_int m * 2 powi e - of_int n / of_int d\<bar> \<le> ulp_half f * (of_int n / of_int d)"
proof -
  define r :: real where "r = of_int n / of_int d"
  define e where "e = round_exp f n d"
  have lo: "2 powi (femin f + int (fprec f) - 1) \<le> (of_int n / of_int d :: real)"
    and hi: "r < 2 powi (femax f + int (fprec f) - 1)"
    using range by (auto simp: in_range_def r_def)
  have p0: "0 < fprec f" using p by simp
  then obtain P' where P': "fprec f = Suc P'" by (cases "fprec f") auto
  note re = round_exp_normal [OF n d p0 lo, folded e_def r_def]
  obtain n1 d1 where nd: "scale_ratio n d e = (n1, d1)" by (cases "scale_ratio n d e")
  define v :: real where "v = r * 2 powi (- e)"
  have v: "of_int n1 / of_int d1 = v" "0 < d1"
    using scale_ratio_value [OF d nd] by (simp_all add: r_def v_def)
  have rv: "r = v * 2 powi e" by (simp add: v_def power_int_minus)
  define q where "q = rne n1 d1"
  have qv: "\<bar>of_int q - v\<bar> \<le> 1 / 2" using rne_error [OF v(2), of n1] by (simp add: q_def v)
  have vlo: "2 ^ (fprec f - 1) \<le> v" using re(2) p0 by (simp add: v_def power_int_def nat_diff_distrib)
  have vhi: "v < 2 ^ fprec f" using re(3) by (simp add: v_def)
  have qv': "v - 1 / 2 \<le> of_int q" "of_int q \<le> v + 1 / 2" using qv by linarith+
  have "real_of_int (2 ^ (fprec f - 1)) \<le> v" using vlo by simp
  then have "real_of_int (2 ^ (fprec f - 1)) - 1 / 2 \<le> of_int q" using qv' by linarith
  then have q1: "2 ^ (fprec f - 1) \<le> q" by linarith
  have "v < real_of_int (2 ^ fprec f)" using vhi by simp
  then have "of_int q < real_of_int (2 ^ fprec f) + 1" using qv' by linarith
  then have q2: "q \<le> 2 ^ fprec f" by linarith
  have "e < femax f"
  proof -
    have "2 powi (e + (int (fprec f) - 1)) \<le> v * 2 powi e" using re(2) by (simp add: v_def power_int_add mult.commute)
    also have "\<dots> < 2 powi (femax f + (int (fprec f) - 1))" using hi rv by (simp add: algebra_simps)
    finally have "\<not> femax f + (int (fprec f) - 1) \<le> e + (int (fprec f) - 1)"
      using power_int_increasing [of "femax f + (int (fprec f) - 1)" "e + (int (fprec f) - 1)" "2 :: real"] by linarith
    then show ?thesis by simp
  qed
  have err: "\<bar>of_int q * 2 powi e - r\<bar> \<le> ulp_half f * r"
  proof -
    have "\<bar>of_int q * 2 powi e - r\<bar> = \<bar>of_int q - v\<bar> * 2 powi e"
      unfolding rv by (simp add: abs_mult left_diff_distrib [symmetric])
    also have "\<dots> \<le> 1 / 2 * 2 powi e" using qv by (intro mult_right_mono) auto
    also have "\<dots> \<le> (ulp_half f * v) * 2 powi e"
    proof -
      have "ulp_half f = inverse (2 ^ Suc P')"
        unfolding ulp_half_def P' power_int_minus power_int_of_nat ..
      then have "ulp_half f * 2 ^ (fprec f - 1) = 1 / 2" by (simp only: P') (simp add: field_simps)
      then have "1 / 2 \<le> ulp_half f * v" using vlo by (metis mult_left_mono ulp_half_def zero_le_numeral zero_le_power_int)
      then show ?thesis by (intro mult_right_mono) auto
    qed
    also have "\<dots> = ulp_half f * r" by (simp add: rv)
    finally show ?thesis .
  qed
  have big: "(2 :: int) ^ (fprec f - 1) \<noteq> 0" "(2 :: int) ^ (fprec f - 1) < 2 ^ fprec f" using p0 by simp_all
  show ?thesis
  proof (cases "q = 2 ^ fprec f")
    case True
    have same: "real_of_int (2 ^ (fprec f - 1)) * 2 powi (e + 1) = of_int q * 2 powi e"
      by (simp add: True P' power_int_add)
    have "fround f s n d = FFin s (2 ^ (fprec f - 1)) (e + 1)"
      using n nd True \<open>e < femax f\<close> big by (simp add: fround_def Let_def e_def q_def)
    moreover have "fpos f (FFin False (2 ^ (fprec f - 1)) (e + 1)) (of_int (2 ^ (fprec f - 1)) * 2 powi (e + 1))"
      using big \<open>e < femax f\<close> re(1) by (auto simp: fpos_def)
    moreover have "\<bar>of_int (2 ^ (fprec f - 1)) * 2 powi (e + 1) - r\<bar> \<le> ulp_half f * r"
      by (simp only: same err)
    ultimately show ?thesis unfolding r_def by blast
  next
    case False
    have "q \<noteq> 0" using q1 big by auto
    then have "fround f s n d = FFin s q e"
      using n nd False \<open>e < femax f\<close> by (simp add: fround_def Let_def e_def q_def)
    moreover have "fpos f (FFin False q e) (of_int q * 2 powi e)"
      using q1 q2 False \<open>e < femax f\<close> re(1) by (auto simp: fpos_def)
    ultimately show ?thesis using err unfolding r_def by blast
  qed
qed

section \<open>Operations\<close>

lemma fpos_FFin: "fpos f x a \<Longrightarrow> \<exists>m e. x = FFin False m e \<and> 0 < m \<and> a = of_int m * 2 powi e"
  by (auto simp: fpos_def) (smt (verit) zero_less_power)

lemma ratio_positive: "0 < d \<Longrightarrow> 0 < (of_int n / of_int d :: real) \<Longrightarrow> 0 < n"
  by (simp add: zero_less_divide_iff)

text \<open>Multiplication of positive numbers.\<close>

lemma fmul_error:
  assumes "fpos f x a" "fpos f y b" "1 < fprec f" "in_range f (a * b)"
  shows "\<exists>c. fpos f (fmul f x y) c \<and> \<bar>c - a * b\<bar> \<le> ulp_half f * (a * b)"
proof -
  obtain m1 e1 where x: "x = FFin False m1 e1" "0 < m1" "a = of_int m1 * 2 powi e1" using fpos_FFin [OF assms(1)] by blast
  obtain m2 e2 where y: "y = FFin False m2 e2" "0 < m2" "b = of_int m2 * 2 powi e2" using fpos_FFin [OF assms(2)] by blast
  obtain n d where nd: "ratio_of (m1 * m2) (e1 + e2) = (n, d)" by (cases "ratio_of (m1 * m2) (e1 + e2)")
  have v: "of_int n / of_int d = a * b" "0 < d"
    using ratio_of_value [OF nd] by (simp_all add: x y power_int_add)
  have "0 < n" using ratio_positive [OF v(2), of n] v fpos_positive [OF assms(1)] fpos_positive [OF assms(2)] by simp
  from fround_error [OF this v(2) assms(3), of False] assms(4)
  obtain m e where "fround f False n d = FFin False m e" "fpos f (FFin False m e) (of_int m * 2 powi e)"
    "\<bar>of_int m * 2 powi e - a * b\<bar> \<le> ulp_half f * (a * b)"
    unfolding v by blast
  then show ?thesis using nd by (auto simp: x y)
qed

text \<open>Subtraction with a positive result.\<close>

lemma signed_at_value:
  "k \<le> e \<Longrightarrow> real_of_int (signed_at k s m e) * 2 powi k = (if s then -1 else 1) * (of_int m * 2 powi e)"
  by (simp add: signed_at_def power_int_def field_simps flip: power_add) arith

lemma fsub_error:
  assumes "fpos f x a" "fpos f y b" "1 < fprec f" "in_range f (a - b)" "b < a"
  shows "\<exists>c. fpos f (fsub f x y) c \<and> \<bar>c - (a - b)\<bar> \<le> ulp_half f * (a - b)"
proof -
  obtain m1 e1 where x: "x = FFin False m1 e1" "0 < m1" "a = of_int m1 * 2 powi e1" using fpos_FFin [OF assms(1)] by blast
  obtain m2 e2 where y: "y = FFin False m2 e2" "0 < m2" "b = of_int m2 * 2 powi e2" using fpos_FFin [OF assms(2)] by blast
  define k where "k = min e1 e2"
  define v where "v = signed_at k False m1 e1 + signed_at k True m2 e2"
  have v: "of_int v * 2 powi k = a - b"
    using signed_at_value [of k e1 False m1] signed_at_value [of k e2 True m2]
    by (simp add: v_def x y k_def distrib_right)
  then have "0 < v" using assms(5) by (smt (verit) of_int_le_0_iff mult_nonpos_nonneg zero_le_power_int)
  obtain n d where nd: "ratio_of v k = (n, d)" by (cases "ratio_of v k")
  have w: "of_int n / of_int d = a - b" "0 < d" using ratio_of_value [OF nd] by (simp_all add: v)
  have "0 < n" using ratio_positive [OF w(2), of n] w assms(5) by simp
  from fround_error [OF this w(2) assms(3), of False] assms(4)
  obtain m e where "fround f False n d = FFin False m e" "fpos f (FFin False m e) (of_int m * 2 powi e)"
    "\<bar>of_int m * 2 powi e - (a - b)\<bar> \<le> ulp_half f * (a - b)"
    unfolding w by blast
  then show ?thesis using nd \<open>0 < v\<close> by (auto simp: fsub_def x y Let_def fround_int_def v_def [symmetric] k_def [symmetric])
qed

end
