(* ===== verification/Inv_Sqrt.thy ===== *)
theory Inv_Sqrt
  imports Madgwick Float_Error
begin

text \<open>
  The accuracy of the fast inverse square root of the attitude filter. The bit trick gives a first
  guess within 3.5 percent of \<open>1 / sqrt x\<close>; one step of Newton's iteration brings it within 0.18
  percent, the roundings of its five operations included. So a "normalised" quaternion of the
  filter has a length within that of one.
\<close>

section \<open>The bits\<close>

definition normal32 :: "int \<Rightarrow> int \<Rightarrow> bool" where
  "normal32 m e \<longleftrightarrow> 2 ^ 23 \<le> m \<and> m < 2 ^ 24 \<and> -149 \<le> e \<and> e \<le> 104"

lemma f32_to_bits_normal:
  "normal32 m e \<Longrightarrow> f32_to_bits (F32 (FFin False m e)) = word_of_int ((e + 150) * 2 ^ 23 + (m - 2 ^ 23))"
  by (simp add: f32_to_bits_def normal32_def)

lemma sint_small: "0 \<le> i \<Longrightarrow> i < 2 ^ 31 \<Longrightarrow> sint (word_of_int i :: u32) = i"
  by (simp add: sint_sbintrunc' signed_take_bit_int_eq_self)

lemma shift_right: "0 \<le> i \<Longrightarrow> i < 2 ^ 31 \<Longrightarrow> signed_drop_bit 1 (word_of_int i :: u32) = word_of_int (i div 2)"
proof (rule signed_word_eqI)
  assume i: "0 \<le> i" "i < 2 ^ 31"
  have "sint (signed_drop_bit 1 (word_of_int i :: u32)) = drop_bit 1 i"
    unfolding sint_signed_drop_bit_eq sint_small [OF i] ..
  also have "\<dots> = i div 2" by (simp add: drop_bit_eq_div)
  also have "\<dots> = sint (word_of_int (i div 2) :: u32)" using i by (subst sint_small) auto
  finally show "sint (signed_drop_bit 1 (word_of_int i :: u32)) = sint (word_of_int (i div 2) :: u32)" .
qed

lemma f32_of_bits_normal:
  assumes "0 \<le> j" "j < 2 ^ 31" "1 \<le> j div 2 ^ 23" "j div 2 ^ 23 \<le> 254"
  shows "f32_of_bits (word_of_int j) = F32 (FFin False (j mod 2 ^ 23 + 2 ^ 23) (j div 2 ^ 23 - 150))"
proof -
  have tb: "take_bit 32 j = j" using assms by (simp add: take_bit_int_eq_self)
  have u: "uint (word_of_int j :: u32) = j" using assms by (simp add: uint_word_of_int)
  have "bit (word_of_int j :: u32) 31 \<longleftrightarrow> bit (uint (word_of_int j :: u32)) 31" by (simp only: bit_uint_iff) simp
  then have "\<not> bit (word_of_int j :: u32) 31" using assms unfolding u by (simp add: bit_iff_odd)
  moreover have "uint (drop_bit 23 (word_of_int j :: u32) AND 0xFF) = j div 2 ^ 23"
  proof -
    have "uint (drop_bit 23 (word_of_int j :: u32) AND mask 8) = take_bit 8 (drop_bit 23 j)"
      by (simp add: take_bit_eq_mask [symmetric] unsigned_take_bit_eq unsigned_drop_bit_eq u tb del: uint_word_of_int)
    also have "\<dots> = j div 2 ^ 23" using assms by (simp add: drop_bit_eq_div take_bit_eq_mod)
    finally show ?thesis by (simp add: mask_numeral)
  qed
  moreover have "uint ((word_of_int j :: u32) AND 0x7FFFFF) = j mod 2 ^ 23"
  proof -
    have "uint ((word_of_int j :: u32) AND mask 23) = take_bit 23 j"
      by (simp add: take_bit_eq_mask [symmetric] unsigned_take_bit_eq u del: uint_word_of_int)
    also have "\<dots> = j mod 2 ^ 23" by (simp add: take_bit_eq_mod)
    finally show ?thesis by (simp add: mask_numeral)
  qed
  ultimately show ?thesis using assms(3,4) by (simp add: f32_of_bits_def Let_def)
qed

section \<open>The first guess\<close>

text \<open>The product \<open>a\<^sup>2 b\<close> of the mantissas of guess and argument is \<open>2 a\<^sup>2 (K - a)\<close>, for \<open>b = 2 (K - a)\<close>.\<close>

lemma hump_top:
  assumes "0 \<le> a" "0 \<le> (K :: real)"
  shows "a\<^sup>2 * (K - a) \<le> 4 * K ^ 3 / 27"
proof -
  have "4 * K ^ 3 / 27 - a\<^sup>2 * (K - a) = (a - 2 * K / 3)\<^sup>2 * (a + K / 3)"
    by (simp add: field_simps power2_eq_square power3_eq_cube)
  also have "0 \<le> \<dots>" using assms by simp
  finally show ?thesis by simp
qed

lemma hump_side:
  assumes "lo \<le> a" "a \<le> hi" "lo < hi" "(K :: real) \<le> a + lo + hi"
    and "L \<le> lo\<^sup>2 * (K - lo)" "L \<le> hi\<^sup>2 * (K - hi)"
  shows "L \<le> a\<^sup>2 * (K - a)"
proof -
  have "(hi - lo) * (a\<^sup>2 * (K - a))
      = (hi - a) * (lo\<^sup>2 * (K - lo)) + (a - lo) * (hi\<^sup>2 * (K - hi)) + (hi - lo) * ((a - lo) * (hi - a) * (a + lo + hi - K))"
    by (simp add: field_simps power2_eq_square)
  also have "\<dots> \<ge> (hi - a) * L + (a - lo) * L + 0"
    using assms by (intro add_mono mult_left_mono mult_nonneg_nonneg) auto
  finally have "(hi - lo) * L \<le> (hi - lo) * (a\<^sup>2 * (K - a))" by (simp add: algebra_simps)
  with assms(3) show ?thesis by simp
qed

text \<open>The three shapes of the guess: even exponent without and with a borrow, odd exponent. \<open>K0\<close> is the
constant of the shape, \<open>K\<close> exceeds it by at most one bit.\<close>

definition magic_c :: real where "magic_c = 3627487 / 8388608"

lemma shape_A:
  assumes "3 / 2 + magic_c \<le> K" "K \<le> 3 / 2 + magic_c + 1 / 16777216" "1 \<le> a" "a \<le> K - 1 / 2"
  shows "9324 / 10000 \<le> a\<^sup>2 * (K - a)" "a\<^sup>2 * (K - a) \<le> 10692 / 10000"
proof -
  have K: "1932429 / 1000000 \<le> K" "K \<le> 1932431 / 1000000" using assms by (simp_all add: magic_c_def)
  show "9324 / 10000 \<le> a\<^sup>2 * (K - a)"
  proof (rule hump_side [where lo = 1 and hi = "K - 1 / 2"])
    have "9324 / 10000 \<le> (14 / 10 :: real)\<^sup>2 / 2" by (simp add: power2_eq_square)
    also have "\<dots> \<le> (K - 1 / 2)\<^sup>2 / 2" using K by (intro divide_right_mono power_mono) auto
    also have "\<dots> = (K - 1 / 2)\<^sup>2 * (K - (K - 1 / 2))" by simp
    finally show "9324 / 10000 \<le> (K - 1 / 2)\<^sup>2 * (K - (K - 1 / 2))" .
  qed (use assms K in auto)
  have "a\<^sup>2 * (K - a) \<le> 4 * K ^ 3 / 27" using assms K by (intro hump_top) auto
  also have "\<dots> \<le> 4 * (1932431 / 1000000) ^ 3 / 27" using K by (intro divide_right_mono mult_left_mono power_mono) auto
  also have "\<dots> \<le> 10692 / 10000" by (simp add: power3_eq_cube)
  finally show "a\<^sup>2 * (K - a) \<le> 10692 / 10000" .
qed

lemma shape_B:
  assumes "5 / 2 + magic_c \<le> K" "K \<le> 5 / 2 + magic_c + 1 / 16777216" "K - 1 \<le> a" "a \<le> 2"
  shows "9324 / 10000 \<le> a\<^sup>2 * (K - a) / 4" "a\<^sup>2 * (K - a) / 4 \<le> 10692 / 10000"
proof -
  have K: "2932429 / 1000000 \<le> K" "K \<le> 2932431 / 1000000" using assms by (simp_all add: magic_c_def)
  have "4 * 9324 / 10000 \<le> a\<^sup>2 * (K - a)"
  proof (rule hump_side [where lo = "K - 1" and hi = 2])
    have "(1932 / 1000)\<^sup>2 \<le> (K - 1)\<^sup>2" using K by (intro power_mono) auto
    then show "4 * 9324 / 10000 \<le> (K - 1)\<^sup>2 * (K - (K - 1))" by (simp add: power2_eq_square)
  qed (use assms K in auto)
  then show "9324 / 10000 \<le> a\<^sup>2 * (K - a) / 4" by simp
  have "a\<^sup>2 * (K - a) \<le> 4 * K ^ 3 / 27" using assms K by (intro hump_top) auto
  also have "\<dots> \<le> 4 * (2932431 / 1000000) ^ 3 / 27" using K by (intro divide_right_mono mult_left_mono power_mono) auto
  also have "\<dots> \<le> 4 * (10692 / 10000)" by (simp add: power3_eq_cube)
  finally show "a\<^sup>2 * (K - a) / 4 \<le> 10692 / 10000" by (simp add: mult.commute)
qed

lemma shape_C:
  assumes "2 + magic_c \<le> K" "K \<le> 2 + magic_c + 1 / 16777216" "K - 1 \<le> a" "a \<le> K - 1 / 2"
  shows "9324 / 10000 \<le> a\<^sup>2 * (K - a) / 2" "a\<^sup>2 * (K - a) / 2 \<le> 10692 / 10000"
proof -
  have K: "2432429 / 1000000 \<le> K" "K \<le> 2432431 / 1000000" using assms by (simp_all add: magic_c_def)
  have "2 * 9324 / 10000 \<le> a\<^sup>2 * (K - a)"
  proof (rule hump_side [where lo = "K - 1" and hi = "K - 1 / 2"])
    have "(1432 / 1000)\<^sup>2 \<le> (K - 1)\<^sup>2" using K by (intro power_mono) auto
    then show "2 * 9324 / 10000 \<le> (K - 1)\<^sup>2 * (K - (K - 1))" by (simp add: power2_eq_square)
    have "(1932 / 1000)\<^sup>2 \<le> (K - 1 / 2)\<^sup>2" using K by (intro power_mono) auto
    then show "2 * 9324 / 10000 \<le> (K - 1 / 2)\<^sup>2 * (K - (K - 1 / 2))" by (simp add: power2_eq_square)
  qed (use assms K in auto)
  then show "9324 / 10000 \<le> a\<^sup>2 * (K - a) / 2" by simp
  have "a\<^sup>2 * (K - a) \<le> 4 * K ^ 3 / 27" using assms K by (intro hump_top) auto
  also have "\<dots> \<le> 4 * (2432431 / 1000000) ^ 3 / 27" using K by (intro divide_right_mono mult_left_mono power_mono) auto
  also have "\<dots> \<le> 2 * (10692 / 10000)" by (simp add: power3_eq_cube)
  finally show "a\<^sup>2 * (K - a) / 2 \<le> 10692 / 10000" by (simp add: mult.commute)
qed

text \<open>The guess, for the bits \<open>i\<close> of the argument.\<close>

definition guess_bits :: "int \<Rightarrow> int" where "guess_bits i = 0x5f3759df - i div 2"

lemma guess_parts:
  assumes "0 \<le> f" "f < 2 ^ 23" "1 \<le> E" "E \<le> 254"
  defines "j \<equiv> guess_bits (E * 2 ^ 23 + f)" and "F \<equiv> f div 2"
  shows "E = 2 * k \<Longrightarrow> F \<le> 3627487 \<Longrightarrow> j div 2 ^ 23 = 190 - k \<and> j mod 2 ^ 23 = 3627487 - F"
    and "E = 2 * k \<Longrightarrow> 3627487 < F \<Longrightarrow> j div 2 ^ 23 = 189 - k \<and> j mod 2 ^ 23 = 2 ^ 23 + 3627487 - F"
    and "E = 2 * k + 1 \<Longrightarrow> j div 2 ^ 23 = 189 - k \<and> j mod 2 ^ 23 = 2 ^ 23 - 566817 - F"
proof -
  have F: "0 \<le> F" "F < 4194304" using assms by auto
  have parts: "x = q * 2 ^ 23 + r \<Longrightarrow> 0 \<le> r \<Longrightarrow> r < 2 ^ 23 \<Longrightarrow> x div 2 ^ 23 = q \<and> x mod 2 ^ 23 = r" for x q r :: int
    by (simp add: div_pos_pos_trivial mod_pos_pos_trivial)
  show "E = 2 * k \<Longrightarrow> F \<le> 3627487 \<Longrightarrow> j div 2 ^ 23 = 190 - k \<and> j mod 2 ^ 23 = 3627487 - F"
    by (rule parts) (use F in \<open>simp_all add: j_def guess_bits_def F_def\<close>)
  show "E = 2 * k \<Longrightarrow> 3627487 < F \<Longrightarrow> j div 2 ^ 23 = 189 - k \<and> j mod 2 ^ 23 = 2 ^ 23 + 3627487 - F"
    by (rule parts) (use F in \<open>simp_all add: j_def guess_bits_def F_def\<close>)
  show "E = 2 * k + 1 \<Longrightarrow> j div 2 ^ 23 = 189 - k \<and> j mod 2 ^ 23 = 2 ^ 23 - 566817 - F"
  proof (rule parts)
    assume E: "E = 2 * k + 1"
    have "(E * 2 ^ 23 + f) div 2 = k * 2 ^ 23 + 2 ^ 22 + F" unfolding E F_def by simp
    then show "j = (189 - k) * 2 ^ 23 + (2 ^ 23 - 566817 - F)" by (simp add: j_def guess_bits_def)
  qed (use F in simp_all)
qed

lemma square_product:
  "(of_int (R + 2 ^ 23) * 2 powi (G - 150))\<^sup>2 * (of_int m * 2 powi e)
   = (of_int (R + 2 ^ 23) / 8388608)\<^sup>2 * (of_int m / 8388608) * (2 powi (2 * G + (e + 150) - 381) :: real)"
proof -
  have "(2 powi (G - 150))\<^sup>2 * 2 powi e = (2 powi (2 * G + (e + 150) - 381 - 69) :: real)"
    by (simp add: power2_eq_square power_int_add [symmetric] algebra_simps)
  also have "\<dots> = 2 powi (2 * G + (e + 150) - 381) / 2 ^ 69"
    by (subst power_int_diff) simp_all
  finally have h: "(2 powi (G - 150))\<^sup>2 * 2 powi e = (2 powi (2 * G + (e + 150) - 381) / 2 ^ 69 :: real)" .
  have "(x * 2 powi (G - 150))\<^sup>2 * (z * 2 powi e) = x\<^sup>2 * z * ((2 powi (G - 150))\<^sup>2 * 2 powi e)" for x z :: real
    by (simp add: power_mult_distrib)
  moreover have "x\<^sup>2 * z * (t / 2 ^ 69) = (x / 8388608)\<^sup>2 * (z / 8388608) * t" for x z t :: real
    by (simp add: power_divide)
  ultimately show ?thesis unfolding h by (rule trans)
qed

lemma first_guess:
  assumes "normal32 m e"
  defines "j \<equiv> guess_bits ((e + 150) * 2 ^ 23 + (m - 2 ^ 23))"
  defines "y \<equiv> of_int (j mod 2 ^ 23 + 2 ^ 23) * (2 powi (j div 2 ^ 23 - 150) :: real)"
  shows "9324 / 10000 \<le> y\<^sup>2 * (of_int m * 2 powi e)" "y\<^sup>2 * (of_int m * 2 powi e) \<le> 10692 / 10000"
    and "62 \<le> j div 2 ^ 23 \<and> j div 2 ^ 23 \<le> 190"
proof -
  define E f F where "E = e + 150" and "f = m - 2 ^ 23" and "F = f div 2"
  have f: "0 \<le> f" "f < 2 ^ 23" "1 \<le> E" "E \<le> 254" using assms(1) by (auto simp: normal32_def E_def f_def)
  have j: "j = guess_bits (E * 2 ^ 23 + f)" by (simp add: j_def E_def f_def)
  define a b where "a = of_int (j mod 2 ^ 23 + 2 ^ 23) / (8388608 :: real)" and "b = of_int m / (8388608 :: real)"
  have yX: "y\<^sup>2 * (of_int m * 2 powi e) = a\<^sup>2 * b * 2 powi (2 * (j div 2 ^ 23) + E - 381)"
    unfolding y_def a_def b_def E_def by (rule square_product)
  define K where "K = a + b / 2"
  have Eb: "0 \<le> E div 2" "E div 2 \<le> 127" using f by auto
  have bK: "b = 2 * (K - a)" by (simp add: K_def)
  have b: "1 \<le> b" "b < 2" using assms(1) by (simp_all add: b_def normal32_def)
  have F: "2 * F \<le> f" "f \<le> 2 * F + 1" by (auto simp: F_def)
  have mf: "real_of_int m = of_int f + 8388608" by (simp add: f_def)
  have rF: "2 * real_of_int F \<le> of_int f" "real_of_int f \<le> 2 * of_int F + 1"
    using F by linarith+
  have "E = 2 * (E div 2) \<or> E = 2 * (E div 2) + 1" by presburger
  then consider (A) "E = 2 * (E div 2)" "F \<le> 3627487" | (B) "E = 2 * (E div 2)" "3627487 < F" | (C) "E = 2 * (E div 2) + 1"
    by linarith
  then have "9324 / 10000 \<le> y\<^sup>2 * (of_int m * 2 powi e) \<and> y\<^sup>2 * (of_int m * 2 powi e) \<le> 10692 / 10000
      \<and> 62 \<le> j div 2 ^ 23 \<and> j div 2 ^ 23 \<le> 190"
  proof cases
    case A
    from guess_parts(1) [OF f A [unfolded F_def]] have p: "j div 2 ^ 23 = 190 - E div 2" "j mod 2 ^ 23 = 3627487 - F"
      by (simp_all add: j F_def)
    have s: "2 * (j div 2 ^ 23) + E - 381 = -1" using p(1) A(1) by linarith
    have "a = (12016095 - of_int F) / 8388608" unfolding a_def p(2) by simp
    then have "3 / 2 + magic_c \<le> K" "K \<le> 3 / 2 + magic_c + 1 / 16777216" "1 \<le> a" "a \<le> K - 1 / 2"
      using rF A(2) b by (simp_all add: K_def b_def mf magic_c_def field_simps)
    from shape_A [OF this] show ?thesis unfolding yX s bK using p(1) Eb by (simp add: power_int_minus algebra_simps)
  next
    case B
    from guess_parts(2) [OF f B [unfolded F_def]] have p: "j div 2 ^ 23 = 189 - E div 2" "j mod 2 ^ 23 = 2 ^ 23 + 3627487 - F"
      by (simp_all add: j F_def)
    have s: "2 * (j div 2 ^ 23) + E - 381 = -3" using p(1) B(1) by linarith
    have "a = (20404703 - of_int F) / 8388608" unfolding a_def p(2) by simp
    then have "5 / 2 + magic_c \<le> K" "K \<le> 5 / 2 + magic_c + 1 / 16777216" "K - 1 \<le> a" "a \<le> 2"
      using rF B(2) b by (simp_all add: K_def b_def mf magic_c_def field_simps)
    from shape_B [OF this] show ?thesis unfolding yX s bK using p(1) Eb by (simp add: power_int_minus algebra_simps)
  next
    case C
    from guess_parts(3) [OF f C] have p: "j div 2 ^ 23 = 189 - E div 2" "j mod 2 ^ 23 = 2 ^ 23 - 566817 - F"
      by (simp_all add: j F_def)
    have s: "2 * (j div 2 ^ 23) + E - 381 = -2" using p(1) C by linarith
    have "a = (16210399 - of_int F) / 8388608" unfolding a_def p(2) by simp
    then have "2 + magic_c \<le> K" "K \<le> 2 + magic_c + 1 / 16777216" "K - 1 \<le> a" "a \<le> K - 1 / 2"
      using rF b by (simp_all add: K_def b_def mf magic_c_def field_simps)
    from shape_C [OF this] show ?thesis unfolding yX s bK using p(1) Eb by (simp add: power_int_minus algebra_simps)
  qed
  then show "9324 / 10000 \<le> y\<^sup>2 * (of_int m * 2 powi e)" "y\<^sup>2 * (of_int m * 2 powi e) \<le> 10692 / 10000"
    and "62 \<le> j div 2 ^ 23 \<and> j div 2 ^ 23 \<le> 190" by auto
qed

section \<open>Newton's step\<close>

lemma in_range32: "in_range binary32 a \<longleftrightarrow> 1 / 2 ^ 126 \<le> a \<and> a < 2 ^ 127"
  by (simp add: in_range_def binary32_def power_int_minus power_int_def field_simps)

lemma ulp32: "ulp_half binary32 = 1 / 2 ^ 24"
  by (simp add: ulp_half_def binary32_def power_int_def field_simps)

lemma in_range_scaled:
  assumes "1 / 2 ^ 63 \<le> S" "S \<le> 2 ^ 64" "1 / 4 \<le> k" "k \<le> 2"
  shows "in_range binary32 k" "in_range binary32 (S * k)" "in_range binary32 (k / S)"
proof -
  have S: "0 < S" using assms(1) by (rule less_le_trans [rotated]) simp
  show "in_range binary32 k" using assms(3,4) by (simp add: in_range32)
  have "(1 / 2 ^ 63) * (1 / 4) \<le> S * k" "S * k \<le> 2 ^ 64 * 2" using assms S by (intro mult_mono; simp)+
  then show "in_range binary32 (S * k)" by (simp add: in_range32)
  have "(1 / 4) / 2 ^ 64 \<le> k / S" "k / S \<le> 2 / (1 / 2 ^ 63)" using assms S by (intro frac_le; simp)+
  moreover have "1 / 2 ^ 126 \<le> (1 / 4) / (2 ^ 64 :: real)" "2 / (1 / 2 ^ 63) < (2 ^ 127 :: real)" by simp_all
  ultimately show "in_range binary32 (k / S)" unfolding in_range32 by linarith
qed

lemma relative:
  assumes "\<bar>c - v\<bar> \<le> u * v" "0 < (v :: real)"
  obtains d where "c = v * (1 + d)" "\<bar>d\<bar> \<le> u"
proof
  show "c = v * (1 + (c - v) / v)" using assms(2) by (simp add: field_simps)
  show "\<bar>(c - v) / v\<bar> \<le> u" using assms by (simp add: abs_divide field_simps)
qed

text \<open>Products of factors close to one.\<close>

lemma near_one:
  assumes "\<bar>d1\<bar> \<le> 1 / 2 ^ 24" "\<bar>d2\<bar> \<le> k / 2 ^ 24" "0 \<le> k" "k \<le> 4"
  shows "\<bar>(1 + d1) * (1 + d2) - 1\<bar> \<le> (k + 1 + 1 / 1000) / (2 ^ 24 :: real)"
proof -
  have "(1 + d1) * (1 + d2) - 1 = d1 + d2 + d1 * d2" by (simp add: algebra_simps)
  moreover have "\<bar>d1 * d2\<bar> \<le> 1 / 2 ^ 24 * (4 / 2 ^ 24)"
    unfolding abs_mult using assms by (intro mult_mono) auto
  ultimately have "\<bar>(1 + d1) * (1 + d2) - 1\<bar> \<le> 1 / 2 ^ 24 + k / 2 ^ 24 + 1 / 2 ^ 24 * (4 / 2 ^ 24)"
    using assms by linarith
  also have "\<dots> \<le> (k + 1 + 1 / 1000) / 2 ^ 24" by (simp add: field_simps)
  finally show ?thesis .
qed

lemma newton_exact:
  assumes "9656 / 10000 \<le> t" "t \<le> 10341 / 10000"
  shows "0 \<le> 1 - t * (3 - t\<^sup>2) / 2" "1 - t * (3 - t\<^sup>2) / 2 \<le> 178 / (100000 :: real)"
proof -
  have e: "1 - t * (3 - t\<^sup>2) / 2 = (t - 1)\<^sup>2 * (t + 2) / 2"
    by (simp add: field_simps power2_eq_square)
  show "0 \<le> 1 - t * (3 - t\<^sup>2) / 2" unfolding e using assms by simp
  show "1 - t * (3 - t\<^sup>2) / 2 \<le> 178 / (100000 :: real)"
  proof (cases "t \<le> 1")
    case True
    have "(1 - t)\<^sup>2 \<le> (344 / 10000)\<^sup>2" using True assms by (intro power_mono) auto
    then have "(t - 1)\<^sup>2 \<le> (344 / 10000)\<^sup>2" by (simp add: power2_commute)
    then have "(t - 1)\<^sup>2 * (t + 2) \<le> (344 / 10000)\<^sup>2 * 3" using True assms by (intro mult_mono) auto
    then show ?thesis unfolding e by (simp add: power2_eq_square)
  next
    case False
    have "(t - 1)\<^sup>2 \<le> (341 / 10000)\<^sup>2" using False assms by (intro power_mono) auto
    then have "(t - 1)\<^sup>2 * (t + 2) \<le> (341 / 10000)\<^sup>2 * (30341 / 10000)" using False assms by (intro mult_mono) auto
    then show ?thesis unfolding e by (simp add: power2_eq_square)
  qed
qed

lemma newton_rounded:
  assumes t: "9656 / 10000 \<le> t" "t \<le> 10341 / 10000"
    and th: "\<bar>th\<bar> \<le> 4 / 2 ^ 24" and ph: "\<bar>ph\<bar> \<le> 3 / (2 ^ 24 :: real)"
  shows "\<bar>t * (3 / 2 - t\<^sup>2 / 2 * (1 + th)) * (1 + ph) - 1\<bar> < 18 / 10000"
proof -
  define h where "h = t * (3 - t\<^sup>2) / 2"
  define w where "w = t ^ 3 / 2 * th"
  have h: "h \<le> 1" "1 - 178 / 100000 \<le> h" using newton_exact [OF t] by (simp_all add: h_def)
  have "t ^ 3 \<le> (10341 / 10000) ^ 3" using t by (intro power_mono) auto
  then have "t ^ 3 / 2 \<le> 1" by (simp add: power3_eq_cube)
  then have "\<bar>w\<bar> \<le> 1 * (4 / 2 ^ 24)" unfolding w_def abs_mult using t th by (intro mult_mono) auto
  then have w: "\<bar>w\<bar> \<le> 4 / 2 ^ 24" by simp
  have e: "t * (3 / 2 - t\<^sup>2 / 2 * (1 + th)) = h - w"
    by (simp add: h_def w_def field_simps power2_eq_square power3_eq_cube)
  have "\<bar>h - w\<bar> \<le> 2" using h w by (simp add: abs_le_iff)
  then have "\<bar>(h - w) * ph\<bar> \<le> 2 * (3 / 2 ^ 24)" unfolding abs_mult using ph by (intro mult_mono) auto
  moreover have "(h - w) * (1 + ph) - 1 = (h - 1) - w + (h - w) * ph" by (simp add: algebra_simps)
  ultimately have "\<bar>(h - w) * (1 + ph) - 1\<bar> \<le> 178 / 100000 + 4 / 2 ^ 24 + 2 * (3 / 2 ^ 24)"
    using h w by linarith
  then show ?thesis unfolding e by (rule le_less_trans) simp
qed

section \<open>The function\<close>

lemma constants32:
  "of_f32 (f32_lit 1 2) = FFin False 8388608 (-24)" "of_f32 (f32_lit 3 2) = FFin False 12582912 (-23)"
  by code_simp+

lemma fpos_constants:
  "fpos binary32 (FFin False 8388608 (-24)) (1 / 2)" "fpos binary32 (FFin False 12582912 (-23)) (3 / 2)"
  by (auto simp: fpos_def binary32_def power_int_def power_divide)

lemma fpos_normal32: "normal32 m e \<Longrightarrow> fpos binary32 (FFin False m e) (of_int m * 2 powi e)"
  by (auto simp: fpos_def binary32_def normal32_def)

lemma invSqrt_unfold:
  assumes "normal32 m e"
  defines "j \<equiv> guess_bits ((e + 150) * 2 ^ 23 + (m - 2 ^ 23))"
  defines "y \<equiv> FFin False (j mod 2 ^ 23 + 2 ^ 23) (j div 2 ^ 23 - 150)"
  shows "of_f32 (invSqrt (F32 (FFin False m e))) =
     fmul binary32 y (fsub binary32 (FFin False 12582912 (-23))
       (fmul binary32 (fmul binary32 (fmul binary32 (FFin False 8388608 (-24)) (FFin False m e)) y) y))"
    and "normal32 (j mod 2 ^ 23 + 2 ^ 23) (j div 2 ^ 23 - 150)"
proof -
  define i where "i = (e + 150) * 2 ^ 23 + (m - 2 ^ 23)"
  have i: "0 \<le> i" "i < 2 ^ 31" using assms(1) by (auto simp: i_def normal32_def)
  have j: "j = 0x5f3759df - i div 2" by (simp add: j_def guess_bits_def i_def)
  have j31: "0 \<le> j" "j < 2 ^ 31" using i by (auto simp: j)
  have jb: "62 \<le> j div 2 ^ 23" "j div 2 ^ 23 \<le> 190" using first_guess(3) [OF assms(1)] by (simp_all add: j_def)
  have "0x5f3759df - signed_drop_bit 1 (f32_to_bits (F32 (FFin False m e))) = word_of_int j"
    unfolding f32_to_bits_normal [OF assms(1)] i_def [symmetric] shift_right [OF i] j by simp
  moreover have "f32_of_bits (word_of_int j) = F32 y"
    unfolding y_def by (rule f32_of_bits_normal) (use j31 jb in auto)
  ultimately show "of_f32 (invSqrt (F32 (FFin False m e))) =
     fmul binary32 y (fsub binary32 (FFin False 12582912 (-23))
       (fmul binary32 (fmul binary32 (fmul binary32 (FFin False 8388608 (-24)) (FFin False m e)) y) y))"
    by (simp add: invSqrt_def Let_def times_f32_def minus_f32_def constants32)
  show "normal32 (j mod 2 ^ 23 + 2 ^ 23) (j div 2 ^ 23 - 150)"
    using jb by (auto simp: normal32_def)
qed

lemma sqrt_range:
  assumes "1 / 2 ^ 125 \<le> X" "X < 2 ^ 128"
  shows "1 / 2 ^ 63 \<le> sqrt X" "sqrt X \<le> 2 ^ 64"
proof -
  have "(1 / 2 ^ 63)\<^sup>2 \<le> (1 / 2 ^ 125 :: real)" by (simp add: power2_eq_square)
  then show "1 / 2 ^ 63 \<le> sqrt X" using assms(1) by (intro real_le_rsqrt) linarith
  have "X \<le> (2 ^ 64)\<^sup>2" using assms(2) by simp
  then show "sqrt X \<le> 2 ^ 64" by (rule real_le_lsqrt [rotated]) simp
qed

text \<open>One operation, with its relative error.\<close>

lemma precision32: "1 < fprec binary32"
  by (simp add: binary32_def)

lemma mul_step:
  assumes "fpos binary32 x a" "fpos binary32 y b" "in_range binary32 (a * b)"
  obtains c d where "fpos binary32 (fmul binary32 x y) c" "c = a * b * (1 + d)" "\<bar>d\<bar> \<le> 1 / 2 ^ 24"
proof -
  from fmul_error [OF assms(1,2) precision32 assms(3)] obtain c
    where c: "fpos binary32 (fmul binary32 x y) c" "\<bar>c - a * b\<bar> \<le> 1 / 2 ^ 24 * (a * b)" by (auto simp: ulp32)
  have "0 < a * b" using fpos_positive assms(1,2) by simp
  from relative [OF c(2) this] that [OF c(1)] show ?thesis by blast
qed

lemma sub_step:
  assumes "fpos binary32 x a" "fpos binary32 y b" "in_range binary32 (a - b)" "b < a"
  obtains c d where "fpos binary32 (fsub binary32 x y) c" "c = (a - b) * (1 + d)" "\<bar>d\<bar> \<le> 1 / 2 ^ 24"
proof -
  from fsub_error [OF assms(1,2) precision32 assms(3,4)] obtain c
    where c: "fpos binary32 (fsub binary32 x y) c" "\<bar>c - (a - b)\<bar> \<le> 1 / 2 ^ 24 * (a - b)" by (auto simp: ulp32)
  have "0 < a - b" using assms(4) by simp
  from relative [OF c(2) this] that [OF c(1)] show ?thesis by blast
qed

text \<open>A bound on a product with a factor that is one percent from one.\<close>

lemma percent:
  assumes "\<bar>d\<bar> \<le> 1 / 100" "l \<le> a" "a \<le> u" "0 \<le> (l :: real)"
  shows "l * (99 / 100) \<le> a * (1 + d)" "a * (1 + d) \<le> u * (101 / 100)"
  using assms by (intro mult_mono; simp add: abs_le_iff)+

text \<open>Newton's step, from a guess \<open>y = t / S\<close> for \<open>x = S\<^sup>2\<close>.\<close>

lemma newton_floats:
  assumes S: "1 / 2 ^ 63 \<le> S" "S \<le> 2 ^ 64" and half: "in_range binary32 (1 / 2 * (S * S))"
    and x: "fpos binary32 x (S * S)" and Y: "fpos binary32 Y y"
    and yS: "y = t / S" and t: "9656 / 10000 \<le> t" "t \<le> 10341 / 10000"
    and h: "fpos binary32 h (1 / 2)" and k: "fpos binary32 k (3 / 2)"
  shows "\<exists>r. fpos binary32 (fmul binary32 Y (fsub binary32 k
      (fmul binary32 (fmul binary32 (fmul binary32 h x) Y) Y))) r \<and> \<bar>r * S - 1\<bar> < 18 / 10000"
proof -
  have S0: "0 < S" using S(1) by (rule less_le_trans [rotated]) simp
  have small: "\<bar>d\<bar> \<le> 1 / 100" if "\<bar>d\<bar> \<le> 4 / (2 ^ 24 :: real)" for d using that by (rule order_trans) simp
  have tt: "93 / 100 \<le> t\<^sup>2" "t\<^sup>2 \<le> 107 / 100"
    using mult_mono [of "9656 / 10000" t "9656 / 10000" t] mult_mono [of t "10341 / 10000" t "10341 / 10000"] t
    by (simp_all add: power2_eq_square)
  from mul_step [OF h x half] obtain c0 d0
    where c0: "fpos binary32 (fmul binary32 h x) c0" "c0 = 1 / 2 * (S * S) * (1 + d0)" "\<bar>d0\<bar> \<le> 1 / 2 ^ 24" .
  have v0: "c0 * y = S * (t / 2 * (1 + d0))" using S0 by (simp add: c0(2) yS)
  have "in_range binary32 (c0 * y)" unfolding v0
    by (rule in_range_scaled(2) [OF S]) (use percent [of d0 "48 / 100" "t / 2" "52 / 100"] small [of d0] c0(3) t in simp_all)
  from mul_step [OF c0(1) Y this] obtain c1 d1
    where c1: "fpos binary32 (fmul binary32 (fmul binary32 h x) Y) c1" "c1 = c0 * y * (1 + d1)" "\<bar>d1\<bar> \<le> 1 / 2 ^ 24" .
  define n where "n = (1 + d1) * (1 + d0) - 1"
  have n: "\<bar>n\<bar> \<le> (2 + 1 / 1000) / 2 ^ 24" using near_one [of d1 d0 1] c0(3) c1(3) by (simp add: n_def)
  have v1: "c1 * y = t\<^sup>2 / 2 * (1 + n)" using S0 by (simp add: c1(2) c0(2) n_def yS power2_eq_square field_simps)
  have b1: "46 / 100 \<le> c1 * y" "c1 * y \<le> 55 / 100" unfolding v1
    using percent [of n "465 / 1000" "t\<^sup>2 / 2" "535 / 1000"] small [of n] n tt by simp_all
  have "in_range binary32 (c1 * y)" by (rule in_range_scaled(1) [OF S]) (use b1 in simp_all)
  from mul_step [OF c1(1) Y this] obtain c2 d2
    where c2: "fpos binary32 (fmul binary32 (fmul binary32 (fmul binary32 h x) Y) Y) c2" "c2 = c1 * y * (1 + d2)" "\<bar>d2\<bar> \<le> 1 / 2 ^ 24" .
  define th where "th = (1 + d2) * (1 + n) - 1"
  have th: "\<bar>th\<bar> \<le> 4 / 2 ^ 24" using near_one [of d2 n "2 + 1 / 1000"] c2(3) n by (simp add: th_def)
  have v2: "c2 = t\<^sup>2 / 2 * (1 + th)" by (simp add: c2(2) v1 th_def)
  have b2: "45 / 100 \<le> c2" "c2 \<le> 56 / 100" unfolding c2(2)
    using percent [of d2 "46 / 100" "c1 * y" "55 / 100"] small [of d2] c2(3) b1 by simp_all
  have "in_range binary32 (3 / 2 - c2)" by (rule in_range_scaled(1) [OF S]) (use b2 in simp_all)
  from sub_step [OF k c2(1) this] b2 obtain c3 d3
    where c3: "fpos binary32 (fsub binary32 k (fmul binary32 (fmul binary32 (fmul binary32 h x) Y) Y)) c3"
      "c3 = (3 / 2 - c2) * (1 + d3)" "\<bar>d3\<bar> \<le> 1 / 2 ^ 24" by auto
  have b3: "93 / 100 \<le> c3" "c3 \<le> 107 / 100" unfolding c3(2)
    using percent [of d3 "94 / 100" "3 / 2 - c2" "105 / 100"] small [of d3] c3(3) b2 by simp_all
  have v3: "y * c3 = t * c3 / S" by (simp add: yS)
  have "in_range binary32 (y * c3)" unfolding v3
  proof (rule in_range_scaled(3) [OF S])
    show "1 / 4 \<le> t * c3" using mult_mono [of "9656 / 10000" t "93 / 100" c3] t b3 by simp
    show "t * c3 \<le> 2" using mult_mono [of t "10341 / 10000" c3 "107 / 100"] t b3 by simp
  qed
  from mul_step [OF Y c3(1) this] obtain r d4
    where r: "fpos binary32 (fmul binary32 Y (fsub binary32 k (fmul binary32 (fmul binary32 (fmul binary32 h x) Y) Y))) r"
      "r = y * c3 * (1 + d4)" "\<bar>d4\<bar> \<le> 1 / 2 ^ 24" .
  define ph where "ph = (1 + d4) * (1 + d3) - 1"
  have ph: "\<bar>ph\<bar> \<le> 3 / 2 ^ 24" using near_one [of d4 d3 1] c3(3) r(3) by (simp add: ph_def)
  have "r * S = t * (3 / 2 - t\<^sup>2 / 2 * (1 + th)) * (1 + ph)"
    using S0 by (simp add: r(2) yS c3(2) v2 ph_def)
  with newton_rounded [OF t th ph] r(1) show ?thesis by auto
qed

lemma normal32_range:
  assumes x: "normal32 m e" and "-148 \<le> e"
  shows "1 / 2 ^ 125 \<le> of_int m * (2 :: real) powi e" "of_int m * (2 :: real) powi e < 2 ^ 128"
proof -
  have "(2 ^ 23 :: real) * 2 powi (-148) \<le> of_int m * 2 powi e"
    using x assms(2) by (intro mult_mono power_int_increasing) (auto simp: normal32_def)
  then show "1 / 2 ^ 125 \<le> of_int m * (2 :: real) powi e" by (simp add: power_int_def power_divide)
  have "of_int m * 2 powi e < (2 ^ 24 :: real) * 2 powi 104"
    using x by (intro mult_less_le_imp_less power_int_increasing) (auto simp: normal32_def)
  then show "of_int m * (2 :: real) powi e < 2 ^ 128" by simp
qed

lemma root_of_guess:
  fixes t :: real
  assumes "0 < t" "9324 / 10000 \<le> t\<^sup>2" "t\<^sup>2 \<le> 10692 / 10000"
  shows "9656 / 10000 \<le> t" "t \<le> 10341 / 10000"
proof -
  have "(9656 / 10000)\<^sup>2 \<le> (9324 / 10000 :: real)" "10692 / 10000 \<le> (10341 / 10000 :: real)\<^sup>2"
    by (simp_all add: power2_eq_square)
  with assms have "(9656 / 10000)\<^sup>2 \<le> t\<^sup>2" "t\<^sup>2 \<le> (10341 / 10000)\<^sup>2" by linarith+
  then show "9656 / 10000 \<le> t" "t \<le> 10341 / 10000"
    using assms(1) by (auto intro: power2_le_imp_le)
qed

text \<open>C15. The fast inverse square root of the attitude filter is accurate: for every positive \<^verbatim>\<open>float\<close> from
\<open>2 ^ -125\<close> up, the largest included, the result is finite and within 0.18 percent of \<open>1 / sqrt x\<close>, all
roundings of its arithmetic included.\<close>

theorem invSqrt_accurate:
  assumes x: "normal32 m e" and "-148 \<le> e"
  shows "\<exists>r. fpos binary32 (of_f32 (invSqrt (F32 (FFin False m e)))) r
     \<and> \<bar>r * sqrt (of_int m * 2 powi e) - 1\<bar> < 18 / 10000"
proof -
  define X S :: real where "X = of_int m * 2 powi e" and "S = sqrt X"
  define j where "j = guess_bits ((e + 150) * 2 ^ 23 + (m - 2 ^ 23))"
  define Y where "Y = FFin False (j mod 2 ^ 23 + 2 ^ 23) (j div 2 ^ 23 - 150)"
  define y where "y = of_int (j mod 2 ^ 23 + 2 ^ 23) * (2 powi (j div 2 ^ 23 - 150) :: real)"
  let ?B = binary32 and ?mul = "fmul binary32" and ?sub = "fsub binary32"
  have p: "1 < fprec ?B" by (simp add: binary32_def)
  have X: "1 / 2 ^ 125 \<le> X" "X < 2 ^ 128" using normal32_range [OF x assms(2)] by (simp_all add: X_def)
  have S: "1 / 2 ^ 63 \<le> S" "S \<le> 2 ^ 64" using sqrt_range [OF X] by (simp_all add: S_def)
  have S0: "0 < S" using S(1) by (rule less_le_trans [rotated]) simp
  have SS: "S * S = X" using X(1) by (simp add: S_def)
  have Yp: "fpos ?B Y y" unfolding Y_def y_def
    by (rule fpos_normal32) (use invSqrt_unfold(2) [OF x] in \<open>simp add: j_def\<close>)
  have y0: "0 < y" by (rule fpos_positive [OF Yp])
  define t where "t = y * S"
  have tt: "9324 / 10000 \<le> t\<^sup>2" "t\<^sup>2 \<le> 10692 / 10000"
  proof -
    have "t\<^sup>2 = y\<^sup>2 * X" unfolding SS [symmetric] by (simp add: t_def power2_eq_square)
    with first_guess(1,2) [OF x] show "9324 / 10000 \<le> t\<^sup>2" "t\<^sup>2 \<le> 10692 / 10000"
      by (simp_all add: X_def y_def j_def)
  qed
  have t0: "0 < t" using y0 S0 by (simp add: t_def)
  note t = root_of_guess [OF t0 tt]
  have yS: "y = t / S" using S0 by (simp add: t_def)
  have Xp: "fpos ?B (FFin False m e) X" unfolding X_def by (rule fpos_normal32 [OF x])
  have half: "in_range binary32 (1 / 2 * (S * S))" unfolding SS using X by (simp add: in_range32)
  from newton_floats [OF S half Xp [folded SS] Yp yS t fpos_constants] show ?thesis
    unfolding invSqrt_unfold(1) [OF x] S_def X_def Y_def j_def .
qed

lemma invSqrt_accurate_witness:
  "\<exists>r. fpos binary32 (of_f32 (invSqrt (F32 (FFin False 8388608 (-23))))) r
     \<and> \<bar>r * sqrt (of_int 8388608 * 2 powi (-23)) - 1\<bar> < 18 / 10000"
  by (rule invSqrt_accurate) (simp_all add: normal32_def)

end
