(* ===== verification/Float_Signed.thy ===== *)
theory Float_Signed
  imports Float_Error
begin

text \<open>
  The error of operations on numbers of either sign, subnormal ones and zero included: half a unit
  in the last place, or half the least positive number where that is more.
\<close>

section \<open>Values\<close>

definition sign_of :: "bool \<Rightarrow> real" where "sign_of s = (if s then -1 else 1)"

text \<open>\<open>fval f x a\<close>: \<open>x\<close> is a finite number of value \<open>a\<close>.\<close>

definition fval :: "ffmt \<Rightarrow> fnum \<Rightarrow> real \<Rightarrow> bool" where
  "fval f x a \<longleftrightarrow> (\<exists>s m e. x = FFin s m e \<and> 0 \<le> m \<and> a = sign_of s * (of_int m * 2 powi e))"

definition tiny :: "ffmt \<Rightarrow> real" where "tiny f = 2 powi (femin f - 1)"

lemma fval_fpos: "fpos f x a \<Longrightarrow> fval f x a"
  unfolding fval_def sign_of_def by (drule fpos_FFin) fastforce

lemma abs_sign_of [simp]: "\<bar>sign_of s * a\<bar> = \<bar>a\<bar>" "sign_of s * (sign_of s * a) = a"
  by (simp_all add: sign_of_def abs_mult)

section \<open>Rounding\<close>

text \<open>Below the normal range the exponent is the least one.\<close>

lemma round_exp_small:
  assumes n: "0 < n" and d: "0 < d"
    and small: "(of_int n / of_int d :: real) < 2 powi (femin f + int (fprec f) - 1)"
  shows "round_exp f n d = femin f"
proof -
  define r :: real where "r = of_int n / of_int d"
  have "2 powi (bitlen n - 1) / 2 powi (bitlen d) < r"
    unfolding r_def using bitlen_real [OF n] bitlen_real [OF d] n d by (intro frac_less2) auto
  then have "2 powi (bitlen n - bitlen d - 1) < r" by (simp add: power_int_diff [symmetric] algebra_simps)
  then have "\<not> 2 powi (femin f + int (fprec f) - 1) \<le> (2 powi (bitlen n - bitlen d - 1) :: real)"
    using small by (simp add: r_def)
  then have "bitlen n - bitlen d - int (fprec f) \<le> femin f"
    using power_int_increasing [of "femin f + int (fprec f) - 1" "bitlen n - bitlen d - 1" "2 :: real"] by linarith
  then have e0: "max (femin f) (bitlen n - bitlen d - int (fprec f)) = femin f" by simp
  obtain n0 d0 where nd: "scale_ratio n d (femin f) = (n0, d0)" by (cases "scale_ratio n d (femin f)")
  have v: "of_int n0 / of_int d0 = r * 2 powi (- femin f)" "0 < d0"
    using scale_ratio_value [OF d nd] by (simp_all add: r_def)
  have "r < 2 powi (femin f + int (fprec f))"
    using small power_int_increasing [of "femin f + int (fprec f) - 1" "femin f + int (fprec f)" "2 :: real"]
    by (simp add: r_def)
  then have "r * 2 powi (- femin f) < 2 powi int (fprec f)"
    by (simp add: power_int_add power_int_minus field_simps)
  then have "of_int n0 / of_int d0 < (2 ^ fprec f :: real)" by (simp add: v)
  then have "real_of_int n0 < of_int (d0 * 2 ^ fprec f)" using v(2) by (simp add: field_simps)
  then have "n0 < d0 * 2 ^ fprec f" by (simp only: of_int_less_iff)
  then show ?thesis using nd by (simp add: round_exp_def e0)
qed

lemma rne_small: "0 < d \<Longrightarrow> 0 < n \<Longrightarrow> 0 \<le> rne n d"
  by (simp add: rne_def Let_def pos_imp_zdiv_nonneg_iff)

lemma fround_subnormal:
  assumes n: "0 < n" and d: "0 < d" and p: "1 < fprec f" and em: "femin f < femax f"
    and small: "(of_int n / of_int d :: real) < 2 powi (femin f + int (fprec f) - 1)"
  obtains m where "0 \<le> m" "m \<le> 2 ^ (fprec f - 1)"
    "fround f s n d = (if m = 0 then FFin s 0 0 else FFin s m (femin f))"
    "\<bar>of_int m * 2 powi femin f - of_int n / of_int d\<bar> \<le> tiny f"
proof -
  define r :: real where "r = of_int n / of_int d"
  note e = round_exp_small [OF n d small]
  obtain n1 d1 where nd: "scale_ratio n d (femin f) = (n1, d1)" by (cases "scale_ratio n d (femin f)")
  define v where "v = r * 2 powi (- femin f)"
  have v: "of_int n1 / of_int d1 = v" "0 < d1"
    using scale_ratio_value [OF d nd] by (simp_all add: r_def v_def)
  define q where "q = rne n1 d1"
  have rv: "r = v * 2 powi femin f" by (simp add: v_def power_int_minus field_simps)
  have "0 < r" using n d by (simp add: r_def)
  then have "0 < v" by (simp add: v_def)
  then have "0 < n1" using ratio_positive v(2) v(1) by metis
  then have q0: "0 \<le> q" using rne_small v(2) by (simp add: q_def)
  have qv: "\<bar>of_int q - v\<bar> \<le> 1 / 2" using rne_error [OF v(2), of n1] by (simp add: q_def v)
  have "v < 2 ^ (fprec f - 1)"
  proof -
    have "v * 2 powi femin f < 2 powi (int (fprec f) - 1) * 2 powi femin f"
      using small by (simp add: rv [symmetric] r_def algebra_simps flip: power_int_add)
    then have "v < 2 powi (int (fprec f) - 1)" by (rule mult_right_less_imp_less) simp
    moreover have "int (fprec f) - 1 = int (fprec f - 1)" using p by simp
    ultimately show ?thesis by (simp only: power_int_of_nat)
  qed
  then have "v < real_of_int (2 ^ (fprec f - 1))" by simp
  then have "of_int q \<le> real_of_int (2 ^ (fprec f - 1)) + 1 / 2" using qv by linarith
  then have q1: "q \<le> 2 ^ (fprec f - 1)" by linarith
  have "(2 :: int) ^ (fprec f - 1) < 2 ^ fprec f" using p by (intro power_strict_increasing) simp_all
  with q1 have q2: "q \<noteq> 2 ^ fprec f" by linarith
  have "\<bar>of_int q - v\<bar> * 2 powi femin f \<le> 1 / 2 * 2 powi femin f" using qv by (intro mult_right_mono) auto
  moreover have "\<bar>of_int q - v\<bar> * 2 powi femin f = \<bar>of_int q * 2 powi femin f - r\<bar>"
    by (simp add: rv abs_mult flip: left_diff_distrib)
  ultimately have err: "\<bar>of_int q * 2 powi femin f - r\<bar> \<le> tiny f" by (simp add: tiny_def power_int_diff)
  have "fround f s n d = (if q = 0 then FFin s 0 0 else FFin s q (femin f))"
    using n nd em q2 by (simp add: fround_def e Let_def q_def [symmetric])
  with that q0 q1 err show ?thesis unfolding r_def by blast
qed

lemma fround_close:
  assumes n: "0 < n" and d: "0 < d" and p: "1 < fprec f" and em: "femin f < femax f"
    and max: "(of_int n / of_int d :: real) < 2 powi (femax f + int (fprec f) - 1)"
  shows "\<exists>b. fval f (fround f s n d) (sign_of s * b) \<and> 0 \<le> b
     \<and> \<bar>b - of_int n / of_int d\<bar> \<le> ulp_half f * (of_int n / of_int d) + tiny f"
proof (cases "(of_int n / of_int d :: real) < 2 powi (femin f + int (fprec f) - 1)")
  case True
  have "0 \<le> ulp_half f * (of_int n / of_int d)" using n d by (simp add: ulp_half_def)
  moreover obtain m where "0 \<le> m" "fround f s n d = (if m = 0 then FFin s 0 0 else FFin s m (femin f))"
    "\<bar>of_int m * 2 powi femin f - of_int n / of_int d\<bar> \<le> tiny f"
    by (rule fround_subnormal [OF n d p em True])
  ultimately show ?thesis by (intro exI [of _ "of_int m * 2 powi femin f"]) (auto simp: fval_def)
next
  case False
  then obtain m e where "fround f s n d = FFin s m e" "fpos f (FFin False m e) (of_int m * 2 powi e)"
    "\<bar>of_int m * 2 powi e - of_int n / of_int d\<bar> \<le> ulp_half f * (of_int n / of_int d)"
    using fround_error [OF n d p, of s] max by (auto simp: in_range_def)
  moreover from this(2) have "0 < m" using fpos_FFin by blast
  moreover have "0 \<le> tiny f" by (simp add: tiny_def)
  ultimately show ?thesis by (intro exI [of _ "of_int m * 2 powi e"]) (auto simp: fval_def)
qed

section \<open>Operations\<close>

text \<open>The exact result as a ratio.\<close>

lemma fval_zero [simp]: "fval f (FFin s 0 e) 0"
  by (auto simp: fval_def)

lemma tiny_positive: "0 < tiny f" "0 \<le> ulp_half f"
  by (simp_all add: tiny_def ulp_half_def)

lemma fround_signed:
  assumes n: "0 \<le> n" and d: "0 < d" and p: "1 < fprec f" and em: "femin f < femax f"
    and v: "v = sign_of s * (of_int n / of_int d)" and max: "\<bar>v\<bar> < 2 powi (femax f + int (fprec f) - 1)"
  shows "\<exists>c. fval f (fround f s n d) c \<and> \<bar>c - v\<bar> \<le> ulp_half f * \<bar>v\<bar> + tiny f \<and> (0 \<le> v \<longrightarrow> 0 \<le> c)"
proof (cases "n = 0")
  case True
  then show ?thesis using tiny_positive(1) [of f] by (intro exI [of _ 0]) (simp add: v fround_def)
next
  case False
  then have n0: "0 < n" using n by simp
  define r :: real where "r = of_int n / of_int d"
  have r: "0 < r" "\<bar>v\<bar> = r" using n0 d by (simp_all add: r_def v)
  obtain c where c: "fval f (fround f s n d) (sign_of s * c)" "0 \<le> c" "\<bar>c - r\<bar> \<le> ulp_half f * r + tiny f"
    using fround_close [OF n0 d p em, of s] max r(2) by (auto simp: r_def)
  have "sign_of s * c - v = sign_of s * (c - r)" by (simp add: v r_def right_diff_distrib)
  then have "\<bar>sign_of s * c - v\<bar> = \<bar>c - r\<bar>" by simp
  moreover have "0 \<le> v \<longrightarrow> 0 \<le> sign_of s * c"
    using c(2) r(1) by (simp add: v r_def [symmetric] sign_of_def)
  ultimately show ?thesis using c r(2) by (intro exI [of _ "sign_of s * c"]) simp
qed

lemma fmul_close:
  assumes "fval f x a" "fval f y b" and p: "1 < fprec f" and em: "femin f < femax f"
    and max: "\<bar>a * b\<bar> < 2 powi (femax f + int (fprec f) - 1)"
  shows "\<exists>c. fval f (fmul f x y) c \<and> \<bar>c - a * b\<bar> \<le> ulp_half f * \<bar>a * b\<bar> + tiny f \<and> (0 \<le> a * b \<longrightarrow> 0 \<le> c)"
proof -
  obtain s1 m1 e1 where x: "x = FFin s1 m1 e1" "0 \<le> m1" "a = sign_of s1 * (of_int m1 * 2 powi e1)"
    using assms(1) by (auto simp: fval_def)
  obtain s2 m2 e2 where y: "y = FFin s2 m2 e2" "0 \<le> m2" "b = sign_of s2 * (of_int m2 * 2 powi e2)"
    using assms(2) by (auto simp: fval_def)
  obtain n d where nd: "ratio_of (m1 * m2) (e1 + e2) = (n, d)" by (cases "ratio_of (m1 * m2) (e1 + e2)")
  have r: "of_int n / of_int d = of_int m1 * 2 powi e1 * (of_int m2 * (2 :: real) powi e2)" "0 < d"
    using ratio_of_value [OF nd] by (simp_all add: power_int_add)
  have "0 \<le> n" using nd x(2) y(2) by (auto simp: ratio_of_def split: if_splits)
  moreover have "a * b = sign_of (s1 \<noteq> s2) * (of_int n / of_int d)" by (auto simp: x y r sign_of_def)
  moreover have "fmul f x y = fround f (s1 \<noteq> s2) n d" using nd by (simp add: x y)
  ultimately show ?thesis using fround_signed [OF _ r(2) p em _ max] by metis
qed

text \<open>Division by a number that is not zero, and conversion between formats.\<close>

lemma fdiv_close:
  assumes "fval f x a" "fval f y b" "b \<noteq> 0" and p: "1 < fprec f" and em: "femin f < femax f"
    and max: "\<bar>a / b\<bar> < 2 powi (femax f + int (fprec f) - 1)"
  shows "\<exists>c. fval f (fdiv f x y) c \<and> \<bar>c - a / b\<bar> \<le> ulp_half f * \<bar>a / b\<bar> + tiny f \<and> (0 \<le> a / b \<longrightarrow> 0 \<le> c)"
proof -
  obtain s1 m1 e1 where x: "x = FFin s1 m1 e1" "0 \<le> m1" "a = sign_of s1 * (of_int m1 * 2 powi e1)"
    using assms(1) by (auto simp: fval_def)
  obtain s2 m2 e2 where y: "y = FFin s2 m2 e2" "0 \<le> m2" "b = sign_of s2 * (of_int m2 * 2 powi e2)"
    using assms(2) by (auto simp: fval_def)
  have m2: "0 < m2" using assms(3) y(2,3) by (cases "m2 = 0") auto
  obtain n d where nd: "ratio_of m1 (e1 - e2) = (n, d)" by (cases "ratio_of m1 (e1 - e2)")
  have r: "of_int n / of_int d = of_int m1 * (2 :: real) powi (e1 - e2)" "0 < d"
    using ratio_of_value [OF nd] by simp_all
  have "0 \<le> n" using nd x(2) by (auto simp: ratio_of_def split: if_splits)
  moreover have "0 < d * m2" using r(2) m2 by simp
  moreover have "a / b = sign_of (s1 \<noteq> s2) * (of_int n / of_int (d * m2))"
  proof -
    have "of_int n / of_int (d * m2) = (of_int n / of_int d) / (of_int m2 :: real)" by simp
    also have "\<dots> = of_int m1 * 2 powi e1 / (of_int m2 * 2 powi e2)" unfolding r(1) by (simp add: power_int_diff)
    finally show ?thesis by (auto simp: x y sign_of_def)
  qed
  moreover have "fdiv f x y = fround f (s1 \<noteq> s2) n (d * m2)" using nd m2 by (simp add: x y)
  ultimately show ?thesis using fround_signed [OF _ _ p em _ max] by metis
qed

lemma fconv_close:
  assumes "fval g x a" and p: "1 < fprec f" and em: "femin f < femax f"
    and max: "\<bar>a\<bar> < 2 powi (femax f + int (fprec f) - 1)"
  shows "\<exists>c. fval f (fconv f x) c \<and> \<bar>c - a\<bar> \<le> ulp_half f * \<bar>a\<bar> + tiny f \<and> (0 \<le> a \<longrightarrow> 0 \<le> c)"
proof -
  obtain s m e where x: "x = FFin s m e" "0 \<le> m" "a = sign_of s * (of_int m * 2 powi e)"
    using assms(1) by (auto simp: fval_def)
  obtain n d where nd: "ratio_of m e = (n, d)" by (cases "ratio_of m e")
  have r: "of_int n / of_int d = of_int m * (2 :: real) powi e" "0 < d" using ratio_of_value [OF nd] by simp_all
  have "0 \<le> n" using nd x(2) by (auto simp: ratio_of_def split: if_splits)
  moreover have "a = sign_of s * (of_int n / of_int d)" by (simp add: x r)
  moreover have "fconv f x = fround f s n d" using nd by (simp add: x)
  ultimately show ?thesis using fround_signed [OF _ r(2) p em _ max] by metis
qed

text \<open>Addition: the exact sum is \<open>v * 2 ^ k\<close> for an integer \<open>v\<close>.\<close>

lemma fadd_exact:
  assumes "fval f x a" "fval f y b"
  obtains zs v k where "fadd f x y = fround_int f zs v k" "of_int v * 2 powi k = a + b"
proof -
  obtain s1 m1 e1 where x: "x = FFin s1 m1 e1" "0 \<le> m1" "a = sign_of s1 * (of_int m1 * 2 powi e1)"
    using assms(1) by (auto simp: fval_def)
  obtain s2 m2 e2 where y: "y = FFin s2 m2 e2" "0 \<le> m2" "b = sign_of s2 * (of_int m2 * 2 powi e2)"
    using assms(2) by (auto simp: fval_def)
  define k where "k = min e1 e2"
  have "of_int (signed_at k s1 m1 e1 + signed_at k s2 m2 e2) * 2 powi k = a + b"
    using signed_at_value [of k e1 s1 m1] signed_at_value [of k e2 s2 m2]
    by (simp add: x y k_def distrib_right sign_of_def)
  then show ?thesis using that [of "s1 \<and> s2" _ k] by (simp add: x y Let_def k_def)
qed

lemma fround_int_ratio:
  assumes "v \<noteq> 0"
  obtains n d where "fround_int f zs v k = fround f (v < 0) n d" "0 < n" "0 < d"
    "of_int n / of_int d = \<bar>of_int v * 2 powi k :: real\<bar>"
proof -
  obtain n d where nd: "ratio_of \<bar>v\<bar> k = (n, d)" by (cases "ratio_of \<bar>v\<bar> k")
  have w: "of_int n / of_int d = (\<bar>of_int v * 2 powi k\<bar> :: real)" "0 < d"
    using ratio_of_value [OF nd] by (simp_all add: abs_mult)
  have "0 < n" using ratio_positive [OF w(2), of n] w(1) assms by simp
  then show ?thesis using that [of n d] w nd assms by (simp add: fround_int_def)
qed

lemma fadd_close:
  assumes "fval f x a" "fval f y b" and p: "1 < fprec f" and em: "femin f < femax f"
    and max: "\<bar>a + b\<bar> < 2 powi (femax f + int (fprec f) - 1)"
  shows "\<exists>c. fval f (fadd f x y) c \<and> \<bar>c - (a + b)\<bar> \<le> ulp_half f * \<bar>a + b\<bar> + tiny f \<and> (0 \<le> a + b \<longrightarrow> 0 \<le> c)"
proof -
  obtain zs v k where f: "fadd f x y = fround_int f zs v k" and v: "of_int v * 2 powi k = a + b"
    by (rule fadd_exact [OF assms(1,2)])
  show ?thesis
  proof (cases "v = 0")
    case True
    then show ?thesis using v tiny_positive(1) [of f] by (intro exI [of _ 0]) (simp add: f fround_int_def)
  next
    case False
    obtain n d where nd: "fround_int f zs v k = fround f (v < 0) n d" "0 < n" "0 < d"
      "of_int n / of_int d = \<bar>a + b\<bar>"
      using fround_int_ratio [OF False, of f zs k] unfolding v by metis
    have s: "a + b = sign_of (v < 0) * \<bar>a + b\<bar>"
      unfolding v [symmetric] by (auto simp: sign_of_def abs_mult)
    from fround_close [OF nd(2,3) p em, of "v < 0"] max obtain c
      where c: "fval f (fround f (v < 0) n d) (sign_of (v < 0) * c)" "0 \<le> c"
        "\<bar>c - \<bar>a + b\<bar>\<bar> \<le> ulp_half f * \<bar>a + b\<bar> + tiny f"
      by (auto simp: nd(4))
    have "\<bar>sign_of (v < 0) * c - (a + b)\<bar> = \<bar>sign_of (v < 0) * (c - \<bar>a + b\<bar>)\<bar>"
      by (subst s) (simp only: right_diff_distrib)
    moreover have "0 \<le> a + b \<longrightarrow> 0 \<le> sign_of (v < 0) * c"
    proof -
      have "\<not> v < 0" if "0 \<le> a + b"
      proof -
        have "0 \<le> of_int v * (2 powi k :: real)" using that by (simp only: v)
        moreover have "\<not> (2 :: real) powi k \<le> 0" by (simp add: not_le)
        ultimately show ?thesis by (simp add: zero_le_mult_iff)
      qed
      then show ?thesis using c(2) by (simp add: sign_of_def)
    qed
    ultimately show ?thesis using c nd(1) by (intro exI [of _ "sign_of (v < 0) * c"]) (simp add: f)
  qed
qed

text \<open>A sum in the normal range.\<close>

lemma fadd_normal:
  assumes "fval f x a" "fval f y b" and p: "1 < fprec f" and range: "in_range f (a + b)"
  shows "\<exists>c. fpos f (fadd f x y) c \<and> \<bar>c - (a + b)\<bar> \<le> ulp_half f * (a + b)"
proof -
  obtain zs v k where f: "fadd f x y = fround_int f zs v k" and v: "of_int v * 2 powi k = a + b"
    by (rule fadd_exact [OF assms(1,2)])
  have pos: "0 < a + b" using range by (auto simp: in_range_def intro: less_le_trans [of 0 "2 powi j" for j])
  then have "0 < of_int v * (2 powi k :: real)" by (simp only: v)
  moreover have "\<not> (2 :: real) powi k < 0" by (simp add: not_less)
  ultimately have v0: "0 < v" by (simp add: zero_less_mult_iff)
  then obtain n d where nd: "fround_int f zs v k = fround f (v < 0) n d" "0 < n" "0 < d"
    "of_int n / of_int d = \<bar>a + b\<bar>"
    using fround_int_ratio [of v f zs k] unfolding v by (metis less_irrefl)
  from fround_error [OF nd(2,3) p, of "v < 0"] range v0 pos show ?thesis
    by (auto simp: f nd)
qed

text \<open>A sum below the normal range: zero, or a number with the least exponent.\<close>

lemma fadd_small:
  assumes "fval f x a" "fval f y b" and p: "1 < fprec f" and em: "femin f < femax f"
    and range: "0 \<le> a + b" "a + b < 2 powi (femin f + int (fprec f) - 1)"
  obtains zs where "fadd f x y = FFin zs 0 0" "a + b \<le> tiny f"
  | m where "0 < m" "m \<le> 2 ^ (fprec f - 1)" "fadd f x y = FFin False m (femin f)"
    "\<bar>of_int m * 2 powi femin f - (a + b)\<bar> \<le> tiny f"
proof -
  obtain zs v k where f: "fadd f x y = fround_int f zs v k" and v: "of_int v * 2 powi k = a + b"
    by (rule fadd_exact [OF assms(1,2)])
  show ?thesis
  proof (cases "v = 0")
    case True
    then show ?thesis using v tiny_positive(1) [of f] by (intro that(1) [of zs]) (simp_all add: f fround_int_def)
  next
    case False
    have "0 \<le> of_int v * (2 powi k :: real)" using range(1) by (simp only: v)
    moreover have "\<not> (2 :: real) powi k \<le> 0" by (simp add: not_le)
    ultimately have v0: "\<not> v < 0" by (simp add: zero_le_mult_iff)
    obtain n d where nd: "fround_int f zs v k = fround f (v < 0) n d" "0 < n" "0 < d"
      "of_int n / of_int d = \<bar>a + b\<bar>"
      using fround_int_ratio [OF False, of f zs k] unfolding v by metis
    have small: "of_int n / of_int d < (2 powi (femin f + int (fprec f) - 1) :: real)" using nd(4) range by simp
    obtain m where m: "0 \<le> m" "m \<le> 2 ^ (fprec f - 1)"
      "fround f False n d = (if m = 0 then FFin False 0 0 else FFin False m (femin f))"
      "\<bar>of_int m * 2 powi femin f - of_int n / of_int d\<bar> \<le> tiny f"
      by (rule fround_subnormal [OF nd(2,3) p em small])
    show ?thesis
    proof (cases "m = 0")
      case True
      then show ?thesis using m nd v0 range by (intro that(1) [of False]) (simp_all add: f)
    next
      case False
      then show ?thesis using m nd v0 range by (intro that(2) [of m]) (simp_all add: f)
    qed
  qed
qed

end
