(* ===== verification/Sum_Squares.thy ===== *)
theory Sum_Squares
  imports Float_Signed Inv_Sqrt
begin

text \<open>
  Sums of squares in \<^verbatim>\<open>float\<close>, as the attitude filter computes them before its inverse square root:
  the error of the sum, and the form of a sum that is too small to be a normal number.
\<close>

section \<open>Operations of binary32\<close>

abbreviation fval32 :: "f32 \<Rightarrow> real \<Rightarrow> bool" where "fval32 x a \<equiv> fval binary32 (of_f32 x) a"

lemma format32: "1 < fprec binary32" "femin binary32 < femax binary32" "tiny binary32 = 1 / 2 ^ 150"
  "2 powi (femax binary32 + int (fprec binary32) - 1) = (2 ^ 127 :: real)"
  "2 powi (femin binary32 + int (fprec binary32) - 1) = (1 / 2 ^ 126 :: real)"
  by (simp_all add: binary32_def tiny_def power_int_def field_simps)

lemma mul32:
  assumes "fval32 x a" "fval32 y b" "\<bar>a * b\<bar> < 2 ^ 127"
  obtains c where "fval32 (x * y) c" "\<bar>c - a * b\<bar> \<le> \<bar>a * b\<bar> / 2 ^ 24 + 1 / 2 ^ 150" "0 \<le> a * b \<Longrightarrow> 0 \<le> c"
  using fmul_close [OF assms(1,2) format32(1,2)] assms(3)
  by (auto simp: times_f32_def ulp32 format32(3,4))

lemma add32:
  assumes "fval32 x a" "fval32 y b" "\<bar>a + b\<bar> < 2 ^ 127"
  obtains c where "fval32 (x + y) c" "\<bar>c - (a + b)\<bar> \<le> \<bar>a + b\<bar> / 2 ^ 24 + 1 / 2 ^ 150" "0 \<le> a + b \<Longrightarrow> 0 \<le> c"
  using fadd_close [OF assms(1,2) format32(1,2)] assms(3)
  by (auto simp: plus_f32_def ulp32 format32(3,4))

lemma add32_normal:
  assumes "fval32 x a" "fval32 y b" "1 / 2 ^ 126 \<le> a + b" "a + b < 2 ^ 127"
  obtains c where "fpos binary32 (of_f32 (x + y)) c" "\<bar>c - (a + b)\<bar> \<le> (a + b) / 2 ^ 24"
  using fadd_normal [OF assms(1,2) format32(1)] assms(3,4)
  by (auto simp: plus_f32_def ulp32 in_range32)

text \<open>The numbers below \<open>2 ^ -125\<close>, as the operations deliver them: \<open>m / 2 ^ 149\<close>.\<close>

definition small32 :: "f32 \<Rightarrow> bool" where
  "small32 x \<longleftrightarrow> (\<exists>zs. x = F32 (FFin zs 0 0)) \<or> (\<exists>m. 0 < m \<and> m < 2 ^ 24 \<and> x = F32 (FFin False m (-149)))"

lemma add32_small:
  assumes "fval32 x a" "fval32 y b" "0 \<le> a + b" "a + b < 1 / 2 ^ 126"
  shows "small32 (x + y)"
proof -
  note range = assms(3) assms(4) [folded format32(5)]
  show ?thesis
    by (rule fadd_small [OF assms(1,2) format32(1,2) range])
      (auto simp: small32_def plus_f32_def binary32_def)
qed

section \<open>The sum of squares\<close>

text \<open>Errors of a sum \<open>N\<close> are counted in units of \<open>N / 2 ^ 23 + 1 / 2 ^ 149\<close>; the rounding of an
operation on numbers up to \<open>N\<close> is at most one unit.\<close>

definition unit32 :: "real \<Rightarrow> real" where "unit32 N = N / 2 ^ 23 + 1 / 2 ^ 149"

lemma unit_error: "0 \<le> N \<Longrightarrow> v \<le> N + 7 * unit32 N \<Longrightarrow> v / 2 ^ 24 + 1 / 2 ^ 150 \<le> unit32 N"
proof -
  assume N: "0 \<le> N" "v \<le> N + 7 * unit32 N"
  then have "v / 2 ^ 24 \<le> (N + 7 * unit32 N) / 2 ^ 24" by (intro divide_right_mono) simp_all
  then show ?thesis using N(1) by (simp add: unit32_def)
qed

lemma unit_range: "0 \<le> N \<Longrightarrow> N \<le> 2 ^ 100 \<Longrightarrow> 0 \<le> unit32 N \<and> unit32 N \<le> 2 ^ 78"
  by (simp add: unit32_def)

lemma square_step:
  assumes "fval32 x a" "a\<^sup>2 \<le> N" "N \<le> 2 ^ 100"
  obtains p where "fval32 (x * x) p" "\<bar>p - a\<^sup>2\<bar> \<le> unit32 N" "0 \<le> p"
proof -
  have sq: "a * a = a\<^sup>2" by (simp add: power2_eq_square)
  have "a\<^sup>2 < 2 ^ 127" using assms(2,3) by (rule le_less_trans [OF order_trans]) simp
  then obtain p where p: "fval32 (x * x) p" "\<bar>p - a\<^sup>2\<bar> \<le> a\<^sup>2 / 2 ^ 24 + 1 / 2 ^ 150" "0 \<le> p"
    using mul32 [OF assms(1,1)] unfolding sq by auto
  have N: "0 \<le> N" using assms(2) by (rule order_trans [rotated]) simp
  have "a\<^sup>2 / 2 ^ 24 + 1 / 2 ^ 150 \<le> unit32 N"
    by (rule unit_error [OF N]) (use assms(2) unit_range [OF N assms(3)] in simp)
  with p(2) have "\<bar>p - a\<^sup>2\<bar> \<le> unit32 N" by (rule order_trans)
  with p that show ?thesis by blast
qed

lemma sum_step:
  assumes "fval32 x a" "\<bar>a - A\<bar> \<le> i * unit32 N" "0 \<le> a" "fval32 y b" "\<bar>b - B\<bar> \<le> unit32 N" "0 \<le> b"
    and "0 \<le> A" "0 \<le> B" "A + B \<le> N" "i \<le> 5" "N \<le> 2 ^ 100"
  obtains c where "fval32 (x + y) c" "\<bar>c - (A + B)\<bar> \<le> (i + 2) * unit32 N" "0 \<le> c"
proof -
  define u where "u = unit32 N"
  have N: "0 \<le> N" using assms(7-9) by linarith
  have u: "0 \<le> u" "u \<le> 2 ^ 78" using unit_range [OF N assms(11)] by (simp_all add: u_def)
  have "i * u \<le> 5 * u" using assms(10) u(1) by (rule mult_right_mono)
  then have ab: "\<bar>a + b - (A + B)\<bar> \<le> i * u + u" "\<bar>a + b\<bar> \<le> N + 6 * u"
    using assms(2,5,7-9) unfolding u_def [symmetric] by linarith+
  then have "\<bar>a + b\<bar> \<le> 2 ^ 100 + 6 * 2 ^ 78" using assms(11) u(2) by linarith
  then have "\<bar>a + b\<bar> < 2 ^ 127" by (rule le_less_trans) simp
  then obtain c where c: "fval32 (x + y) c" "\<bar>c - (a + b)\<bar> \<le> \<bar>a + b\<bar> / 2 ^ 24 + 1 / 2 ^ 150" "0 \<le> c"
    using add32 [OF assms(1,4)] assms(3,6) by (metis add_nonneg_nonneg)
  have "\<bar>a + b\<bar> / 2 ^ 24 + 1 / 2 ^ 150 \<le> u"
    unfolding u_def by (rule unit_error [OF N]) (use ab(2) u(1) in \<open>simp add: u_def\<close>)
  with c(2) have "\<bar>c - (a + b)\<bar> \<le> u" by (rule order_trans)
  with ab(1) have "\<bar>c - (A + B)\<bar> \<le> (i + 2) * u" by (simp add: algebra_simps)
  with c(1,3) that show ?thesis unfolding u_def by blast
qed

text \<open>What is known of the sum: it is a normal number near \<open>N\<close>, or both are small.\<close>

definition near_sum :: "f32 \<Rightarrow> real \<Rightarrow> bool" where
  "near_sum x N \<longleftrightarrow>
     (\<exists>t. fpos binary32 (of_f32 x) t \<and> \<bar>t - N\<bar> \<le> 7 * unit32 N) \<or> (small32 x \<and> N < 101 / 100 / 2 ^ 126)"

lemma last_step:
  assumes "fval32 x a" "\<bar>a - A\<bar> \<le> 5 * unit32 N" "0 \<le> a" "fval32 y b" "\<bar>b - B\<bar> \<le> unit32 N" "0 \<le> b"
    and "0 \<le> A" "0 \<le> B" "A + B = N" "N \<le> 2 ^ 100"
  shows "near_sum (x + y) N"
proof -
  define u where "u = unit32 N"
  have N: "0 \<le> N" using assms(7-9) by linarith
  have u: "0 \<le> u" "u \<le> 2 ^ 78" using unit_range [OF N assms(10)] by (simp_all add: u_def)
  have ab: "\<bar>a + b - N\<bar> \<le> 6 * u" using assms(2,5,9) unfolding u_def [symmetric] by linarith
  have pos: "0 \<le> a + b" using assms(3,6) by simp
  show ?thesis
  proof (cases "1 / 2 ^ 126 \<le> a + b")
    case True
    have "a + b \<le> 2 ^ 100 + 6 * 2 ^ 78" using ab assms(10) u by linarith
    then have "a + b < 2 ^ 127" by (rule le_less_trans) simp
    with True obtain c where c: "fpos binary32 (of_f32 (x + y)) c" "\<bar>c - (a + b)\<bar> \<le> (a + b) / 2 ^ 24"
      using add32_normal [OF assms(1,4)] by blast
    have "(a + b) / 2 ^ 24 + 1 / 2 ^ 150 \<le> u"
      unfolding u_def by (rule unit_error [OF N]) (use ab u(1) in \<open>simp add: u_def abs_le_iff\<close>)
    moreover have "(0 :: real) \<le> 1 / 2 ^ 150" by simp
    ultimately have "\<bar>c - N\<bar> \<le> 7 * u" using c(2) ab by linarith
    with c(1) show ?thesis unfolding near_sum_def u_def by blast
  next
    case False
    then have "small32 (x + y)" using add32_small [OF assms(1,4) pos] by simp
    moreover have "N < 101 / 100 / 2 ^ 126"
    proof -
      have "N \<le> 1 / 2 ^ 126 + 6 * (N / 2 ^ 23 + 1 / 2 ^ 149)"
        using ab False unfolding u_def unit32_def by linarith
      then show ?thesis by simp
    qed
    ultimately show ?thesis by (simp add: near_sum_def)
  qed
qed

text \<open>Sums of four and of three squares.\<close>

lemma sum_of_squares:
  assumes v: "fval32 x0 a0" "fval32 x1 a1" "fval32 x2 a2" "fval32 x3 a3"
    and N: "N = a0\<^sup>2 + a1\<^sup>2 + a2\<^sup>2 + a3\<^sup>2" "N \<le> 2 ^ 100"
  shows "near_sum (x0 * x0 + x1 * x1 + x2 * x2 + x3 * x3) N"
proof -
  have le: "a0\<^sup>2 \<le> N" "a1\<^sup>2 \<le> N" "a2\<^sup>2 \<le> N" "a3\<^sup>2 \<le> N" "a0\<^sup>2 + a1\<^sup>2 \<le> N" "a0\<^sup>2 + a1\<^sup>2 + a2\<^sup>2 \<le> N" by (simp_all add: N(1))
  obtain p0 where p0: "fval32 (x0 * x0) p0" "\<bar>p0 - a0\<^sup>2\<bar> \<le> 1 * unit32 N" "0 \<le> p0"
    by (rule square_step [OF v(1) le(1) N(2)]) simp
  obtain p1 where p1: "fval32 (x1 * x1) p1" "\<bar>p1 - a1\<^sup>2\<bar> \<le> unit32 N" "0 \<le> p1" by (rule square_step [OF v(2) le(2) N(2)])
  obtain p2 where p2: "fval32 (x2 * x2) p2" "\<bar>p2 - a2\<^sup>2\<bar> \<le> unit32 N" "0 \<le> p2" by (rule square_step [OF v(3) le(3) N(2)])
  obtain p3 where p3: "fval32 (x3 * x3) p3" "\<bar>p3 - a3\<^sup>2\<bar> \<le> unit32 N" "0 \<le> p3" by (rule square_step [OF v(4) le(4) N(2)])
  obtain s1 where s1: "fval32 (x0 * x0 + x1 * x1) s1" "\<bar>s1 - (a0\<^sup>2 + a1\<^sup>2)\<bar> \<le> (1 + 2) * unit32 N" "0 \<le> s1"
    by (rule sum_step [OF p0 p1 _ _ le(5) _ N(2)]) simp_all
  obtain s2 where s2: "fval32 (x0 * x0 + x1 * x1 + x2 * x2) s2" "\<bar>s2 - (a0\<^sup>2 + a1\<^sup>2 + a2\<^sup>2)\<bar> \<le> (1 + 2 + 2) * unit32 N" "0 \<le> s2"
    by (rule sum_step [OF s1 p2 _ _ le(6) _ N(2)]) simp_all
  have s2': "\<bar>s2 - (a0\<^sup>2 + a1\<^sup>2 + a2\<^sup>2)\<bar> \<le> 5 * unit32 N" using s2(2) by simp
  show ?thesis by (rule last_step [OF s2(1) s2' s2(3) p3 _ _ N(1) [symmetric] N(2)]) simp_all
qed

lemma sum_of_squares3:
  assumes v: "fval32 x0 a0" "fval32 x1 a1" "fval32 x2 a2"
    and N: "N = a0\<^sup>2 + a1\<^sup>2 + a2\<^sup>2" "N \<le> 2 ^ 100"
  shows "near_sum (x0 * x0 + x1 * x1 + x2 * x2) N"
proof -
  have le: "a0\<^sup>2 \<le> N" "a1\<^sup>2 \<le> N" "a2\<^sup>2 \<le> N" "a0\<^sup>2 + a1\<^sup>2 \<le> N" by (simp_all add: N(1))
  obtain p0 where p0: "fval32 (x0 * x0) p0" "\<bar>p0 - a0\<^sup>2\<bar> \<le> 1 * unit32 N" "0 \<le> p0"
    by (rule square_step [OF v(1) le(1) N(2)]) simp
  obtain p1 where p1: "fval32 (x1 * x1) p1" "\<bar>p1 - a1\<^sup>2\<bar> \<le> unit32 N" "0 \<le> p1" by (rule square_step [OF v(2) le(2) N(2)])
  obtain p2 where p2: "fval32 (x2 * x2) p2" "\<bar>p2 - a2\<^sup>2\<bar> \<le> unit32 N" "0 \<le> p2" by (rule square_step [OF v(3) le(3) N(2)])
  obtain s1 where s1: "fval32 (x0 * x0 + x1 * x1) s1" "\<bar>s1 - (a0\<^sup>2 + a1\<^sup>2)\<bar> \<le> (1 + 2) * unit32 N" "0 \<le> s1"
    by (rule sum_step [OF p0 p1 _ _ le(4) _ N(2)]) simp_all
  have "0 \<le> unit32 N" using unit_range [OF _ N(2)] by (simp add: N(1))
  moreover have "\<bar>s1 - (a0\<^sup>2 + a1\<^sup>2)\<bar> \<le> 3 * unit32 N" using s1(2) by simp
  ultimately have s1': "\<bar>s1 - (a0\<^sup>2 + a1\<^sup>2)\<bar> \<le> 5 * unit32 N" by linarith
  show ?thesis by (rule last_step [OF s1(1) s1' s1(3) p2 _ _ N(1) [symmetric] N(2)]) simp_all
qed

text \<open>For a sum in the normal range the absolute part of the error is negligible.\<close>

lemma near_sum_normal:
  assumes "near_sum x N" "1 / 2 ^ 100 \<le> N"
  obtains t where "fpos binary32 (of_f32 x) t" "\<bar>t - N\<bar> \<le> 8 * (N / 2 ^ 23)"
proof -
  have "(101 / 100 / 2 ^ 126 :: real) \<le> 1 / 2 ^ 100" by simp
  then have "\<not> N < 101 / 100 / 2 ^ 126" using assms(2) by linarith
  then obtain t where t: "fpos binary32 (of_f32 x) t" "\<bar>t - N\<bar> \<le> 7 * unit32 N"
    using assms(1) by (auto simp: near_sum_def)
  have "(7 :: real) / 2 ^ 149 \<le> 1 / 2 ^ 100 / 2 ^ 23" by simp
  also have "\<dots> \<le> N / 2 ^ 23" using assms(2) by (intro divide_right_mono) simp_all
  finally have "7 / 2 ^ 149 \<le> N / 2 ^ 23" .
  then have "7 * unit32 N \<le> 8 * (N / 2 ^ 23)" by (simp add: unit32_def)
  with t that show ?thesis by (metis order_trans)
qed

end
