(* ===== verification/Unit_Quaternion.thy ===== *)
theory Unit_Quaternion
  imports Sum_Squares Madgwick_Gradient
begin

text \<open>
  The normalisation of the attitude quaternion in \<^verbatim>\<open>float\<close>: what the filter stores is within 0.19
  percent of the exact unit quaternion, in each component and in length, whatever the signs of the
  components, and with subnormal numbers and underflow of the squares included.
\<close>

section \<open>The factor\<close>

text \<open>\<open>r * sqrt N\<close> is as close to one as the inverse square root is accurate.\<close>

lemma sqrt_near_one: "0 \<le> z \<Longrightarrow> \<bar>sqrt z - 1\<bar> \<le> \<bar>z - 1\<bar>"
proof -
  assume z: "0 \<le> z"
  have "\<bar>sqrt z - 1\<bar> * 1 \<le> \<bar>sqrt z - 1\<bar> * \<bar>sqrt z + 1\<bar>" using z by (intro mult_left_mono) simp_all
  also have "\<dots> = \<bar>(sqrt z - 1) * (sqrt z + 1)\<bar>" by (simp add: abs_mult)
  also have "(sqrt z - 1) * (sqrt z + 1) = z - 1" using z by (simp add: algebra_simps)
  finally show ?thesis by simp
qed

lemma factor_close:
  assumes t: "0 < t" "\<bar>t - N\<bar> \<le> 8 * (N / 2 ^ 23)" and N: "0 < N" and r: "\<bar>r * sqrt t - 1\<bar> < 18 / 10000"
  shows "\<bar>r * sqrt N - 1\<bar> < 181 / 100000"
proof -
  have "N - 8 * (N / 2 ^ 23) \<le> t" using t(2) by linarith
  moreover have "N / 2 \<le> N - 8 * (N / 2 ^ 23)" using N by simp
  ultimately have "N / 2 \<le> t" by simp
  then have "\<bar>t - N\<bar> \<le> 8 * (2 * t / 2 ^ 23)" using t(2) by simp
  then have "\<bar>t - N\<bar> / t \<le> 16 / 2 ^ 23" using t(1) by (simp add: field_simps)
  moreover have "N / t - 1 = - ((t - N) / t)" using t(1) by (simp add: field_simps)
  ultimately have "\<bar>N / t - 1\<bar> \<le> 16 / 2 ^ 23" using t(1) by (simp add: abs_divide)
  then have s: "\<bar>sqrt (N / t) - 1\<bar> \<le> 16 / 2 ^ 23" using sqrt_near_one [of "N / t"] N t(1) by simp
  have e: "r * sqrt N = r * sqrt t * sqrt (N / t)" using t(1) by (simp add: real_sqrt_divide)
  define x y where "x = r * sqrt t - 1" and "y = sqrt (N / t) - 1"
  have "r * sqrt N - 1 = x + y + x * y" unfolding e by (simp add: x_def y_def algebra_simps)
  moreover have "\<bar>x * y\<bar> \<le> 1 * (16 / 2 ^ 23)"
    unfolding abs_mult using r s by (intro mult_mono) (simp_all add: x_def y_def)
  moreover have "\<bar>x\<bar> < 18 / 10000" "\<bar>y\<bar> \<le> 16 / 2 ^ 23" using r s by (simp_all add: x_def y_def)
  moreover have "(16 :: real) / 2 ^ 23 \<le> 2 / 1000000" by simp
  ultimately show ?thesis by linarith
qed

lemma inverse_root:
  assumes t: "fpos binary32 (of_f32 x) t" "1 / 2 ^ 125 \<le> t"
  obtains r where "fpos binary32 (of_f32 (invSqrt x)) r" "\<bar>r * sqrt t - 1\<bar> < 18 / 10000"
proof -
  from t(1) obtain m e where x: "x = F32 (FFin False m e)" and n: "normal32 m e" and te: "t = of_int m * 2 powi e"
    by (cases x) (auto simp: fpos_def binary32_def normal32_def)
  have "-148 \<le> e"
  proof (rule ccontr)
    assume "\<not> -148 \<le> e"
    then have e: "e = -149" using n by (simp add: normal32_def)
    have "t < 2 ^ 24 * 2 powi (-149)" unfolding te e using n by (simp add: normal32_def)
    also have "\<dots> \<le> 1 / 2 ^ 125" by (simp add: power_int_def power_divide)
    finally show False using t(2) by simp
  qed
  from invSqrt_accurate [OF n this] that show ?thesis by (auto simp: x te)
qed

section \<open>The components\<close>

text \<open>A component \<open>n\<close> of the exact unit quaternion (\<open>a = n * sqrt N\<close>), scaled in float.\<close>

lemma component_close:
  assumes "fval32 x a" "fval32 y r" "a = n * S" "\<bar>n\<bar> \<le> 1" "\<bar>r * S - 1\<bar> < 181 / 100000"
  obtains b where "fval32 (x * y) b" "\<bar>b - n * (r * S)\<bar> \<le> 1 / 2 ^ 22" "\<bar>b - n\<bar> < 19 / 10000"
proof -
  define g where "g = r * S"
  have ar: "a * r = n * g" by (simp add: assms(3) g_def)
  have g: "\<bar>g\<bar> \<le> 2" "\<bar>g - 1\<bar> < 181 / 100000" using assms(5) unfolding g_def by linarith+
  have "\<bar>n * g\<bar> \<le> 1 * 2" unfolding abs_mult using assms(4) g(1) by (intro mult_mono) simp_all
  then have ng: "\<bar>a * r\<bar> \<le> 2" by (simp add: ar)
  then have "\<bar>a * r\<bar> < 2 ^ 127" by (rule le_less_trans) simp
  then obtain b where b: "fval32 (x * y) b" "\<bar>b - a * r\<bar> \<le> \<bar>a * r\<bar> / 2 ^ 24 + 1 / 2 ^ 150"
    using mul32 [OF assms(1,2)] by blast
  have "\<bar>a * r\<bar> / 2 ^ 24 + 1 / 2 ^ 150 \<le> 2 / 2 ^ 24 + 1 / 2 ^ 150"
    using ng by (intro add_right_mono divide_right_mono) simp_all
  also have "\<dots> \<le> (1 :: real) / 2 ^ 22" by simp
  finally have e: "\<bar>b - n * g\<bar> \<le> 1 / 2 ^ 22" using b(2) by (simp add: ar)
  have "\<bar>n * g - n\<bar> = \<bar>n\<bar> * \<bar>g - 1\<bar>" by (simp add: right_diff_distrib flip: abs_mult)
  also have "\<dots> \<le> 1 * (181 / 100000)" using assms(4) g by (intro mult_mono) simp_all
  finally have "\<bar>n * g - n\<bar> \<le> 181 / 100000" by simp
  moreover have "(1 :: real) / 2 ^ 22 < 9 / 100000" by simp
  ultimately have "\<bar>b - n\<bar> < 19 / 10000" using e by linarith
  with b(1) e that show ?thesis by (simp add: g_def)
qed

text \<open>Squares of nearby numbers.\<close>

lemma square_close:
  assumes "\<bar>b - c\<bar> \<le> 1 / 2 ^ 22" "\<bar>c\<bar> \<le> 2"
  shows "\<bar>b\<^sup>2 - c\<^sup>2\<bar> \<le> 1 / (10 ^ 5 :: real)"
proof -
  have "(1 :: real) / 2 ^ 22 \<le> 1" by simp
  with assms have "\<bar>b + c\<bar> \<le> 5" by linarith
  then have "\<bar>b - c\<bar> * \<bar>b + c\<bar> \<le> 1 / 2 ^ 22 * 5" using assms by (intro mult_mono) simp_all
  moreover have "b\<^sup>2 - c\<^sup>2 = (b - c) * (b + c)" by (simp add: power2_eq_square algebra_simps)
  ultimately show ?thesis by (simp add: abs_mult)
qed

lemma length_close:
  assumes n: "n0\<^sup>2 + n1\<^sup>2 + n2\<^sup>2 + n3\<^sup>2 = 1" and g: "\<bar>g - 1\<bar> < 181 / 100000"
    and b: "\<bar>b0 - n0 * g\<bar> \<le> 1 / 2 ^ 22" "\<bar>b1 - n1 * g\<bar> \<le> 1 / 2 ^ 22" "\<bar>b2 - n2 * g\<bar> \<le> 1 / 2 ^ 22" "\<bar>b3 - n3 * g\<bar> \<le> 1 / 2 ^ 22"
  shows "\<bar>sqrt (b0\<^sup>2 + b1\<^sup>2 + b2\<^sup>2 + b3\<^sup>2) - 1\<bar> < 19 / 10000"
proof -
  have g2: "\<bar>g\<bar> \<le> 2" "\<bar>g + 1\<bar> \<le> 200181 / 100000" using g by linarith+
  have "(n0 * g)\<^sup>2 + (n1 * g)\<^sup>2 + (n2 * g)\<^sup>2 + (n3 * g)\<^sup>2 = (n0\<^sup>2 + n1\<^sup>2 + n2\<^sup>2 + n3\<^sup>2) * g\<^sup>2"
    by (simp add: power_mult_distrib algebra_simps)
  then have sum: "(n0 * g)\<^sup>2 + (n1 * g)\<^sup>2 + (n2 * g)\<^sup>2 + (n3 * g)\<^sup>2 = g\<^sup>2" by (simp add: n)
  have c: "\<bar>m * g\<bar> \<le> 2" if "m\<^sup>2 \<le> 1" for m
  proof -
    have "\<bar>m\<bar> \<le> 1" using that by (simp add: abs_square_le_1)
    then have "\<bar>m\<bar> * \<bar>g\<bar> \<le> 1 * 2" using g2(1) by (intro mult_mono) simp_all
    then show ?thesis by (simp add: abs_mult)
  qed
  have sq: "0 \<le> n0\<^sup>2" "0 \<le> n1\<^sup>2" "0 \<le> n2\<^sup>2" "0 \<le> n3\<^sup>2" by simp_all
  then have "n0\<^sup>2 \<le> 1" "n1\<^sup>2 \<le> 1" "n2\<^sup>2 \<le> 1" "n3\<^sup>2 \<le> 1" using n by linarith+
  with b c have "\<bar>b0\<^sup>2 - (n0 * g)\<^sup>2\<bar> \<le> 1 / 10 ^ 5" "\<bar>b1\<^sup>2 - (n1 * g)\<^sup>2\<bar> \<le> 1 / 10 ^ 5"
    "\<bar>b2\<^sup>2 - (n2 * g)\<^sup>2\<bar> \<le> 1 / 10 ^ 5" "\<bar>b3\<^sup>2 - (n3 * g)\<^sup>2\<bar> \<le> 1 / 10 ^ 5"
    by (intro square_close; blast)+
  then have L: "\<bar>b0\<^sup>2 + b1\<^sup>2 + b2\<^sup>2 + b3\<^sup>2 - g\<^sup>2\<bar> \<le> 4 / 10 ^ 5" using sum by linarith
  have "\<bar>g - 1\<bar> * \<bar>g + 1\<bar> \<le> 181 / 100000 * (200181 / 100000)"
    using g g2 by (intro mult_mono) simp_all
  moreover have "g\<^sup>2 - 1 = (g - 1) * (g + 1)" by (simp add: power2_eq_square algebra_simps)
  ultimately have "\<bar>g\<^sup>2 - 1\<bar> \<le> 363 / 100000" by (simp add: abs_mult)
  moreover have "(4 :: real) / 10 ^ 5 \<le> 4 / 100000" by simp
  ultimately have "\<bar>b0\<^sup>2 + b1\<^sup>2 + b2\<^sup>2 + b3\<^sup>2 - 1\<bar> \<le> 37 / 10000" using L by linarith
  then have "1 - 37 / 10000 \<le> b0\<^sup>2 + b1\<^sup>2 + b2\<^sup>2 + b3\<^sup>2" "b0\<^sup>2 + b1\<^sup>2 + b2\<^sup>2 + b3\<^sup>2 \<le> 1 + 37 / 10000"
    by linarith+
  moreover have "(99812 / 100000)\<^sup>2 \<le> 1 - 37 / (10000 :: real)" "1 + 37 / 10000 \<le> (100185 / 100000 :: real)\<^sup>2"
    by (simp_all add: power2_eq_square)
  ultimately have "(99812 / 100000)\<^sup>2 \<le> b0\<^sup>2 + b1\<^sup>2 + b2\<^sup>2 + b3\<^sup>2" "b0\<^sup>2 + b1\<^sup>2 + b2\<^sup>2 + b3\<^sup>2 \<le> (100185 / 100000)\<^sup>2"
    by linarith+
  then have "99812 / 100000 \<le> sqrt (b0\<^sup>2 + b1\<^sup>2 + b2\<^sup>2 + b3\<^sup>2)" "sqrt (b0\<^sup>2 + b1\<^sup>2 + b2\<^sup>2 + b3\<^sup>2) \<le> 100185 / 100000"
    by - (rule real_le_rsqrt, assumption, rule real_le_lsqrt, simp_all)
  then show ?thesis by linarith
qed

section \<open>The quaternion\<close>

fun quat_val :: "f32 quat \<Rightarrow> real quat \<Rightarrow> bool" where
  "quat_val (x0, x1, x2, x3) (a0, a1, a2, a3) \<longleftrightarrow> fval32 x0 a0 \<and> fval32 x1 a1 \<and> fval32 x2 a2 \<and> fval32 x3 a3"

text \<open>\<open>b\<close> is within 0.19 percent of the direction of \<open>a\<close>, in each component and in length.\<close>

fun near_unit :: "real quat \<Rightarrow> real quat \<Rightarrow> bool" where
  "near_unit (a0, a1, a2, a3) (b0, b1, b2, b3) \<longleftrightarrow>
     (let n = sqrt (quat_norm2 (a0, a1, a2, a3)) in
      \<bar>b0 - a0 / n\<bar> < 19 / 10000 \<and> \<bar>b1 - a1 / n\<bar> < 19 / 10000 \<and> \<bar>b2 - a2 / n\<bar> < 19 / 10000 \<and> \<bar>b3 - a3 / n\<bar> < 19 / 10000
      \<and> \<bar>sqrt (quat_norm2 (b0, b1, b2, b3)) - 1\<bar> < 19 / 10000)"

lemma normalise4_near_unit:
  assumes A: "fl_inv_sqrt A = invSqrt" and s: "quat_val s a"
    and N: "1 / 2 ^ 100 \<le> quat_norm2 a" "quat_norm2 a \<le> 2 ^ 100"
  shows "\<exists>b. quat_val (normalise4 A s) b \<and> near_unit a b"
proof -
  obtain x0 x1 x2 x3 where sx: "s = (x0, x1, x2, x3)" by (cases s)
  obtain a0 a1 a2 a3 where a: "a = (a0, a1, a2, a3)" by (cases a)
  have v: "fval32 x0 a0" "fval32 x1 a1" "fval32 x2 a2" "fval32 x3 a3" using s by (simp_all add: sx a)
  define N where "N = a0\<^sup>2 + a1\<^sup>2 + a2\<^sup>2 + a3\<^sup>2"
  define S where "S = sqrt N"
  have N2: "1 / 2 ^ 100 \<le> N" "N \<le> 2 ^ 100" using N by (simp_all add: a N_def)
  then have N0: "0 < N" by (auto intro: less_le_trans [rotated])
  then have S: "0 < S" "S\<^sup>2 = N" by (simp_all add: S_def)
  obtain t where t: "fpos binary32 (of_f32 (x0 * x0 + x1 * x1 + x2 * x2 + x3 * x3)) t" "\<bar>t - N\<bar> \<le> 8 * (N / 2 ^ 23)"
    by (rule near_sum_normal [OF sum_of_squares [OF v N_def N2(2)] N2(1)])
  have "N / 2 \<le> N - 8 * (N / 2 ^ 23)" using N0 by simp
  then have "N / 2 \<le> t" using t(2) by linarith
  moreover have "(1 / 2 ^ 100) / 2 \<le> N / 2" using N2(1) by (rule divide_right_mono) simp
  ultimately have "(1 / 2 ^ 100) / 2 \<le> t" by (rule order_trans [rotated])
  then have "1 / 2 ^ 125 \<le> t" by (rule order_trans [rotated]) simp
  from inverse_root [OF t(1) this] obtain r
    where r: "fpos binary32 (of_f32 (invSqrt (x0 * x0 + x1 * x1 + x2 * x2 + x3 * x3))) r" "\<bar>r * sqrt t - 1\<bar> < 18 / 10000" .
  have g: "\<bar>r * S - 1\<bar> < 181 / 100000"
    unfolding S_def by (rule factor_close [OF fpos_positive [OF t(1)] t(2) N0 r(2)])
  note R = fval_fpos [OF r(1)]
  define n0 n1 n2 n3 where "n0 = a0 / S" and "n1 = a1 / S" and "n2 = a2 / S" and "n3 = a3 / S"
  have n: "n0\<^sup>2 + n1\<^sup>2 + n2\<^sup>2 + n3\<^sup>2 = 1"
    using S N0 by (simp add: n0_def n1_def n2_def n3_def power_divide N_def flip: add_divide_distrib)
  have "n0\<^sup>2 \<le> 1" "n1\<^sup>2 \<le> 1" "n2\<^sup>2 \<le> 1" "n3\<^sup>2 \<le> 1" unfolding n [symmetric] by simp_all
  then have l: "\<bar>n0\<bar> \<le> 1" "\<bar>n1\<bar> \<le> 1" "\<bar>n2\<bar> \<le> 1" "\<bar>n3\<bar> \<le> 1" by (simp_all add: abs_square_le_1)
  have e: "a0 = n0 * S" "a1 = n1 * S" "a2 = n2 * S" "a3 = n3 * S" using S by (simp_all add: n0_def n1_def n2_def n3_def)
  let ?r = "invSqrt (x0 * x0 + x1 * x1 + x2 * x2 + x3 * x3)"
  obtain b0 where b0: "fval32 (x0 * ?r) b0" "\<bar>b0 - n0 * (r * S)\<bar> \<le> 1 / 2 ^ 22" "\<bar>b0 - n0\<bar> < 19 / 10000"
    by (rule component_close [OF v(1) R e(1) l(1) g])
  obtain b1 where b1: "fval32 (x1 * ?r) b1" "\<bar>b1 - n1 * (r * S)\<bar> \<le> 1 / 2 ^ 22" "\<bar>b1 - n1\<bar> < 19 / 10000"
    by (rule component_close [OF v(2) R e(2) l(2) g])
  obtain b2 where b2: "fval32 (x2 * ?r) b2" "\<bar>b2 - n2 * (r * S)\<bar> \<le> 1 / 2 ^ 22" "\<bar>b2 - n2\<bar> < 19 / 10000"
    by (rule component_close [OF v(3) R e(3) l(3) g])
  obtain b3 where b3: "fval32 (x3 * ?r) b3" "\<bar>b3 - n3 * (r * S)\<bar> \<le> 1 / 2 ^ 22" "\<bar>b3 - n3\<bar> < 19 / 10000"
    by (rule component_close [OF v(4) R e(4) l(4) g])
  have "quat_val (normalise4 A s) (b0, b1, b2, b3)"
    using b0 b1 b2 b3 by (simp add: sx normalise4_def A Let_def)
  moreover have "near_unit a (b0, b1, b2, b3)"
    using b0(3) b1(3) b2(3) b3(3) length_close [OF n g b0(2) b1(2) b2(2) b3(2)]
    by (simp add: a n0_def n1_def n2_def n3_def S_def N_def)
  ultimately show ?thesis by blast
qed

section \<open>The update\<close>

text \<open>The quaternion of an update before its last normalisation.\<close>

definition integrated ::
  "'a flops \<Rightarrow> 'a::{plus,minus,times,uminus} \<Rightarrow> 'a vec \<Rightarrow> 'a vec \<Rightarrow> 'a vec \<Rightarrow> 'a quat \<Rightarrow> 'a quat" where
  "integrated A beta g a m q =
     integrate A q
       (if is_zero3 A a then gyro_rate A q g
        else let a' = normalise3 A a in
          feedback beta (gyro_rate A q g) (normalise4 A
            (if is_zero3 A m then imu_step A q a'
             else let m' = normalise3 A m in ahrs_step A q a' m' (earth_field A q m'))))"

lemma update_normalises: "MadgwickAHRSupdate A beta g a m q = normalise4 A (integrated A beta g a m q)"
  by (simp add: MadgwickAHRSupdate_def MadgwickAHRSupdateIMU_def integrated_def Let_def)

text \<open>C16. Every update of the filter, of the flight program and of both copies (any sample frequency), ends
  with a unit quaternion as good as the fast inverse square root: if the integrated quaternion is
  finite and of a length between 2^-50 and 2^50, the stored one is finite, each of its components is
  within 0.0019 of the exactly normalised one, and its length within 0.0019 of one. Rounding, signs,
  subnormal components and squares that underflow are included; \<open>sqrt\<close> of the C library is arbitrary.\<close>

theorem update_near_unit:
  assumes "quat_val (integrated ((float_ops sq)\<lparr>fl_freq := hz\<rparr>) beta g a m q) v"
    and "1 / 2 ^ 100 \<le> quat_norm2 v" "quat_norm2 v \<le> 2 ^ 100"
  shows "\<exists>b. quat_val (MadgwickAHRSupdate ((float_ops sq)\<lparr>fl_freq := hz\<rparr>) beta g a m q) b \<and> near_unit v b"
  unfolding update_normalises by (rule normalise4_near_unit [OF _ assms]) (simp add: float_ops_def)

text \<open>A turn around the first axis at one radian per second, with gravity along the third.\<close>

lemma integrated_test:
  "integrated ((float_ops id)\<lparr>fl_freq := 10\<rparr>) (f32_lit 1 10) (f32_lit 1 1, 0, 0) (0, 0, 1) (0, 0, 0) (1, 0, 0, 0)
   = (F32 (FFin False 8388608 (-23)), F32 (FFin False 13421773 (-28)), 0, 0)"
  by code_simp

lemma update_near_unit_witness:
  "\<exists>b. quat_val (MadgwickAHRSupdate ((float_ops id)\<lparr>fl_freq := 10\<rparr>) (f32_lit 1 10)
       (f32_lit 1 1, 0, 0) (0, 0, 1) (0, 0, 0) (1, 0, 0, 0)) b \<and> near_unit (1, 13421773 / 2 ^ 28, 0, 0) b"
proof (rule update_near_unit)
  show "quat_val (integrated ((float_ops id)\<lparr>fl_freq := 10\<rparr>) (f32_lit 1 10)
      (f32_lit 1 1, 0, 0) (0, 0, 1) (0, 0, 0) (1, 0, 0, 0)) (1, 13421773 / 2 ^ 28, 0, 0)"
    unfolding integrated_test by (auto simp: fval_def sign_of_def zero_f32_def power_int_def field_simps)
qed (simp_all add: power2_eq_square)

end
