(* ===== verification/Float_Range.thy ===== *)
theory Float_Range
  imports Unit_Quaternion
begin

text \<open>
  Ranges of \<^verbatim>\<open>float\<close> results: \<open>sized K x\<close> says that \<open>x\<close> is finite and at most \<open>K\<close> in size. There is one rule
  per operator, so that the range of a formula is computed along its structure; and normalisation by the
  fast inverse square root brings anything finite to at most four, the tiny vectors included.
\<close>

section \<open>Ranges\<close>

definition sized :: "real \<Rightarrow> f32 \<Rightarrow> bool" where
  "sized K x \<longleftrightarrow> (\<exists>a. fval32 x a \<and> \<bar>a\<bar> \<le> K)"

definition sized_pos :: "real \<Rightarrow> f32 \<Rightarrow> bool" where
  "sized_pos K x \<longleftrightarrow> (\<exists>a. fval32 x a \<and> 0 \<le> a \<and> a \<le> K)"

lemma sized_mono: "sized A x \<Longrightarrow> A \<le> B \<Longrightarrow> sized B x"
  by (force simp: sized_def)

lemma sized_pos_imp: "sized_pos K x \<Longrightarrow> sized K x"
  by (force simp: sized_def sized_pos_def)

text \<open>What rounding adds to the size of a result.\<close>

definition up :: "real \<Rightarrow> real" where "up K = K + K / 2 ^ 20 + 1 / 2 ^ 140"

lemma rounded_size:
  assumes "\<bar>c - v\<bar> \<le> \<bar>v\<bar> / 2 ^ 24 + 1 / 2 ^ 150" "\<bar>v\<bar> \<le> K"
  shows "\<bar>c\<bar> \<le> up K"
proof -
  have "\<bar>c\<bar> \<le> \<bar>v\<bar> + (\<bar>v\<bar> / 2 ^ 24 + 1 / 2 ^ 150)" using assms(1) by linarith
  also have "\<dots> \<le> K + (K / 2 ^ 20 + 1 / 2 ^ 140)"
  proof -
    have "\<bar>v\<bar> / 2 ^ 24 \<le> K / 2 ^ 20" using assms(2) by simp
    moreover have "(1 :: real) / 2 ^ 150 \<le> 1 / 2 ^ 140" by simp
    ultimately show ?thesis using assms(2) by linarith
  qed
  finally show ?thesis by (simp add: up_def)
qed

lemma product_size: "\<bar>a\<bar> \<le> A \<Longrightarrow> \<bar>b\<bar> \<le> B \<Longrightarrow> \<bar>a * b\<bar> \<le> A * (B :: real)"
  unfolding abs_mult by (rule mult_mono) auto

lemma sized_mult:
  assumes "sized A x" "sized B y" "A * B < 2 ^ 127"
  shows "sized (up (A * B)) (x * y)"
proof -
  obtain a b where ab: "fval32 x a" "\<bar>a\<bar> \<le> A" "fval32 y b" "\<bar>b\<bar> \<le> B" using assms(1,2) by (auto simp: sized_def)
  have "\<bar>a * b\<bar> \<le> A * B" using ab by (intro product_size)
  moreover from this assms(3) obtain c where "fval32 (x * y) c" "\<bar>c - a * b\<bar> \<le> \<bar>a * b\<bar> / 2 ^ 24 + 1 / 2 ^ 150"
    using mul32 [OF ab(1,3)] by (metis le_less_trans)
  ultimately show ?thesis using rounded_size by (auto simp: sized_def)
qed

lemma sized_plus:
  assumes "sized A x" "sized B y" "A + B < 2 ^ 127"
  shows "sized (up (A + B)) (x + y)"
proof -
  obtain a b where ab: "fval32 x a" "\<bar>a\<bar> \<le> A" "fval32 y b" "\<bar>b\<bar> \<le> B" using assms(1,2) by (auto simp: sized_def)
  have "\<bar>a + b\<bar> \<le> A + B" using ab by linarith
  moreover from this assms(3) obtain c where "fval32 (x + y) c" "\<bar>c - (a + b)\<bar> \<le> \<bar>a + b\<bar> / 2 ^ 24 + 1 / 2 ^ 150"
    using add32 [OF ab(1,3)] by (metis le_less_trans)
  ultimately show ?thesis using rounded_size by (auto simp: sized_def)
qed

lemma fval_neg: "fval f x a \<Longrightarrow> fval f (fneg x) (- a)"
  by (auto simp: fval_def sign_of_def)

lemma fval32_uminus: "fval32 x a \<Longrightarrow> fval32 (- x) (- a)"
  by (simp add: uminus_f32_def fval_neg)

lemma minus_as_plus: "(x :: f32) - y = x + (- y)"
  by (simp add: minus_f32_def plus_f32_def uminus_f32_def fsub_def)

lemma sized_uminus: "sized A x \<Longrightarrow> sized A (- x)"
  using fval32_uminus by (force simp: sized_def)

lemma sized_minus: "sized A x \<Longrightarrow> sized B y \<Longrightarrow> A + B < 2 ^ 127 \<Longrightarrow> sized (up (A + B)) (x - y)"
  unfolding minus_as_plus by (intro sized_plus sized_uminus)

lemma sized_pos_mult:
  assumes "sized_pos A x" "sized_pos B y" "A * B < 2 ^ 127"
  shows "sized_pos (up (A * B)) (x * y)"
proof -
  obtain a b where ab: "fval32 x a" "0 \<le> a" "a \<le> A" "fval32 y b" "0 \<le> b" "b \<le> B"
    using assms(1,2) by (auto simp: sized_pos_def)
  then have s: "0 \<le> a * b" "\<bar>a * b\<bar> \<le> A * B" by (simp, intro product_size) simp_all
  from this assms(3) obtain c where "fval32 (x * y) c" "\<bar>c - a * b\<bar> \<le> \<bar>a * b\<bar> / 2 ^ 24 + 1 / 2 ^ 150" "0 \<le> c"
    using mul32 [OF ab(1,4)] by (metis le_less_trans)
  with rounded_size [OF this(2) s(2)] show ?thesis by (auto simp: sized_pos_def)
qed

lemma fval_constants:
  "fval32 (f32_lit 1 2) (1 / 2)" "fval32 (f32_lit 3 2) (3 / 2)" "fval32 0 0"
  using fpos_constants constants32 by (simp_all add: fval_fpos zero_f32_def)

section \<open>Normalisation is bounded\<close>

lemma small_guess:
  assumes "0 \<le> m" "m < 2 ^ 24"
  defines "j \<equiv> 0x5f3759df - m div 2"
  shows "normal32 (j mod 2 ^ 23 + 2 ^ 23) (j div 2 ^ 23 - 150)"
    and "of_int (j mod 2 ^ 23 + 2 ^ 23) * 2 powi (j div 2 ^ 23 - 150) \<le> (133 * 10 ^ 17 :: real)"
    and "0 \<le> j" "j < 2 ^ 31" "1 \<le> j div 2 ^ 23" "j div 2 ^ 23 \<le> 254"
proof -
  have jj: "1589009503 < j" "j \<le> 1597463007" using assms(1,2) by (simp_all add: j_def)
  define q r where "q = j div 2 ^ 23" and "r = j mod 2 ^ 23"
  have "j = q * 8388608 + r" "0 \<le> r" "r < 8388608" by (simp_all add: q_def r_def)
  with jj have "189 \<le> q" "q \<le> 190" "q = 190 \<longrightarrow> r \<le> 3627487" by linarith+
  then have d: "j div 2 ^ 23 = 189 \<or> j div 2 ^ 23 = 190 \<and> j mod 2 ^ 23 \<le> 3627487" unfolding q_def r_def by linarith
  then show "normal32 (j mod 2 ^ 23 + 2 ^ 23) (j div 2 ^ 23 - 150)" by (auto simp: normal32_def)
  show "0 \<le> j" "j < 2 ^ 31" "1 \<le> j div 2 ^ 23" "j div 2 ^ 23 \<le> 254" using jj d by auto
  show "of_int (j mod 2 ^ 23 + 2 ^ 23) * 2 powi (j div 2 ^ 23 - 150) \<le> (133 * 10 ^ 17 :: real)"
    using d
  proof
    assume d: "j div 2 ^ 23 = 189"
    have "real_of_int (j mod 2 ^ 23 + 2 ^ 23) * 2 powi (j div 2 ^ 23 - 150) \<le> of_int (2 ^ 24) * 2 powi 39"
      unfolding d by (intro mult_mono) simp_all
    also have "\<dots> \<le> 133 * 10 ^ 17" by simp
    finally show ?thesis .
  next
    assume d: "j div 2 ^ 23 = 190 \<and> j mod 2 ^ 23 \<le> 3627487"
    then have "real_of_int (j mod 2 ^ 23 + 2 ^ 23) * 2 powi (j div 2 ^ 23 - 150) \<le> of_int (3627487 + 2 ^ 23) * 2 powi 40"
      by (intro mult_mono) simp_all
    also have "\<dots> \<le> 133 * 10 ^ 17" by simp
    finally show ?thesis .
  qed
qed

lemma small_bits:
  assumes "0 < m" "m < 2 ^ 24"
  shows "f32_to_bits (F32 (FFin False m (-149))) = word_of_int m"
  using assms by (simp add: f32_to_bits_def)

lemma newton_small:
  assumes x: "sized_pos (1 / 2 ^ 125) x" and y: "sized_pos (133 * 10 ^ 17) y"
  shows "sized (5 / 4 * 2 ^ 64) (y * (f32_lit 3 2 - (f32_lit 1 2 * x * y * y)))"
proof -
  have half: "sized_pos (1 / 2) (f32_lit 1 2)" using fval_constants(1) by (force simp: sized_pos_def)
  define H where "H = up (up (up (1 / 2 * (1 / 2 ^ 125)) * (133 * 10 ^ 17)) * (133 * 10 ^ 17))"
  have "sized_pos H (f32_lit 1 2 * x * y * y)"
    unfolding H_def by (intro sized_pos_mult half x y) (simp_all add: up_def)
  moreover have "H \<le> 21 / 10" by (simp add: H_def up_def)
  ultimately obtain h where h: "fval32 (f32_lit 1 2 * x * y * y) h" "0 \<le> h" "h \<le> 21 / 10"
    by (auto simp: sized_pos_def)
  have d: "\<bar>3 / 2 + - h\<bar> \<le> 3 / 2" using h(2,3) by linarith
  then have "\<bar>3 / 2 + - h\<bar> < 2 ^ 127" by (rule le_less_trans) simp
  then obtain c where "fval32 (f32_lit 3 2 - (f32_lit 1 2 * x * y * y)) c" "\<bar>c - (3 / 2 + - h)\<bar> \<le> \<bar>3 / 2 + - h\<bar> / 2 ^ 24 + 1 / 2 ^ 150"
    unfolding minus_as_plus using add32 [OF fval_constants(2) fval32_uminus [OF h(1)]] by blast
  with rounded_size [OF this(2) d] have "sized (up (3 / 2)) (f32_lit 3 2 - (f32_lit 1 2 * x * y * y))"
    by (auto simp: sized_def)
  then show ?thesis
    by (rule sized_mono [OF sized_mult [OF sized_pos_imp [OF y]]]) (simp_all add: up_def)
qed

text \<open>The inverse square root of a small number is bounded, though no longer accurate.\<close>

lemma invSqrt_small:
  assumes "small32 x" shows "sized (5 / 4 * 2 ^ 64) (invSqrt x)"
proof -
  have guess: "f32_of_bits (0x5f3759df - signed_drop_bit 1 (f32_to_bits x))
      = F32 (FFin False ((0x5f3759df - m div 2) mod 2 ^ 23 + 2 ^ 23) ((0x5f3759df - m div 2) div 2 ^ 23 - 150))"
    if "0 \<le> m" "m < 2 ^ 24" "f32_to_bits x = word_of_int m" for m
  proof -
    have "f32_of_bits (word_of_int (0x5f3759df - m div 2))
      = F32 (FFin False ((0x5f3759df - m div 2) mod 2 ^ 23 + 2 ^ 23) ((0x5f3759df - m div 2) div 2 ^ 23 - 150))"
      by (rule f32_of_bits_normal) (use small_guess(3-6) [OF that(1,2)] in simp_all)
    then show ?thesis using that shift_right [of m] by simp
  qed
  have bounded: "sized (5 / 4 * 2 ^ 64) (invSqrt x)"
    if m: "0 \<le> m" "m < 2 ^ 24" "f32_to_bits x = word_of_int m" "sized_pos (1 / 2 ^ 125) x" for m
  proof -
    note g = small_guess [OF m(1,2)]
    have "sized_pos (133 * 10 ^ 17) (F32 (FFin False ((0x5f3759df - m div 2) mod 2 ^ 23 + 2 ^ 23) ((0x5f3759df - m div 2) div 2 ^ 23 - 150)))"
      using fval_fpos [OF fpos_normal32 [OF g(1)]] g(2) fpos_positive [OF fpos_normal32 [OF g(1)]]
      by (auto simp: sized_pos_def)
    from newton_small [OF m(4) this] show ?thesis
      using guess [OF m(1-3)] by (simp add: invSqrt_def Let_def)
  qed
  from assms show ?thesis unfolding small32_def
  proof (elim disjE exE conjE)
    fix zs assume x: "x = F32 (FFin zs 0 0)"
    show ?thesis
    proof (cases zs)
      case False
      then show ?thesis by (intro bounded [of 0]) (auto simp: x f32_to_bits_def sized_pos_def intro!: exI [of _ 0])
    next
      case True
      have "of_f32 (invSqrt (F32 (FFin True 0 0))) = FFin True 9012071 (-87)" by code_simp
      moreover have "\<bar>- (9012071 / 2 ^ 87)\<bar> \<le> (5 / 4 * 2 ^ 64 :: real)" by simp
      ultimately show ?thesis
        by (auto simp: x True sized_def fval_def sign_of_def power_int_def field_simps intro!: exI [of _ "- (9012071 / 2 ^ 87)"])
    qed
  next
    fix m assume m: "0 < m" "m < 2 ^ 24" "x = F32 (FFin False m (-149))"
    have "fval32 x (of_int m * 2 powi (-149))" using m by (auto simp: fval_def sign_of_def)
    moreover have "of_int m * 2 powi (-149) \<le> (2 ^ 24 * 2 powi (-149) :: real)" using m by (intro mult_right_mono) simp_all
    ultimately have "sized_pos (1 / 2 ^ 125) x"
      using m(1) by (auto simp: sized_pos_def power_int_def power_divide intro!: exI)
    with m show ?thesis by (intro bounded [of m]) (simp_all add: small_bits)
  qed
qed

text \<open>A component times the inverse square root of the sum it is part of.\<close>

lemma component_bounded:
  assumes s: "near_sum S N" and x: "fval32 x a" "a\<^sup>2 \<le> N"
  shows "sized 4 (x * invSqrt S)"
proof -
  obtain r where r: "fval32 (invSqrt S) r" "N * r\<^sup>2 \<le> 13"
  proof (cases "\<exists>t. fpos binary32 (of_f32 S) t \<and> 1 / 2 ^ 125 \<le> t \<and> \<bar>t - N\<bar> \<le> 7 * unit32 N")
    case True
    then obtain t where t: "fpos binary32 (of_f32 S) t" "1 / 2 ^ 125 \<le> t" "\<bar>t - N\<bar> \<le> 7 * unit32 N" by blast
    obtain r where r: "fpos binary32 (of_f32 (invSqrt S)) r" "\<bar>r * sqrt t - 1\<bar> < 18 / 10000"
      by (rule inverse_root [OF t(1,2)])
    have "N \<le> t + 7 * (N / 2 ^ 23 + 1 / 2 ^ 149)" using t(3) unfolding unit32_def by linarith
    moreover have "7 * (1 / 2 ^ 149) \<le> t" using t(2) by (rule order_trans [rotated]) simp
    ultimately have N: "N \<le> 3 * t" using fpos_positive [OF t(1)] by simp
    have "r * sqrt t \<le> 2" "0 \<le> r * sqrt t" using r(2) by linarith+
    then have "(r * sqrt t)\<^sup>2 \<le> 2\<^sup>2" by (intro power_mono)
    then have "t * r\<^sup>2 \<le> 4" using fpos_positive [OF t(1)] by (simp add: power_mult_distrib mult.commute)
    moreover have "N * r\<^sup>2 \<le> 3 * t * r\<^sup>2" using N by (intro mult_right_mono) simp_all
    ultimately have "N * r\<^sup>2 \<le> 13" by simp
    with fval_fpos [OF r(1)] that show ?thesis by blast
  next
    case False
    have small: "small32 S \<and> N \<le> 101 / 100 / 2 ^ 125"
    proof (cases "small32 S \<and> N < 101 / 100 / 2 ^ 126")
      case False
      with s obtain t where t: "fpos binary32 (of_f32 S) t" "\<bar>t - N\<bar> \<le> 7 * unit32 N" by (auto simp: near_sum_def)
      with \<open>\<not> (\<exists>t. _ t)\<close> have t1: "t < 1 / 2 ^ 125" by force
      from t(1) obtain m e where S: "S = F32 (FFin False m e)" "normal32 m e" "t = of_int m * 2 powi e"
        by (cases S) (auto simp: fpos_def binary32_def normal32_def)
      have "\<not> -148 \<le> e"
      proof
        assume "-148 \<le> e"
        then have "of_int (2 ^ 23) * 2 powi (-148) \<le> t"
          unfolding S(3) using S(2) by (intro mult_mono power_int_increasing) (simp_all add: normal32_def)
        with t1 show False by (simp add: power_int_def power_divide)
      qed
      then have "small32 S" using S(1,2) by (simp add: small32_def normal32_def)
      moreover have "N \<le> t + 7 * (N / 2 ^ 23 + 1 / 2 ^ 149)" using t(2) unfolding unit32_def by linarith
      ultimately show ?thesis using t1 by simp
    qed simp
    then obtain r where r: "fval32 (invSqrt S) r" "\<bar>r\<bar> \<le> 5 / 4 * 2 ^ 64" using invSqrt_small by (auto simp: sized_def)
    have "r\<^sup>2 \<le> (5 / 4 * 2 ^ 64)\<^sup>2" using r(2) by (intro power2_le_iff_abs_le [THEN iffD2]) simp_all
    then have "N * r\<^sup>2 \<le> 101 / 100 / 2 ^ 125 * (5 / 4 * 2 ^ 64)\<^sup>2" using small by (intro mult_mono) simp_all
    then have "N * r\<^sup>2 \<le> 13" by (rule order_trans) (simp add: power2_eq_square)
    with r(1) that show ?thesis by blast
  qed
  have "(a * r)\<^sup>2 \<le> N * r\<^sup>2" unfolding power_mult_distrib using x(2) by (rule mult_right_mono) simp
  with r(2) have "(a * r)\<^sup>2 \<le> (361 / 100)\<^sup>2" by (simp add: power2_eq_square)
  then have ar: "\<bar>a * r\<bar> \<le> 361 / 100" by (simp add: power2_le_iff_abs_le)
  then have "\<bar>a * r\<bar> < 2 ^ 127" by (rule le_less_trans) simp
  then obtain c where "fval32 (x * invSqrt S) c" "\<bar>c - a * r\<bar> \<le> \<bar>a * r\<bar> / 2 ^ 24 + 1 / 2 ^ 150"
    using mul32 [OF x(1) r(1)] by blast
  with rounded_size [OF this(2) ar] show ?thesis by (auto simp: sized_def up_def)
qed

end
