(* ===== verification/Filter_Range.thy ===== *)
theory Filter_Range
  imports Float_Range
begin

text \<open>
  No input makes the filter overflow: from a quaternion of components up to four and measurements in the
  range of the sensors, an update of the float filter gives a quaternion of components up to four. So a
  NaN, which the filter would never leave again, cannot arise in it.
\<close>

section \<open>Rules\<close>

lemma up_coarse: "0 \<le> K \<Longrightarrow> up K \<le> 9 / 8 * K + 1"
  by (simp add: up_def)

lemma sized_nonneg: "sized A x \<Longrightarrow> 0 \<le> A"
  by (auto simp: sized_def)

lemma sized_times: "sized A x \<Longrightarrow> sized B y \<Longrightarrow> A * B < 2 ^ 127 \<Longrightarrow> sized (9 / 8 * (A * B) + 1) (x * y)"
  using sized_mono [OF sized_mult up_coarse] sized_nonneg by (metis mult_nonneg_nonneg)

lemma sized_add: "sized A x \<Longrightarrow> sized B y \<Longrightarrow> A + B < 2 ^ 127 \<Longrightarrow> sized (9 / 8 * (A + B) + 1) (x + y)"
  using sized_mono [OF sized_plus up_coarse] sized_nonneg by (metis add_nonneg_nonneg)

lemma sized_sub: "sized A x \<Longrightarrow> sized B y \<Longrightarrow> A + B < 2 ^ 127 \<Longrightarrow> sized (9 / 8 * (A + B) + 1) (x - y)"
  using sized_mono [OF sized_minus up_coarse] sized_nonneg by (metis add_nonneg_nonneg)

lemma sized_literals:
  "sized 1 (f32_lit 1 2)" "sized 1 (f32_lit 1 1)" "sized 2 (f32_lit 2 1)" "sized 4 (f32_lit 4 1)" "sized 8 (f32_lit 8 1)"
proof -
  show "sized 1 (f32_lit 1 2)" using fval_constants(1) by (force simp: sized_def)
  have "of_f32 (f32_lit 1 1) = FFin False 8388608 (-23)"
    "of_f32 (f32_lit 2 1) = FFin False 8388608 (-22)" "of_f32 (f32_lit 4 1) = FFin False 8388608 (-21)"
    "of_f32 (f32_lit 8 1) = FFin False 8388608 (-20)"
    by code_simp+
  then show "sized 1 (f32_lit 1 1)" "sized 2 (f32_lit 2 1)" "sized 4 (f32_lit 4 1)" "sized 8 (f32_lit 8 1)"
    by (auto simp: sized_def fval_def sign_of_def power_int_def power_divide)
qed

lemmas sized_rules = sized_times sized_add sized_sub sized_uminus sized_literals

fun sized3 :: "real \<Rightarrow> f32 vec \<Rightarrow> bool" where
  "sized3 K (x, y, z) \<longleftrightarrow> sized K x \<and> sized K y \<and> sized K z"

fun sized4 :: "real \<Rightarrow> f32 quat \<Rightarrow> bool" where
  "sized4 K (x0, x1, x2, x3) \<longleftrightarrow> sized K x0 \<and> sized K x1 \<and> sized K x2 \<and> sized K x3"

section \<open>Normalisation\<close>

lemma square_range: "\<bar>a\<bar> \<le> 2 ^ 49 \<Longrightarrow> a\<^sup>2 \<le> (2 :: real) ^ 98"
  using power2_le_iff_abs_le [of "2 ^ 49" a] by simp

lemma normalise4_sized:
  assumes "fl_inv_sqrt A = invSqrt" "sized4 (2 ^ 49) s"
  shows "sized4 4 (normalise4 A s)"
proof (cases s)
  case (fields x0 x1 x2 x3)
  obtain a0 a1 a2 a3 where a: "fval32 x0 a0" "fval32 x1 a1" "fval32 x2 a2" "fval32 x3 a3"
    "\<bar>a0\<bar> \<le> 2 ^ 49" "\<bar>a1\<bar> \<le> 2 ^ 49" "\<bar>a2\<bar> \<le> 2 ^ 49" "\<bar>a3\<bar> \<le> 2 ^ 49"
    using assms(2) by (auto simp: fields sized_def)
  define N where "N = a0\<^sup>2 + a1\<^sup>2 + a2\<^sup>2 + a3\<^sup>2"
  have "N \<le> 2 ^ 100" using a(5-8) [THEN square_range] by (simp add: N_def)
  from sum_of_squares [OF a(1-4) N_def this] have S: "near_sum (x0 * x0 + x1 * x1 + x2 * x2 + x3 * x3) N" .
  have "a0\<^sup>2 \<le> N" "a1\<^sup>2 \<le> N" "a2\<^sup>2 \<le> N" "a3\<^sup>2 \<le> N" by (simp_all add: N_def)
  with component_bounded [OF S] a show ?thesis by (simp add: fields normalise4_def Let_def assms(1))
qed

lemma normalise3_sized:
  assumes "fl_inv_sqrt A = invSqrt" "sized3 (2 ^ 49) s"
  shows "sized3 4 (normalise3 A s)"
proof (cases s)
  case (fields x0 x1 x2)
  obtain a0 a1 a2 where a: "fval32 x0 a0" "fval32 x1 a1" "fval32 x2 a2"
    "\<bar>a0\<bar> \<le> 2 ^ 49" "\<bar>a1\<bar> \<le> 2 ^ 49" "\<bar>a2\<bar> \<le> 2 ^ 49"
    using assms(2) by (auto simp: fields sized_def)
  define N where "N = a0\<^sup>2 + a1\<^sup>2 + a2\<^sup>2"
  have "N \<le> 2 ^ 100" using a(4-6) [THEN square_range] by (simp add: N_def)
  from sum_of_squares3 [OF a(1-3) N_def this] have S: "near_sum (x0 * x0 + x1 * x1 + x2 * x2) N" .
  have "a0\<^sup>2 \<le> N" "a1\<^sup>2 \<le> N" "a2\<^sup>2 \<le> N" by (simp_all add: N_def)
  with component_bounded [OF S] a show ?thesis by (simp add: fields normalise3_def Let_def assms(1))
qed

section \<open>The steps\<close>

lemma gyro_rate_sized:
  assumes "fl_lit A = f32_lit" "sized4 4 q" "sized3 (2 ^ 11) g"
  shows "sized4 (2 ^ 20) (gyro_rate A q g)"
proof (cases q; cases g)
  fix q0 q1 q2 q3 gx gy gz assume f: "q = (q0, q1, q2, q3)" "g = (gx, gy, gz)"
  have s: "sized 4 q0" "sized 4 q1" "sized 4 q2" "sized 4 q3" "sized (2 ^ 11) gx" "sized (2 ^ 11) gy" "sized (2 ^ 11) gz"
    using assms by (auto simp: f)
  show ?thesis
    unfolding f gyro_rate_def Let_def prod.case assms(1) sized4.simps
    by (intro conjI; rule sized_mono, (rule sized_rules s | simp)+)
qed

lemma imu_step_sized:
  assumes "fl_lit A = f32_lit" "sized4 4 q" "sized3 4 a"
  shows "sized4 (2 ^ 49) (imu_step A q a)"
proof (cases q; cases a)
  fix q0 q1 q2 q3 ax ay az assume f: "q = (q0, q1, q2, q3)" "a = (ax, ay, az)"
  have s: "sized 4 q0" "sized 4 q1" "sized 4 q2" "sized 4 q3" "sized 4 ax" "sized 4 ay" "sized 4 az"
    using assms by (auto simp: f)
  show ?thesis
    unfolding f imu_step_def Let_def prod.case assms(1) sized4.simps
    by (intro conjI; rule sized_mono, (rule sized_rules s | simp)+)
qed

lemma feedback_sized:
  assumes "sized K b" "0 \<le> K" "K \<le> 16" "sized4 (2 ^ 20) qDot" "sized4 4 s"
  shows "sized4 (2 ^ 24) (feedback b qDot s)"
proof (cases qDot; cases s)
  fix d0 d1 d2 d3 s0 s1 s2 s3 assume f: "qDot = (d0, d1, d2, d3)" "s = (s0, s1, s2, s3)"
  have b: "sized 16 b" using assms(1,3) by (rule sized_mono)
  have s: "sized (2 ^ 20) d0" "sized (2 ^ 20) d1" "sized (2 ^ 20) d2" "sized (2 ^ 20) d3"
    "sized 4 s0" "sized 4 s1" "sized 4 s2" "sized 4 s3"
    using assms(4,5) by (auto simp: f)
  show ?thesis
    unfolding f feedback_def prod.case sized4.simps
    by (intro conjI; rule sized_mono, (rule sized_rules s b | simp)+)
qed

lemma integrate_sized:
  assumes "sized 1 (fl_lit A 1 (fl_freq A))" "sized4 4 q" "sized4 (2 ^ 24) d"
  shows "sized4 (2 ^ 49) (integrate A q d)"
proof (cases q; cases d)
  fix d0 d1 d2 d3 s0 s1 s2 s3 assume f: "d = (d0, d1, d2, d3)" "q = (s0, s1, s2, s3)"
  have s: "sized (2 ^ 24) d0" "sized (2 ^ 24) d1" "sized (2 ^ 24) d2" "sized (2 ^ 24) d3"
    "sized 4 s0" "sized 4 s1" "sized 4 s2" "sized 4 s3"
    using assms(2,3) by (auto simp: f)
  show ?thesis
    unfolding f integrate_def Let_def prod.case sized4.simps
    by (intro conjI; rule sized_mono, (rule sized_rules s assms(1) | simp)+)
qed

section \<open>The field of the earth\<close>

text \<open>Of \<open>sqrt\<close> of the C library only this is used: for a finite number that is not negative the result
is finite, and off the square root by at most half of it (the library's is off by half a unit in the
last place).\<close>

definition sqrt_ok :: "(f64 \<Rightarrow> f64) \<Rightarrow> bool" where
  "sqrt_ok sq \<longleftrightarrow> (\<forall>x a. fval binary64 (of_f64 x) a \<and> 0 \<le> a \<longrightarrow>
     (\<exists>b. fval binary64 (of_f64 (sq x)) b \<and> \<bar>b - sqrt a\<bar> \<le> sqrt a / 2))"

text \<open>Numbers of binary64, and the conversions.\<close>

definition sized64 :: "real \<Rightarrow> f64 \<Rightarrow> bool" where
  "sized64 K x \<longleftrightarrow> (\<exists>a. fval binary64 (of_f64 x) a \<and> \<bar>a\<bar> \<le> K)"

lemma format64: "1 < fprec binary64" "femin binary64 < femax binary64" "tiny binary64 \<le> 1 / 2 ^ 150"
  "2 ^ 127 \<le> (2 powi (femax binary64 + int (fprec binary64) - 1) :: real)" "ulp_half binary64 \<le> 1 / 2 ^ 24"
  by (simp_all add: binary64_def tiny_def ulp_half_def power_int_def power_divide)

lemma size_after:
  assumes "\<bar>c - v\<bar> \<le> u * \<bar>v\<bar> + t" "u \<le> 1 / 2 ^ 24" "t \<le> 1 / 2 ^ 150" "\<bar>v\<bar> \<le> K"
  shows "\<bar>c\<bar> \<le> up K"
proof -
  have "u * \<bar>v\<bar> \<le> 1 / 2 ^ 24 * \<bar>v\<bar>" using assms(2) by (rule mult_right_mono) simp
  then have "u * \<bar>v\<bar> \<le> \<bar>v\<bar> / 2 ^ 24" by simp
  then have "\<bar>c - v\<bar> \<le> \<bar>v\<bar> / 2 ^ 24 + 1 / 2 ^ 150" using assms(1,3) by linarith
  then show ?thesis using assms(4) by (rule rounded_size)
qed

lemma sized_f64_of_f32: "sized K x \<Longrightarrow> K < 2 ^ 127 \<Longrightarrow> sized64 (up K) (f64_of_f32 x)"
proof -
  assume "sized K x" "K < 2 ^ 127"
  then obtain a where a: "fval32 x a" "\<bar>a\<bar> \<le> K" by (auto simp: sized_def)
  have "\<bar>a\<bar> < 2 powi (femax binary64 + int (fprec binary64) - 1)" using a(2) \<open>K < 2 ^ 127\<close> format64(4) by linarith
  from fconv_close [OF a(1) format64(1,2) this] obtain c
    where "fval binary64 (fconv binary64 (of_f32 x)) c" "\<bar>c - a\<bar> \<le> ulp_half binary64 * \<bar>a\<bar> + tiny binary64" by blast
  with size_after [OF this(2) format64(5,3) a(2)] show ?thesis by (auto simp: sized64_def f64_of_f32_def)
qed

lemma sized_f32_of_f64: "sized64 K x \<Longrightarrow> K < 2 ^ 127 \<Longrightarrow> sized (up K) (f32_of_f64 x)"
proof -
  assume "sized64 K x" "K < 2 ^ 127"
  then obtain a where a: "fval binary64 (of_f64 x) a" "\<bar>a\<bar> \<le> K" by (auto simp: sized64_def)
  have "\<bar>a\<bar> < 2 powi (femax binary32 + int (fprec binary32) - 1)" using a(2) \<open>K < 2 ^ 127\<close> format32(4) by linarith
  from fconv_close [OF a(1) format32(1,2) this] obtain c
    where "fval binary32 (fconv binary32 (of_f64 x)) c" "\<bar>c - a\<bar> \<le> 1 / 2 ^ 24 * \<bar>a\<bar> + 1 / 2 ^ 150"
    by (auto simp: ulp32 format32(3))
  with size_after [OF this(2) _ _ a(2)] show ?thesis by (auto simp: sized_def f32_of_f64_def)
qed

text \<open>The square root the filter takes is one of a sum of two squares.\<close>

lemma sized_pos_plus:
  assumes "sized_pos A x" "sized_pos B y" "A + B < 2 ^ 127"
  shows "sized_pos (up (A + B)) (x + y)"
proof -
  obtain a b where ab: "fval32 x a" "0 \<le> a" "a \<le> A" "fval32 y b" "0 \<le> b" "b \<le> B"
    using assms(1,2) by (auto simp: sized_pos_def)
  then have s: "0 \<le> a + b" "\<bar>a + b\<bar> \<le> A + B" by simp_all
  from this assms(3) obtain c where "fval32 (x + y) c" "\<bar>c - (a + b)\<bar> \<le> \<bar>a + b\<bar> / 2 ^ 24 + 1 / 2 ^ 150" "0 \<le> c"
    using add32 [OF ab(1,4)] by (metis le_less_trans)
  with rounded_size [OF this(2) s(2)] show ?thesis by (auto simp: sized_pos_def)
qed

lemma sized_pos_square:
  assumes "sized K x" "K * K < 2 ^ 127"
  shows "sized_pos (up (K * K)) (x * x)"
proof -
  obtain a where a: "fval32 x a" "\<bar>a\<bar> \<le> K" using assms(1) by (auto simp: sized_def)
  have s: "\<bar>a * a\<bar> \<le> K * K" using a(2) by (intro product_size)
  then obtain c where "fval32 (x * x) c" "\<bar>c - a * a\<bar> \<le> \<bar>a * a\<bar> / 2 ^ 24 + 1 / 2 ^ 150" "0 \<le> c"
    using mul32 [OF a(1,1)] assms(2) by (metis le_less_trans zero_le_square)
  with rounded_size [OF this(2) s] show ?thesis by (auto simp: sized_pos_def)
qed

lemma field_sized:
  assumes sq: "sqrt_ok sq" and "sized (2 ^ 12) x" "sized (2 ^ 12) y"
  shows "sized (2 ^ 16) (f32_of_f64 (sq (f64_of_f32 (x * x + y * y))))"
proof -
  have "sized_pos (up (up (2 ^ 12 * 2 ^ 12) + up (2 ^ 12 * 2 ^ 12))) (x * x + y * y)"
    using assms(2,3) by (intro sized_pos_plus sized_pos_square) (simp_all add: up_def)
  then obtain a where a: "fval32 (x * x + y * y) a" "0 \<le> a" "a \<le> 2 ^ 26" by (auto simp: sized_pos_def up_def)
  have "\<bar>a\<bar> < 2 powi (femax binary64 + int (fprec binary64) - 1)"
    using a(2,3) order_trans [OF _ format64(4), of "2 ^ 100"] by simp
  from fconv_close [OF a(1) format64(1,2) this] obtain c
    where c: "fval binary64 (of_f64 (f64_of_f32 (x * x + y * y))) c" "\<bar>c - a\<bar> \<le> ulp_half binary64 * \<bar>a\<bar> + tiny binary64" "0 \<le> c"
    using a(2) by (auto simp: f64_of_f32_def)
  have "c \<le> up (2 ^ 26)" using size_after [OF c(2) format64(5,3), of "2 ^ 26"] a c(3) by simp
  then have "sqrt c \<le> sqrt ((2 ^ 14)\<^sup>2)" by (intro real_sqrt_le_mono) (simp add: up_def)
  then have r: "sqrt c \<le> 2 ^ 14" by (simp only: real_sqrt_abs) simp
  obtain b where b: "fval binary64 (of_f64 (sq (f64_of_f32 (x * x + y * y)))) b" "\<bar>b - sqrt c\<bar> \<le> sqrt c / 2"
    using sq c(1,3) by (auto simp: sqrt_ok_def)
  have "\<bar>b\<bar> \<le> 2 * 2 ^ 14" using b(2) r by linarith
  then have "\<bar>b\<bar> \<le> 2 ^ 15" by simp
  with b(1) have "sized64 (2 ^ 15) (sq (f64_of_f32 (x * x + y * y)))" by (auto simp: sized64_def)
  from sized_f32_of_f64 [OF this] show ?thesis by (rule sized_mono) (simp_all add: up_def)
qed

section \<open>The steps with the magnetometer\<close>

lemma earth_field_sized:
  assumes A: "fl_lit A = f32_lit" "fl_sqrt A = (\<lambda>x. f32_of_f64 (sq (f64_of_f32 x)))" "sqrt_ok sq"
    and "sized4 4 q" "sized3 4 m"
  shows "sized (2 ^ 16) (fst (earth_field A q m))" "sized (2 ^ 16) (snd (earth_field A q m))"
proof -
  obtain q0 q1 q2 q3 mx my mz where f: "q = (q0, q1, q2, q3)" "m = (mx, my, mz)" by (cases q; cases m) auto
  have s: "sized 4 q0" "sized 4 q1" "sized 4 q2" "sized 4 q3" "sized 4 mx" "sized 4 my" "sized 4 mz"
    using assms(4,5) by (auto simp: f)
  show "sized (2 ^ 16) (fst (earth_field A q m))"
    unfolding f earth_field_def Let_def prod.case A(1,2) fst_conv
    by (rule field_sized [OF A(3)]; rule sized_mono, (rule sized_rules s | simp)+)
  show "sized (2 ^ 16) (snd (earth_field A q m))"
    unfolding f earth_field_def Let_def prod.case A(1,2) snd_conv
    by (rule sized_mono, (rule sized_rules s | simp)+)
qed

lemma ahrs_step_sized:
  assumes "fl_lit A = f32_lit" "sized4 4 q" "sized3 4 a" "sized3 4 m" "sized (2 ^ 16) (fst b)" "sized (2 ^ 16) (snd b)"
  shows "sized4 (2 ^ 49) (ahrs_step A q a m b)"
proof -
  obtain q0 q1 q2 q3 ax ay az mx my mz bx bz
    where f: "q = (q0, q1, q2, q3)" "a = (ax, ay, az)" "m = (mx, my, mz)" "b = (bx, bz)"
    by (cases q; cases a; cases m; cases b) auto
  have s: "sized 4 q0" "sized 4 q1" "sized 4 q2" "sized 4 q3" "sized 4 ax" "sized 4 ay" "sized 4 az"
    "sized 4 mx" "sized 4 my" "sized 4 mz" "sized (2 ^ 16) bx" "sized (2 ^ 16) bz"
    using assms(2-6) by (auto simp: f)
  show ?thesis
    unfolding f ahrs_step_def Let_def prod.case assms(1) sized4.simps
    by (intro conjI; rule sized_mono, (rule sized_rules s | simp)+)
qed

section \<open>An update\<close>

lemma float_ops_fields:
  "fl_lit ((float_ops sq)\<lparr>fl_freq := hz\<rparr>) = f32_lit" "fl_inv_sqrt ((float_ops sq)\<lparr>fl_freq := hz\<rparr>) = invSqrt"
  "fl_sqrt ((float_ops sq)\<lparr>fl_freq := hz\<rparr>) = (\<lambda>x. f32_of_f64 (sq (f64_of_f32 x)))"
  by (simp_all add: float_ops_def)

lemma sized4_mono: "sized4 A q \<Longrightarrow> A \<le> B \<Longrightarrow> sized4 B q"
  by (cases q) (auto intro: sized_mono)

text \<open>The normalised gradient of an update.\<close>

definition gradient :: "'a flops \<Rightarrow> 'a::{plus,minus,times,uminus} vec \<Rightarrow> 'a vec \<Rightarrow> 'a quat \<Rightarrow> 'a quat" where
  "gradient A a m q =
     normalise4 A
       (if is_zero3 A m then imu_step A q (normalise3 A a)
        else ahrs_step A q (normalise3 A a) (normalise3 A m) (earth_field A q (normalise3 A m)))"

lemma integrated_gradient:
  "integrated A b g a m q =
     integrate A q (if is_zero3 A a then gyro_rate A q g else feedback b (gyro_rate A q g) (gradient A a m q))"
  by (simp add: integrated_def gradient_def Let_def)

lemma gradient_sized:
  assumes "sqrt_ok sq" "sized4 4 q" "sized3 (2 ^ 49) a" "sized3 (2 ^ 49) m"
  shows "sized4 4 (gradient ((float_ops sq)\<lparr>fl_freq := hz\<rparr>) a m q)"
proof -
  let ?A = "(float_ops sq)\<lparr>fl_freq := hz\<rparr>"
  note A = float_ops_fields [where sq = sq and hz = hz]
  have a: "sized3 4 (normalise3 ?A a)" and m: "sized3 4 (normalise3 ?A m)"
    by (rule normalise3_sized [OF A(2) assms(3)]) (rule normalise3_sized [OF A(2) assms(4)])
  show ?thesis
    unfolding gradient_def
    using imu_step_sized [OF A(1) assms(2) a] ahrs_step_sized [OF A(1) assms(2) a m earth_field_sized [OF A(1,3) assms(1,2) m]]
    by (intro normalise4_sized [OF A(2)]) simp
qed

lemma integrated_sized:
  assumes "sqrt_ok sq" "sized 1 (f32_lit 1 hz)" "sized 16 b" "sized4 4 q"
    and "sized3 (2 ^ 11) g" "sized3 (2 ^ 49) a" "sized3 (2 ^ 49) m"
  shows "sized4 (2 ^ 49) (integrated ((float_ops sq)\<lparr>fl_freq := hz\<rparr>) b g a m q)"
proof -
  let ?A = "(float_ops sq)\<lparr>fl_freq := hz\<rparr>"
  have rate: "sized4 (2 ^ 20) (gyro_rate ?A q g)" using float_ops_fields(1) assms(4,5) by (rule gyro_rate_sized)
  have "sized4 (2 ^ 24) (feedback b (gyro_rate ?A q g) (gradient ?A a m q))"
    using assms(3) _ _ rate gradient_sized [OF assms(1,4,6,7)] by (rule feedback_sized) simp_all
  moreover have "sized4 (2 ^ 24) (gyro_rate ?A q g)" using rate by (rule sized4_mono) simp
  ultimately show ?thesis
    unfolding integrated_gradient by (intro integrate_sized) (simp_all add: assms(2,4) float_ops_def)
qed

lemma update_sized:
  assumes "sqrt_ok sq" "sized 1 (f32_lit 1 hz)" "sized 16 b" "sized4 4 q"
    and "sized3 (2 ^ 11) g" "sized3 (2 ^ 49) a" "sized3 (2 ^ 49) m"
  shows "sized4 4 (MadgwickAHRSupdate ((float_ops sq)\<lparr>fl_freq := hz\<rparr>) b g a m q)"
  unfolding update_normalises by (rule normalise4_sized [OF float_ops_fields(2) integrated_sized [OF assms]])

end
