(* ===== verification/Filter_Unit.thy ===== *)
theory Filter_Unit
  imports Filter_Range
begin

text \<open>
  A unit quaternion stays one. The turn of a rotation is at right angles to the quaternion and cannot
  shorten it; the correction is bounded by the gain, and the roundings by the range of the rates. So
  with a small gain the integrated quaternion never comes near zero, and its normalisation is as
  accurate as \<open>Unit_Quaternion\<close> says, turn after turn.
\<close>

section \<open>Approximation\<close>

text \<open>\<open>x\<close> is a number within \<open>d\<close> of \<open>v\<close>.\<close>

definition approx :: "real \<Rightarrow> real \<Rightarrow> f32 \<Rightarrow> bool" where
  "approx d v x \<longleftrightarrow> (\<exists>a. fval32 x a \<and> \<bar>a - v\<bar> \<le> d)"

lemma approx_exact: "fval32 x v \<Longrightarrow> approx 0 v x"
  by (auto simp: approx_def)

lemma approx_mono: "approx d v x \<Longrightarrow> d \<le> e \<Longrightarrow> approx e v x"
  by (force simp: approx_def)

lemma approx_uminus: "approx d v x \<Longrightarrow> approx d (- v) (- x)"
proof -
  assume "approx d v x"
  then obtain a where "fval32 x a" "\<bar>a - v\<bar> \<le> d" by (auto simp: approx_def)
  then have "fval32 (- x) (- a)" "\<bar>- a - - v\<bar> \<le> d" using fval32_uminus by auto
  then show ?thesis unfolding approx_def by blast
qed

lemma approx_plus:
  assumes "approx d v x" "approx e w y" "\<bar>v + w\<bar> + d + e \<le> K" "K \<le> 2 ^ 100"
  shows "approx (d + e + K / 2 ^ 24 + 1 / 2 ^ 50) (v + w) (x + y)"
proof -
  obtain a b where ab: "fval32 x a" "\<bar>a - v\<bar> \<le> d" "fval32 y b" "\<bar>b - w\<bar> \<le> e" using assms(1,2) by (auto simp: approx_def)
  have s: "\<bar>a + b\<bar> \<le> K" using ab assms(3) by linarith
  then have "\<bar>a + b\<bar> \<le> 2 ^ 100" using assms(4) by (rule order_trans)
  then have "\<bar>a + b\<bar> < 2 ^ 127" by (rule le_less_trans) simp
  then obtain c where c: "fval32 (x + y) c" "\<bar>c - (a + b)\<bar> \<le> \<bar>a + b\<bar> / 2 ^ 24 + 1 / 2 ^ 150"
    using add32 [OF ab(1,3)] by metis
  have "\<bar>a + b\<bar> / 2 ^ 24 \<le> K / 2 ^ 24" using s by (rule divide_right_mono) simp
  moreover have "(1 :: real) / 2 ^ 150 \<le> 1 / 2 ^ 50" by simp
  ultimately have "\<bar>c - (v + w)\<bar> \<le> d + e + K / 2 ^ 24 + 1 / 2 ^ 50" using c(2) ab by linarith
  with c(1) show ?thesis by (auto simp: approx_def)
qed

lemma approx_minus:
  "approx d v x \<Longrightarrow> approx e w y \<Longrightarrow> \<bar>v - w\<bar> + d + e \<le> K \<Longrightarrow> K \<le> 2 ^ 100 \<Longrightarrow>
   approx (d + e + K / 2 ^ 24 + 1 / 2 ^ 50) (v - w) (x - y)"
  unfolding minus_as_plus diff_conv_add_uminus by (rule approx_plus [OF _ approx_uminus])

lemma approx_times:
  assumes "approx d v x" "approx e w y" "\<bar>v\<bar> \<le> V" "\<bar>w\<bar> \<le> W" "(V + d) * (W + e) \<le> K" "K \<le> 2 ^ 100"
  shows "approx (d * (W + e) + V * e + K / 2 ^ 24 + 1 / 2 ^ 50) (v * w) (x * y)"
proof -
  obtain a b where ab: "fval32 x a" "\<bar>a - v\<bar> \<le> d" "fval32 y b" "\<bar>b - w\<bar> \<le> e" using assms(1,2) by (auto simp: approx_def)
  have ab2: "\<bar>a\<bar> \<le> V + d" "\<bar>b\<bar> \<le> W + e" using ab assms(3,4) by linarith+
  have s: "\<bar>a * b\<bar> \<le> K" using product_size [OF ab2] assms(5) by (rule order_trans)
  then have "\<bar>a * b\<bar> \<le> 2 ^ 100" using assms(6) by (rule order_trans)
  then have "\<bar>a * b\<bar> < 2 ^ 127" by (rule le_less_trans) simp
  then obtain c where c: "fval32 (x * y) c" "\<bar>c - a * b\<bar> \<le> \<bar>a * b\<bar> / 2 ^ 24 + 1 / 2 ^ 150"
    using mul32 [OF ab(1,3)] by metis
  have "\<bar>a * b\<bar> / 2 ^ 24 \<le> K / 2 ^ 24" using s by (rule divide_right_mono) simp
  moreover have "(1 :: real) / 2 ^ 150 \<le> 1 / 2 ^ 50" by simp
  moreover have "\<bar>a * b - v * w\<bar> \<le> d * (W + e) + V * e"
  proof -
    have "a * b - v * w = (a - v) * b + v * (b - w)" by (simp add: algebra_simps)
    moreover have "\<bar>(a - v) * b\<bar> \<le> d * (W + e)" "\<bar>v * (b - w)\<bar> \<le> V * e"
      using ab ab2 assms(3) by (auto intro: product_size)
    ultimately show ?thesis by linarith
  qed
  ultimately have "\<bar>c - v * w\<bar> \<le> d * (W + e) + V * e + K / 2 ^ 24 + 1 / 2 ^ 50" using c(2) by linarith
  with c(1) show ?thesis by (auto simp: approx_def)
qed

section \<open>The rate of change\<close>

text \<open>The exact rate: half the product of the quaternion and the rates.\<close>

fun spin :: "real quat \<Rightarrow> real vec \<Rightarrow> real quat" where
  "spin (q0, q1, q2, q3) (gx, gy, gz) =
     ((- q1 * gx - q2 * gy - q3 * gz) / 2, (q0 * gx + q2 * gz - q3 * gy) / 2,
      (q0 * gy - q1 * gz + q3 * gx) / 2, (q0 * gz + q1 * gy - q2 * gx) / 2)"

lemma product_step:
  assumes "fval32 x a" "fval32 y b" "\<bar>a\<bar> \<le> 2" "\<bar>b\<bar> \<le> 2 ^ 11"
  shows "approx (1 / 2 ^ 11) (a * b) (x * y)" "\<bar>a * b\<bar> \<le> 2 ^ 12"
proof -
  show "approx (1 / 2 ^ 11) (a * b) (x * y)"
    by (rule approx_mono [OF approx_times [OF approx_exact [OF assms(1)] approx_exact [OF assms(2)] assms(3,4), where K = "2 ^ 12"]])
      simp_all
  show "\<bar>a * b\<bar> \<le> 2 ^ 12" using product_size [OF assms(3,4)] by simp
qed

text \<open>Half of a sum of three products.\<close>

lemma half_sum:
  assumes "approx (1 / 2 ^ 11) u x" "approx (1 / 2 ^ 11) v y" "approx (1 / 2 ^ 11) w z"
    and "\<bar>u\<bar> \<le> 2 ^ 12" "\<bar>v\<bar> \<le> 2 ^ 12" "\<bar>w\<bar> \<le> 2 ^ 12"
  shows "approx (1 / 2 ^ 8) ((u + v + w) / 2) (f32_lit 1 2 * (x + y + z))" "\<bar>(u + v + w) / 2\<bar> \<le> 2 ^ 13"
proof -
  have b: "\<bar>u + v\<bar> \<le> 2 * 2 ^ 12" "\<bar>u + v + w\<bar> \<le> 3 * 2 ^ 12" using assms(4-6) by linarith+
  have xy: "approx (2 / 2 ^ 10) (u + v) (x + y)"
    by (rule approx_mono [OF approx_plus [OF assms(1,2), where K = 9000]]) (use b(1) in simp_all)
  have xyz: "approx (1 / 300) (u + v + w) (x + y + z)"
    by (rule approx_mono [OF approx_plus [OF xy assms(3), where K = 13000]]) (use b(2) in simp_all)
  have "approx (1 / 2 ^ 8) (1 / 2 * (u + v + w)) (f32_lit 1 2 * (x + y + z))"
    by (rule approx_mono [OF approx_times [OF approx_exact [OF fval_constants(1)] xyz, where V = "1 / 2" and W = "2 ^ 14" and K = "2 ^ 14"]])
      (use b(2) in simp_all)
  then show "approx (1 / 2 ^ 8) ((u + v + w) / 2) (f32_lit 1 2 * (x + y + z))" by simp
  show "\<bar>(u + v + w) / 2\<bar> \<le> 2 ^ 13" using b(2) by simp
qed

fun quat_near :: "real \<Rightarrow> real quat \<Rightarrow> f32 quat \<Rightarrow> bool" where
  "quat_near d (v0, v1, v2, v3) (x0, x1, x2, x3) \<longleftrightarrow> approx d v0 x0 \<and> approx d v1 x1 \<and> approx d v2 x2 \<and> approx d v3 x3"

fun quat_size :: "real \<Rightarrow> real quat \<Rightarrow> bool" where
  "quat_size K (v0, v1, v2, v3) \<longleftrightarrow> \<bar>v0\<bar> \<le> K \<and> \<bar>v1\<bar> \<le> K \<and> \<bar>v2\<bar> \<le> K \<and> \<bar>v3\<bar> \<le> K"

fun vec_val :: "f32 vec \<Rightarrow> real vec \<Rightarrow> bool" where
  "vec_val (x, y, z) (a, b, c) \<longleftrightarrow> fval32 x a \<and> fval32 y b \<and> fval32 z c"

lemma quat_near_mono: "quat_near d v x \<Longrightarrow> d \<le> e \<Longrightarrow> quat_near e v x"
  by (cases v; cases x) (auto intro: approx_mono)

lemma gyro_rate_near:
  assumes A: "fl_lit A = f32_lit" and q: "quat_val q v" "quat_size 2 v"
    and g: "vec_val g w" "\<bar>fst w\<bar> \<le> 2 ^ 11" "\<bar>fst (snd w)\<bar> \<le> 2 ^ 11" "\<bar>snd (snd w)\<bar> \<le> 2 ^ 11"
  shows "quat_near (1 / 2 ^ 8) (spin v w) (gyro_rate A q g)" "quat_size (2 ^ 13) (spin v w)"
proof -
  obtain x0 x1 x2 x3 a0 a1 a2 a3 where v: "q = (x0, x1, x2, x3)" "v = (a0, a1, a2, a3)" by (cases q; cases v) auto
  obtain y0 y1 y2 b0 b1 b2 where w: "g = (y0, y1, y2)" "w = (b0, b1, b2)" by (cases g; cases w) auto
  have x: "fval32 x0 a0" "fval32 x1 a1" "fval32 x2 a2" "fval32 x3 a3" "\<bar>a0\<bar> \<le> 2" "\<bar>a1\<bar> \<le> 2" "\<bar>a2\<bar> \<le> 2" "\<bar>a3\<bar> \<le> 2"
    using q by (simp_all add: v)
  have y: "fval32 y0 b0" "fval32 y1 b1" "fval32 y2 b2" "\<bar>b0\<bar> \<le> 2 ^ 11" "\<bar>b1\<bar> \<le> 2 ^ 11" "\<bar>b2\<bar> \<le> 2 ^ 11"
    using g by (simp_all add: w)
  have neg: "approx (1 / 2 ^ 11) (- (a * b)) (- (x * y))" "\<bar>- (a * b)\<bar> \<le> 2 ^ 12"
    if "approx (1 / 2 ^ 11) (a * b) (x * y)" "\<bar>a * b\<bar> \<le> 2 ^ 12" for a b x y
    using that approx_uminus by simp_all
  have neg1: "approx (1 / 2 ^ 11) (- (a1 * b0)) (- x1 * y0)" "\<bar>- (a1 * b0)\<bar> \<le> 2 ^ 12"
    using product_step [OF fval32_uminus [OF x(2)] y(1)] x(6) y(4) by simp_all
  note p = product_step [OF x(1) y(1) x(5) y(4)] product_step [OF x(1) y(2) x(5) y(5)] product_step [OF x(1) y(3) x(5) y(6)]
    product_step [OF x(2) y(1) x(6) y(4)] product_step [OF x(2) y(2) x(6) y(5)] product_step [OF x(2) y(3) x(6) y(6)]
    product_step [OF x(3) y(1) x(7) y(4)] product_step [OF x(3) y(2) x(7) y(5)] product_step [OF x(3) y(3) x(7) y(6)]
    product_step [OF x(4) y(1) x(8) y(4)] product_step [OF x(4) y(2) x(8) y(5)] product_step [OF x(4) y(3) x(8) y(6)]
  have c0: "approx (1 / 2 ^ 8) ((- a1 * b0 - a2 * b1 - a3 * b2) / 2) (f32_lit 1 2 * (- x1 * y0 - x2 * y1 - x3 * y2))"
    "\<bar>(- a1 * b0 - a2 * b1 - a3 * b2) / 2\<bar> \<le> 2 ^ 13"
    using half_sum [OF neg1(1) neg(1) [OF p(15,16)] neg(1) [OF p(23,24)] neg1(2) neg(2) [OF p(15,16)] neg(2) [OF p(23,24)]]
    by (simp_all add: minus_as_plus)
  have c1: "approx (1 / 2 ^ 8) ((a0 * b0 + a2 * b2 - a3 * b1) / 2) (f32_lit 1 2 * (x0 * y0 + x2 * y2 - x3 * y1))"
    "\<bar>(a0 * b0 + a2 * b2 - a3 * b1) / 2\<bar> \<le> 2 ^ 13"
    using half_sum [OF p(1) p(17) neg(1) [OF p(21,22)] p(2) p(18) neg(2) [OF p(21,22)]] by (simp_all add: minus_as_plus)
  have c2: "approx (1 / 2 ^ 8) ((a0 * b1 - a1 * b2 + a3 * b0) / 2) (f32_lit 1 2 * (x0 * y1 - x1 * y2 + x3 * y0))"
    "\<bar>(a0 * b1 - a1 * b2 + a3 * b0) / 2\<bar> \<le> 2 ^ 13"
    using half_sum [OF p(3) neg(1) [OF p(11,12)] p(19) p(4) neg(2) [OF p(11,12)] p(20)] by (simp_all add: minus_as_plus)
  have c3: "approx (1 / 2 ^ 8) ((a0 * b2 + a1 * b1 - a2 * b0) / 2) (f32_lit 1 2 * (x0 * y2 + x1 * y1 - x2 * y0))"
    "\<bar>(a0 * b2 + a1 * b1 - a2 * b0) / 2\<bar> \<le> 2 ^ 13"
    using half_sum [OF p(5) p(9) neg(1) [OF p(13,14)] p(6) p(10) neg(2) [OF p(13,14)]] by (simp_all add: minus_as_plus)
  from c0 c1 c2 c3 show "quat_near (1 / 2 ^ 8) (spin v w) (gyro_rate A q g)" "quat_size (2 ^ 13) (spin v w)"
    by (simp_all add: v w gyro_rate_def A Let_def)
qed

section \<open>The integrated quaternion\<close>

text \<open>The correction moves the rate by at most the gain times the size of the normalised gradient.\<close>

lemma corrected_component:
  assumes "approx (1 / 2 ^ 8) r x" "\<bar>r\<bar> \<le> 2 ^ 13" "sized (1 / 16) b" "sized 4 n"
  shows "approx (26 / 100) r (x - b * n)"
proof -
  have "sized (up (1 / 16 * 4)) (b * n)" by (rule sized_mult [OF assms(3,4)]) simp
  then have bn: "approx (1 / 4 + 1 / 2 ^ 10) 0 (b * n)" by (auto simp: approx_def sized_def up_def)
  have "approx (26 / 100) (r - 0) (x - b * n)"
    by (rule approx_mono [OF approx_minus [OF assms(1) bn, where K = "2 ^ 14"]]) (use assms(2) in simp_all)
  then show ?thesis by simp
qed

lemma feedback_near:
  assumes "quat_near (1 / 2 ^ 8) r d" "quat_size (2 ^ 13) r" "sized (1 / 16) b" "sized4 4 n"
  shows "quat_near (26 / 100) r (feedback b d n)"
proof -
  obtain r0 r1 r2 r3 d0 d1 d2 d3 n0 n1 n2 n3 where f: "r = (r0, r1, r2, r3)" "d = (d0, d1, d2, d3)" "n = (n0, n1, n2, n3)"
    by (cases r; cases d; cases n) auto
  show ?thesis
    using assms unfolding f feedback_def prod.case quat_near.simps quat_size.simps sized4.simps
    by (blast intro: corrected_component)
qed

lemma integrated_component:
  assumes "fval32 x a" "\<bar>a\<bar> \<le> 2" "approx (26 / 100) r d" "\<bar>r\<bar> \<le> 2 ^ 13" "fval32 dt t" "\<bar>t\<bar> \<le> 1 / 8"
  shows "approx (1 / 30) (a + r * t) (x + d * dt)"
proof -
  have "approx (327 / 10000) (r * t) (d * dt)"
    by (rule approx_mono [OF approx_times [OF assms(3) approx_exact [OF assms(5)] assms(4,6), where K = "2 ^ 11"]]) simp_all
  from approx_plus [OF approx_exact [OF assms(1)] this, of "2 ^ 11"] show ?thesis
  proof (rule approx_mono)
    have "\<bar>r * t\<bar> \<le> 1024" using product_size [OF assms(4,6)] by simp
    then have "\<bar>a + r * t\<bar> + 0 + 327 / 10000 \<le> 2048" using assms(2) by linarith
    then show "\<bar>a + r * t\<bar> + 0 + 327 / 10000 \<le> 2 ^ 11" by simp
  qed simp_all
qed

fun moved :: "real quat \<Rightarrow> real quat \<Rightarrow> real \<Rightarrow> real quat" where
  "moved (a0, a1, a2, a3) (r0, r1, r2, r3) t = (a0 + r0 * t, a1 + r1 * t, a2 + r2 * t, a3 + r3 * t)"

lemma integrate_near:
  assumes "quat_val q v" "quat_size 2 v" "quat_near (26 / 100) r d" "quat_size (2 ^ 13) r"
    and "fval32 (fl_lit A 1 (fl_freq A)) t" "\<bar>t\<bar> \<le> 1 / 8"
  shows "quat_near (1 / 30) (moved v r t) (integrate A q d)"
proof -
  obtain x0 x1 x2 x3 a0 a1 a2 a3 r0 r1 r2 r3 d0 d1 d2 d3
    where "q = (x0, x1, x2, x3)" "v = (a0, a1, a2, a3)" "r = (r0, r1, r2, r3)" "d = (d0, d1, d2, d3)"
    by (cases q; cases v; cases r; cases d) auto
  with assms show ?thesis by (simp add: integrate_def Let_def integrated_component)
qed

text \<open>The turn is at right angles to the quaternion, so it can only lengthen it.\<close>

lemma moved_length: "quat_norm2 v \<le> quat_norm2 (moved v (spin v w) t)"
proof -
  obtain a b c d where v: "v = (a, b, c, d)" by (cases v)
  obtain x y z where w: "w = (x, y, z)" by (cases w)
  have "quat_norm2 (moved v (spin v w) t) = quat_norm2 v * (1 + t\<^sup>2 * (x\<^sup>2 + y\<^sup>2 + z\<^sup>2) / 4)"
    by (simp add: v w power2_eq_square field_simps)
  moreover have "0 \<le> quat_norm2 v" by (simp add: v)
  ultimately show ?thesis by (simp add: mult_le_cancel_left1 algebra_simps)
qed

text \<open>So what the filter stores before normalisation is not near zero.\<close>

lemma large_component:
  assumes "1 / 2 \<le> a\<^sup>2 + b\<^sup>2 + c\<^sup>2 + (d :: real)\<^sup>2"
  shows "1 / 3 \<le> \<bar>a\<bar> \<or> 1 / 3 \<le> \<bar>b\<bar> \<or> 1 / 3 \<le> \<bar>c\<bar> \<or> 1 / 3 \<le> \<bar>d\<bar>"
proof (rule ccontr)
  have sq: "\<bar>x\<bar> < 1 / 3 \<Longrightarrow> x\<^sup>2 \<le> 1 / 9" for x :: real
    using power2_le_iff_abs_le [of "1 / 3" x] by (simp add: power2_eq_square)
  assume "\<not> ?thesis"
  then have "\<bar>a\<bar> < 1 / 3" "\<bar>b\<bar> < 1 / 3" "\<bar>c\<bar> < 1 / 3" "\<bar>d\<bar> < 1 / 3" by linarith+
  note this [THEN sq]
  with assms show False by linarith
qed

lemma near_not_small:
  assumes "quat_near (1 / 30) v x" "1 / 2 \<le> quat_norm2 v"
  obtains a where "quat_val x a" "1 / 2 ^ 100 \<le> quat_norm2 a"
proof -
  obtain x0 x1 x2 x3 v0 v1 v2 v3 where f: "x = (x0, x1, x2, x3)" "v = (v0, v1, v2, v3)" by (cases x; cases v) auto
  obtain a0 a1 a2 a3 where a: "fval32 x0 a0" "fval32 x1 a1" "fval32 x2 a2" "fval32 x3 a3"
    "\<bar>a0 - v0\<bar> \<le> 1 / 30" "\<bar>a1 - v1\<bar> \<le> 1 / 30" "\<bar>a2 - v2\<bar> \<le> 1 / 30" "\<bar>a3 - v3\<bar> \<le> 1 / 30"
    using assms(1) by (auto simp: f approx_def)
  have "1 / 3 \<le> \<bar>v0\<bar> \<or> 1 / 3 \<le> \<bar>v1\<bar> \<or> 1 / 3 \<le> \<bar>v2\<bar> \<or> 1 / 3 \<le> \<bar>v3\<bar>"
    using assms(2) large_component by (simp add: f)
  moreover have "9 / 100 \<le> y\<^sup>2" if "1 / 3 \<le> \<bar>u\<bar>" "\<bar>y - u\<bar> \<le> 1 / 30" for y u :: real
  proof -
    have "3 / 10 \<le> \<bar>y\<bar>" using that by linarith
    then show ?thesis using abs_le_square_iff [of "3 / 10" y] by (simp add: power2_eq_square)
  qed
  ultimately have "9 / 100 \<le> a0\<^sup>2 \<or> 9 / 100 \<le> a1\<^sup>2 \<or> 9 / 100 \<le> a2\<^sup>2 \<or> 9 / 100 \<le> a3\<^sup>2"
    using a(5-8) by blast
  moreover have "0 \<le> a0\<^sup>2" "0 \<le> a1\<^sup>2" "0 \<le> a2\<^sup>2" "0 \<le> a3\<^sup>2" by simp_all
  ultimately have "9 / 100 \<le> quat_norm2 (a0, a1, a2, a3)" unfolding quat_norm2.simps by linarith
  then have "1 / 2 ^ 100 \<le> quat_norm2 (a0, a1, a2, a3)" by (rule order_trans [rotated]) simp
  with a(1-4) show ?thesis by (intro that [of "(a0, a1, a2, a3)"]) (simp_all add: f)
qed

section \<open>Turn after turn\<close>

definition unit_quat :: "f32 quat \<Rightarrow> bool" where
  "unit_quat q \<longleftrightarrow> (\<exists>b. quat_val q b \<and> \<bar>sqrt (quat_norm2 b) - 1\<bar> < 19 / 10000)"

lemma unit_quat_parts:
  assumes "quat_val q v" "\<bar>sqrt (quat_norm2 v) - 1\<bar> < 19 / 10000"
  shows "1 / 2 \<le> quat_norm2 v" "quat_size 2 v" "sized4 4 q"
proof -
  obtain x0 x1 x2 x3 a b c d where f: "q = (x0, x1, x2, x3)" "v = (a, b, c, d)" by (cases q; cases v) auto
  define S where "S = sqrt (quat_norm2 v)"
  have n: "0 \<le> quat_norm2 v" by (simp add: f)
  have S: "9 / 10 \<le> S" "S \<le> 2" using assms(2) unfolding S_def by linarith+
  have "(9 / 10)\<^sup>2 \<le> S\<^sup>2" "S\<^sup>2 \<le> 2\<^sup>2" using S by (intro power_mono; simp)+
  then have N: "81 / 100 \<le> quat_norm2 v" "quat_norm2 v \<le> 2\<^sup>2" using n by (simp_all add: S_def power2_eq_square)
  then show "1 / 2 \<le> quat_norm2 v" by simp
  have sq: "0 \<le> a\<^sup>2" "0 \<le> b\<^sup>2" "0 \<le> c\<^sup>2" "0 \<le> d\<^sup>2" by simp_all
  then have "a\<^sup>2 \<le> 2\<^sup>2" "b\<^sup>2 \<le> 2\<^sup>2" "c\<^sup>2 \<le> 2\<^sup>2" "d\<^sup>2 \<le> 2\<^sup>2" using N(2) unfolding f quat_norm2.simps by linarith+
  then have abs: "\<bar>a\<bar> \<le> 2" "\<bar>b\<bar> \<le> 2" "\<bar>c\<bar> \<le> 2" "\<bar>d\<bar> \<le> 2"
    using power2_le_iff_abs_le [of "2 :: real"] by simp_all
  then show "quat_size 2 v" by (simp add: f)
  show "sized4 4 q" using assms(1) abs by (force simp: f sized_def)
qed

lemma fval_unique: "fval f x a \<Longrightarrow> fval f x b \<Longrightarrow> a = b"
  by (auto simp: fval_def)

lemma sized4_norm:
  assumes "sized4 (2 ^ 49) x" "quat_val x v" shows "quat_norm2 v \<le> 2 ^ 100"
proof -
  obtain x0 x1 x2 x3 a b c d where f: "x = (x0, x1, x2, x3)" "v = (a, b, c, d)" by (cases x; cases v) auto
  have "\<bar>a\<bar> \<le> 2 ^ 49" "\<bar>b\<bar> \<le> 2 ^ 49" "\<bar>c\<bar> \<le> 2 ^ 49" "\<bar>d\<bar> \<le> 2 ^ 49"
    using assms fval_unique unfolding f sized4.simps quat_val.simps sized_def by blast+
  from this [THEN square_range] show ?thesis by (simp add: f)
qed

theorem update_keeps_unit:
  assumes "sqrt_ok sq" "fval32 (f32_lit 1 hz) t" "\<bar>t\<bar> \<le> 1 / 8" "sized (1 / 16) b" "unit_quat q"
    and "sized3 (2 ^ 11) g" "sized3 (2 ^ 49) a" "sized3 (2 ^ 49) m"
  shows "unit_quat (MadgwickAHRSupdate ((float_ops sq)\<lparr>fl_freq := hz\<rparr>) b g a m q)"
proof -
  let ?A = "(float_ops sq)\<lparr>fl_freq := hz\<rparr>"
  let ?s = "integrated ?A b g a m q"
  obtain v where v: "quat_val q v" "\<bar>sqrt (quat_norm2 v) - 1\<bar> < 19 / 10000" using assms(5) by (auto simp: unit_quat_def)
  note p = unit_quat_parts [OF v]
  obtain w where w: "vec_val g w" "\<bar>fst w\<bar> \<le> 2 ^ 11" "\<bar>fst (snd w)\<bar> \<le> 2 ^ 11" "\<bar>snd (snd w)\<bar> \<le> 2 ^ 11"
  proof -
    obtain y0 y1 y2 b0 b1 b2 where "g = (y0, y1, y2)" "fval32 y0 b0" "fval32 y1 b1" "fval32 y2 b2"
      "\<bar>b0\<bar> \<le> 2 ^ 11" "\<bar>b1\<bar> \<le> 2 ^ 11" "\<bar>b2\<bar> \<le> 2 ^ 11"
      using assms(6) by (cases g) (auto simp: sized_def)
    then show ?thesis by (intro that [of "(b0, b1, b2)"]) simp_all
  qed
  note rate = gyro_rate_near [OF float_ops_fields(1) [where sq = sq and hz = hz] v(1) p(2) w]
  have "quat_near (26 / 100) (spin v w)
      (if is_zero3 ?A a then gyro_rate ?A q g else feedback b (gyro_rate ?A q g) (gradient ?A a m q))"
    using feedback_near [OF rate assms(4) gradient_sized [OF assms(1) p(3) assms(7,8)]] quat_near_mono [OF rate(1), of "26 / 100"]
    by simp
  then have "quat_near (1 / 30) (moved v (spin v w) t) ?s"
    unfolding integrated_gradient using rate(2) assms(2,3)
    by (intro integrate_near [OF v(1) p(2)]) (simp_all add: float_ops_def)
  moreover have "1 / 2 \<le> quat_norm2 (moved v (spin v w) t)" using p(1) moved_length by (rule order_trans)
  ultimately obtain u where u: "quat_val ?s u" "1 / 2 ^ 100 \<le> quat_norm2 u" by (rule near_not_small)
  have "sized4 (2 ^ 49) ?s"
  proof (rule integrated_sized [OF assms(1) _ _ p(3) assms(6-8)])
    show "sized 1 (f32_lit 1 hz)" using assms(2,3) by (force simp: sized_def)
    show "sized 16 b" using assms(4) by (rule sized_mono) simp
  qed
  then have "quat_norm2 u \<le> 2 ^ 100" using u(1) by (rule sized4_norm)
  with normalise4_near_unit [OF float_ops_fields(2) u] obtain c where "quat_val (normalise4 ?A ?s) c" "near_unit u c" by blast
  then show ?thesis
    unfolding update_normalises unit_quat_def by (cases u; cases c) (auto simp: Let_def)
qed

end
