(* ===== verification/Madgwick_Thread.thy ===== *)
theory Madgwick_Thread
  imports Madgwick "HOL-Library.Monad_Syntax"
begin

text \<open>
  The attitude thread \<^verbatim>\<open>granum/threads/madgwick_thread.c\<close>: the calibration of the gyroscope, and the
  body of its loop, which reads the two sensors, updates the filter and every fifth time sends two
  messages. The sensor drivers are outside the repository; the components of their records are
  floats (the test programs print them as such). A failed \<open>read\<close> is an input of the model. The
  conversions to \<^verbatim>\<open>int\<close> in the messages are undefined for values that do not fit (\<open>None\<close>).

  The lemmas: the schedule of gain and messages, and the attitude as a function of the readings alone.
\<close>

section \<open>State\<close>

record mpu_record =
  mpu_sec :: int
  mpu_nsec :: int
  mpu_acc :: "f32 vec"
  mpu_gyro :: "f32 vec"

text \<open>A \<open>read\<close>: an error, a success that stored nothing, or a success.\<close>

datatype 'a rd = RdErr | RdKeep | RdGot 'a

fun stored :: "'a rd \<Rightarrow> 'a \<Rightarrow> 'a" where
  "stored (RdGot x) old = x"
| "stored _ old = old"

record imu_msg =
  imu_time_boot_ms :: int
  imu_acc :: "int \<times> int \<times> int"
  imu_gyro :: "int \<times> int \<times> int"
  imu_mag :: "int \<times> int \<times> int"

datatype ahrs_msg = MsgImu imu_msg | MsgQuaternion "f32 quat"

record ahrs_thread =
  gyro_err :: "f32 vec"
  record_mpu :: mpu_record
  record_lsm :: "f32 vec"
  quat :: "f32 quat"
  ahrs_beta :: f32
  ahrs_repetitions :: int
  ticker :: int
  sent :: "ahrs_msg list"

section \<open>Units\<close>

definition M_PI :: f64 where "M_PI = f64_lit 314159265358979323846 100000000000000000000"

definition DTORAD :: "f32 \<Rightarrow> f64" where "DTORAD d = f64_of_f32 d * M_PI / f64_lit 180 1"
definition GTOMSS :: "f32 \<Rightarrow> f64" where "GTOMSS g = f64_of_f32 g * f64_lit 980665 100000"
definition GAUSSTOT :: "f32 \<Rightarrow> f32" where "GAUSSTOT x = x / f32_lit 10000 1"

section \<open>Calibration\<close>

definition add_gyro :: "f32 vec \<Rightarrow> mpu_record \<Rightarrow> f32 vec" where
  "add_gyro = (\<lambda>(ex, ey, ez) r. case mpu_gyro r of (x, y, z) \<Rightarrow> (ex + x, ey + y, ez + z))"

text \<open>Ten reads to warm up, ten reads that are summed; the result of \<open>read\<close> is not looked at.\<close>

fun warm_up :: "mpu_record rd list \<Rightarrow> mpu_record \<Rightarrow> mpu_record" where
  "warm_up [] r = r"
| "warm_up (i # is) r = warm_up is (stored i r)"

fun gyro_sum :: "mpu_record rd list \<Rightarrow> mpu_record \<Rightarrow> f32 vec \<Rightarrow> f32 vec \<times> mpu_record" where
  "gyro_sum [] r e = (e, r)"
| "gyro_sum (i # is) r e = (let r' = stored i r in gyro_sum is r' (add_gyro e r'))"

definition calibrate :: "mpu_record rd list \<Rightarrow> mpu_record rd list \<Rightarrow> mpu_record \<Rightarrow> f32 vec \<times> mpu_record" where
  "calibrate is1 is2 r =
     (case gyro_sum is2 (warm_up is1 r) (0, 0, 0) of ((x, y, z), r') \<Rightarrow>
       ((x / f32_lit 10 1, y / f32_lit 10 1, z / f32_lit 10 1), r'))"

definition thread_start ::
  "mpu_record rd list \<Rightarrow> mpu_record rd list \<Rightarrow> mpu_record \<Rightarrow> f32 vec \<Rightarrow> ahrs_thread" where
  "thread_start is1 is2 junk_mpu junk_lsm =
     (case calibrate is1 is2 junk_mpu of (e, r) \<Rightarrow>
       \<lparr>gyro_err = e, record_mpu = r, record_lsm = junk_lsm, quat = (f32_lit 1 1, 0, 0, 0),
        ahrs_beta = f32_lit 10 1, ahrs_repetitions = 0, ticker = 0, sent = []\<rparr>)"

section \<open>The loop\<close>

definition to_int_vec :: "(fnum \<times> fnum \<times> fnum) \<Rightarrow> (int \<times> int \<times> int) option" where
  "to_int_vec = (\<lambda>(x, y, z). do { a \<leftarrow> to_int32 x; b \<leftarrow> to_int32 y; c \<leftarrow> to_int32 z; Some (a, b, c) })"

text \<open>The fields of the message are of 16 bits: the conversion of an \<open>int\<close> wraps, as GCC defines it.\<close>

definition int16_vec :: "int \<times> int \<times> int \<Rightarrow> int \<times> int \<times> int" where
  "int16_vec = (\<lambda>(x, y, z). (signed_take_bit 15 x, signed_take_bit 15 y, signed_take_bit 15 z))"

definition gyro_corrected :: "ahrs_thread \<Rightarrow> f32 vec" where
  "gyro_corrected s =
     (case (mpu_gyro (record_mpu s), gyro_err s) of ((x, y, z), (ex, ey, ez)) \<Rightarrow> (x - ex, y - ey, z - ez))"

text \<open>The call of the filter, with the axes remapped.\<close>

definition update_filter :: "(f64 \<Rightarrow> f64) \<Rightarrow> ahrs_thread \<Rightarrow> ahrs_thread" where
  "update_filter sqrt s =
     (case (gyro_corrected s, mpu_acc (record_mpu s), record_lsm s) of ((gx, gy, gz), (ax, ay, az), (mx, my, mz)) \<Rightarrow>
       let f = f32_of_f64 in
       s\<lparr>quat := MadgwickAHRSupdate (float_ops sqrt) (ahrs_beta s)
           (f (DTORAD gx), f (DTORAD gz), f (DTORAD gy))
           (f (GTOMSS ax), f (GTOMSS az), f (GTOMSS ay))
           (GAUSSTOT (- my), GAUSSTOT (- mz), GAUSSTOT (- mx)) (quat s)\<rparr>)"

text \<open>After a hundred updates the gain is lowered.\<close>

definition settle_gain :: "ahrs_thread \<Rightarrow> ahrs_thread" where
  "settle_gain s =
     (if ahrs_repetitions s < 100 then
        let s' = s\<lparr>ahrs_repetitions := ahrs_repetitions s + 1\<rparr> in
        if ahrs_repetitions s' = 100 then s'\<lparr>ahrs_beta := f32_lit 41 1000\<rparr> else s'
      else s)"

definition imu_message :: "ahrs_thread \<Rightarrow> imu_msg option" where
  "imu_message s =
     (case (gyro_corrected s, mpu_acc (record_mpu s), record_lsm s) of ((gx, gy, gz), (ax, ay, az), (mx, my, mz)) \<Rightarrow>
       let k = f32_lit 1000 1; kd = f64_of_f32 k; ten = f32_lit 10 1 in
       do {
         a \<leftarrow> to_int_vec (of_f32 (ax * k), of_f32 (ay * k), of_f32 (az * k));
         g \<leftarrow> to_int_vec (of_f64 (DTORAD gx * kd), of_f64 (DTORAD gy * kd), of_f64 (DTORAD gz * kd));
         m \<leftarrow> to_int_vec (of_f32 (mx / ten), of_f32 (my / ten), of_f32 (mz / ten));
         Some \<lparr>imu_time_boot_ms = (mpu_sec (record_mpu s) * 1000 + mpu_nsec (record_mpu s) div 1000000) mod 2 ^ 32,
               imu_acc = int16_vec a, imu_gyro = int16_vec g, imu_mag = int16_vec m\<rparr>
       })"

definition send_fifth :: "ahrs_thread \<Rightarrow> ahrs_thread option" where
  "send_fifth s =
     (let s1 = s\<lparr>ticker := ticker s + 1\<rparr> in
      if ticker s1 = 5 then
        map_option (\<lambda>m. s1\<lparr>ticker := 0, sent := sent s1 @ [MsgImu m, MsgQuaternion (quat s1)]\<rparr>) (imu_message s1)
      else Some s1)"

definition ahrs_round :: "(f64 \<Rightarrow> f64) \<Rightarrow> mpu_record rd \<times> f32 vec rd \<Rightarrow> ahrs_thread \<Rightarrow> ahrs_thread option" where
  "ahrs_round sqrt = (\<lambda>(mpu, lsm) s.
     let s1 = s\<lparr>record_mpu := stored mpu (record_mpu s)\<rparr> in
     if mpu = RdErr then Some s1
     else
       let s2 = s1\<lparr>record_lsm := stored lsm (record_lsm s1)\<rparr> in
       if lsm = RdErr then Some s2
       else send_fifth (settle_gain (update_filter sqrt s2)))"

fun ahrs_run :: "(f64 \<Rightarrow> f64) \<Rightarrow> (mpu_record rd \<times> f32 vec rd) list \<Rightarrow> ahrs_thread \<Rightarrow> ahrs_thread option" where
  "ahrs_run sqrt [] s = Some s"
| "ahrs_run sqrt (i # is) s = Option.bind (ahrs_round sqrt i s) (ahrs_run sqrt is)"

section \<open>The schedule\<close>

definition good :: "mpu_record rd \<times> f32 vec rd \<Rightarrow> bool" where
  "good i \<longleftrightarrow> fst i \<noteq> RdErr \<and> snd i \<noteq> RdErr"

text \<open>The state after \<open>k\<close> rounds in which both reads succeeded.\<close>

definition on_schedule :: "nat \<Rightarrow> ahrs_thread \<Rightarrow> bool" where
  "on_schedule k s \<longleftrightarrow>
     ahrs_repetitions s = min (int k) 100 \<and> ticker s = int (k mod 5) \<and>
     ahrs_beta s = (if k < 100 then f32_lit 10 1 else f32_lit 41 1000) \<and> length (sent s) = 2 * (k div 5)"

lemma settle_gain_schedule:
  "on_schedule k s \<Longrightarrow> s' = settle_gain s \<Longrightarrow>
     ahrs_repetitions s' = min (int (Suc k)) 100 \<and> ticker s' = ticker s \<and> sent s' = sent s \<and>
     ahrs_beta s' = (if Suc k < 100 then f32_lit 10 1 else f32_lit 41 1000)"
  by (auto simp: on_schedule_def settle_gain_def Let_def)

lemma send_fifth_counts:
  assumes "send_fifth s = Some s'"
  shows "ahrs_repetitions s' = ahrs_repetitions s" "ahrs_beta s' = ahrs_beta s"
    "ticker s' = (if ticker s = 4 then 0 else ticker s + 1)"
    "length (sent s') = length (sent s) + (if ticker s = 4 then 2 else 0)"
  using assms by (auto simp: send_fifth_def Let_def split: if_splits)

lemma fifth_arith:
  "int (Suc k mod 5) = (if int (k mod 5) = 4 then 0 else int (k mod 5) + 1)"
  "2 * (Suc k div 5) = 2 * (k div 5) + (if int (k mod 5) = 4 then 2 else 0)"
  by (auto simp: mod_Suc div_Suc)

lemma update_filter_frame:
  "on_schedule k (update_filter sqrt s) = on_schedule k s"
  by (auto simp: on_schedule_def update_filter_def Let_def split: prod.splits)

lemma ahrs_round_schedule:
  assumes "ahrs_round sqrt i s = Some s'" "on_schedule k s"
  shows "on_schedule (if good i then Suc k else k) s'"
proof (cases "good i")
  case True
  obtain mpu lsm where i: "i = (mpu, lsm)" by (cases i)
  define s2 where "s2 = update_filter sqrt (s\<lparr>record_mpu := stored mpu (record_mpu s), record_lsm := stored lsm (record_lsm s)\<rparr>)"
  have k: "on_schedule k s2" using assms(2) unfolding s2_def update_filter_frame by (simp add: on_schedule_def)
  have "send_fifth (settle_gain s2) = Some s'"
    using assms(1) True by (simp add: i ahrs_round_def good_def s2_def)
  from send_fifth_counts [OF this] settle_gain_schedule [OF k refl] k True
  show ?thesis by (simp add: on_schedule_def fifth_arith del: of_nat_Suc)
next
  case False
  with assms show ?thesis by (auto simp: ahrs_round_def good_def on_schedule_def Let_def split: prod.splits if_splits)
qed

lemma ahrs_run_schedule:
  "ahrs_run sqrt is s = Some s' \<Longrightarrow> on_schedule k s \<Longrightarrow> on_schedule (k + length (filter good is)) s'"
proof (induction "is" arbitrary: s k)
  case (Cons i "is")
  then obtain s1 where s1: "ahrs_round sqrt i s = Some s1" "ahrs_run sqrt is s1 = Some s'"
    by (auto simp: Option.bind_eq_Some_conv)
  from Cons.IH [OF s1(2) ahrs_round_schedule [OF s1(1) Cons.prems(2)]] show ?case by (auto split: if_splits)
qed simp

section \<open>The attitude\<close>

text \<open>What the attitude is to be, from the readings alone: those of the rounds in which both sensors answered
(a sensor that stored nothing repeats its last reading), each given to the filter once, in order, with
the gain of its number.\<close>

fun good_readings :: "(mpu_record rd \<times> f32 vec rd) list \<Rightarrow> mpu_record \<Rightarrow> f32 vec \<Rightarrow> (mpu_record \<times> f32 vec) list" where
  "good_readings [] r m = []"
| "good_readings ((mpu, lsm) # is) r m =
     (let r' = stored mpu r; m' = (if mpu = RdErr then m else stored lsm m) in
      (if good (mpu, lsm) then [(r', m')] else []) @ good_readings is r' m')"

definition gain :: "nat \<Rightarrow> f32" where
  "gain k = (if k < 100 then f32_lit 10 1 else f32_lit 41 1000)"

definition filtered :: "(f64 \<Rightarrow> f64) \<Rightarrow> f32 vec \<Rightarrow> nat \<Rightarrow> mpu_record \<times> f32 vec \<Rightarrow> f32 quat \<Rightarrow> f32 quat" where
  "filtered sqrt e k = (\<lambda>(r, m) q.
     case (mpu_gyro r, e, mpu_acc r, m) of ((gx, gy, gz), (ex, ey, ez), (ax, ay, az), (mx, my, mz)) \<Rightarrow>
       MadgwickAHRSupdate (float_ops sqrt) (gain k)
         (f32_of_f64 (DTORAD (gx - ex)), f32_of_f64 (DTORAD (gz - ez)), f32_of_f64 (DTORAD (gy - ey)))
         (f32_of_f64 (GTOMSS ax), f32_of_f64 (GTOMSS az), f32_of_f64 (GTOMSS ay))
         (GAUSSTOT (- my), GAUSSTOT (- mz), GAUSSTOT (- mx)) q)"

fun attitude :: "(f64 \<Rightarrow> f64) \<Rightarrow> f32 vec \<Rightarrow> nat \<Rightarrow> (mpu_record \<times> f32 vec) list \<Rightarrow> f32 quat \<Rightarrow> f32 quat" where
  "attitude sqrt e k [] q = q"
| "attitude sqrt e k (x # xs) q = attitude sqrt e (Suc k) xs (filtered sqrt e k x q)"

fun quaternions :: "ahrs_msg list \<Rightarrow> f32 quat list" where
  "quaternions [] = []"
| "quaternions (MsgQuaternion q # ms) = q # quaternions ms"
| "quaternions (MsgImu i # ms) = quaternions ms"

lemma quaternions_append [simp]: "quaternions (ms @ ns) = quaternions ms @ quaternions ns"
  by (induction ms rule: quaternions.induct) simp_all

lemma attitude_snoc: "attitude sqrt e k (xs @ [x]) q = filtered sqrt e (k + length xs) x (attitude sqrt e k xs q)"
  by (induction xs arbitrary: k q) simp_all

lemma length_good_readings: "length (good_readings is r m) = length (filter good is)"
  by (induction "is" r m rule: good_readings.induct) (simp_all add: Let_def)

text \<open>The quaternions sent after \<open>rs\<close>: every fifth.\<close>

definition fifths :: "(f64 \<Rightarrow> f64) \<Rightarrow> f32 vec \<Rightarrow> (mpu_record \<times> f32 vec) list \<Rightarrow> f32 quat \<Rightarrow> f32 quat list" where
  "fifths sqrt e rs q = map (\<lambda>j. attitude sqrt e 0 (take (5 * j) rs) q) [1..<Suc (length rs div 5)]"

lemma fifths_snoc:
  "fifths sqrt e (rs @ [x]) q =
     fifths sqrt e rs q @ (if length rs mod 5 = 4 then [attitude sqrt e 0 (rs @ [x]) q] else [])"
proof -
  have old: "map (\<lambda>j. attitude sqrt e 0 (take (5 * j) (rs @ [x])) q) [1..<Suc (length rs div 5)] = fifths sqrt e rs q"
    unfolding fifths_def by (intro map_cong) auto
  show ?thesis
  proof (cases "length rs mod 5 = 4")
    case True
    then have d: "Suc (length rs) div 5 = Suc (length rs div 5)" "5 * Suc (length rs div 5) = Suc (length rs)"
      using div_mult_mod_eq [of "length rs" 5] by (auto simp: div_Suc mod_Suc)
    have "fifths sqrt e (rs @ [x]) q = map (\<lambda>j. attitude sqrt e 0 (take (5 * j) (rs @ [x])) q) [1..<Suc (Suc (length rs div 5))]"
      unfolding fifths_def using d(1) by simp
    also have "\<dots> = fifths sqrt e rs q @ [attitude sqrt e 0 (take (5 * Suc (length rs div 5)) (rs @ [x])) q]"
      unfolding old [symmetric] by simp
    finally show ?thesis using True by (simp only: d(2)) simp
  next
    case False
    then have "Suc (length rs) div 5 = length rs div 5" by (auto simp: div_Suc mod_Suc)
    then show ?thesis using old False by (simp add: fifths_def)
  qed
qed

definition on_course :: "(f64 \<Rightarrow> f64) \<Rightarrow> f32 vec \<Rightarrow> f32 quat \<Rightarrow> (mpu_record \<times> f32 vec) list \<Rightarrow> ahrs_thread \<Rightarrow> bool" where
  "on_course sqrt e q rs s \<longleftrightarrow> on_schedule (length rs) s \<and> gyro_err s = e \<and> quat s = attitude sqrt e 0 rs q
     \<and> quaternions (sent s) = fifths sqrt e rs q"

lemma update_filter_quat:
  "ahrs_beta s = gain k \<Longrightarrow> quat (update_filter sqrt s) = filtered sqrt (gyro_err s) k (record_mpu s, record_lsm s) (quat s)"
  by (simp add: update_filter_def filtered_def gyro_corrected_def Let_def split: prod.split)

lemma update_filter_keeps:
  "gyro_err (update_filter sqrt s) = gyro_err s" "record_mpu (update_filter sqrt s) = record_mpu s"
  "record_lsm (update_filter sqrt s) = record_lsm s" "sent (update_filter sqrt s) = sent s"
  "ticker (update_filter sqrt s) = ticker s"
  by (simp_all add: update_filter_def Let_def split: prod.split)

lemma settle_gain_keeps [simp]:
  "gyro_err (settle_gain s) = gyro_err s" "record_mpu (settle_gain s) = record_mpu s" "record_lsm (settle_gain s) = record_lsm s"
  "quat (settle_gain s) = quat s" "sent (settle_gain s) = sent s" "ticker (settle_gain s) = ticker s"
  by (simp_all add: settle_gain_def Let_def)

lemma send_fifth_keeps:
  assumes "send_fifth s = Some s'"
  shows "gyro_err s' = gyro_err s" "record_mpu s' = record_mpu s" "record_lsm s' = record_lsm s" "quat s' = quat s"
    "quaternions (sent s') = quaternions (sent s) @ (if ticker s = 4 then [quat s] else [])"
  using assms by (auto simp: send_fifth_def Let_def split: if_splits)

lemma good_round:
  assumes "ahrs_round sqrt (mpu, lsm) s = Some s'" "good (mpu, lsm)" "on_course sqrt e q rs s"
  shows "on_course sqrt e q (rs @ [(stored mpu (record_mpu s), stored lsm (record_lsm s))]) s'
    \<and> record_mpu s' = stored mpu (record_mpu s) \<and> record_lsm s' = stored lsm (record_lsm s)"
proof -
  let ?x = "(stored mpu (record_mpu s), stored lsm (record_lsm s))"
  define s2 where "s2 = s\<lparr>record_mpu := fst ?x, record_lsm := snd ?x\<rparr>"
  have "ahrs_beta s2 = gain (length rs)" "quat s2 = attitude sqrt e 0 rs q" "gyro_err s2 = e" "record_mpu s2 = fst ?x"
    "record_lsm s2 = snd ?x" "ticker s2 = int (length rs mod 5)" "quaternions (sent s2) = fifths sqrt e rs q"
    using assms(3) by (auto simp: s2_def on_course_def on_schedule_def gain_def)
  note s2 = this
  have u: "quat (update_filter sqrt s2) = attitude sqrt e 0 (rs @ [?x]) q"
    using update_filter_quat [OF s2(1)] s2 by (simp add: attitude_snoc)
  have "send_fifth (settle_gain (update_filter sqrt s2)) = Some s'"
    using assms(1,2) by (simp add: ahrs_round_def good_def s2_def)
  note f = send_fifth_keeps [OF this, simplified, unfolded update_filter_keeps]
  have "on_schedule (Suc (length rs)) s'"
    using ahrs_round_schedule [OF assms(1), of "length rs"] assms(2,3) by (simp add: on_course_def)
  moreover have "quaternions (sent s') = fifths sqrt e (rs @ [?x]) q"
    using f(5) s2 u by (simp add: fifths_snoc)
  ultimately show ?thesis using f(1-4) s2 u by (simp add: on_course_def)
qed

lemma failed_round:
  assumes "ahrs_round sqrt (mpu, lsm) s = Some s'" "\<not> good (mpu, lsm)" "on_course sqrt e q rs s"
  shows "on_course sqrt e q rs s' \<and> record_mpu s' = stored mpu (record_mpu s)
    \<and> record_lsm s' = (if mpu = RdErr then record_lsm s else stored lsm (record_lsm s))"
  using assms by (auto simp: ahrs_round_def good_def on_course_def on_schedule_def Let_def split: if_splits)

lemma ahrs_run_on_course:
  "ahrs_run sqrt is s = Some s' \<Longrightarrow> on_course sqrt e q rs s \<Longrightarrow>
    on_course sqrt e q (rs @ good_readings is (record_mpu s) (record_lsm s)) s'"
proof (induction "is" arbitrary: s rs)
  case (Cons i "is")
  obtain mpu lsm where i: "i = (mpu, lsm)" by (cases i)
  obtain s1 where s1: "ahrs_round sqrt (mpu, lsm) s = Some s1" "ahrs_run sqrt is s1 = Some s'"
    using Cons.prems(1) by (auto simp: i Option.bind_eq_Some_conv)
  show ?case
  proof (cases "good (mpu, lsm)")
    case True
    with good_round [OF s1(1) True Cons.prems(2)] show ?thesis
      using Cons.IH [OF s1(2), of "rs @ [(stored mpu (record_mpu s), stored lsm (record_lsm s))]"]
      by (simp add: i good_def Let_def)
  next
    case False
    with failed_round [OF s1(1) False Cons.prems(2)] show ?thesis
      using Cons.IH [OF s1(2), of rs] by (simp add: i Let_def)
  qed
qed simp

text \<open>C37. The attitude thread: only the rounds in which both sensors answered count. The reading of each is
given to the filter once and in order, the first hundred with the gain 10 and the others with 0.041, and
nothing else changes the quaternion; every fifth of them sends the two messages, with the quaternion
of that moment.\<close>

theorem ahrs_schedule:
  assumes "ahrs_run sqrt is (thread_start is1 is2 r m) = Some s"
  defines "t \<equiv> thread_start is1 is2 r m"
  defines "rs \<equiv> good_readings is (record_mpu t) (record_lsm t)" and "n \<equiv> length (filter good is)"
  shows "quat s = attitude sqrt (gyro_err t) 0 rs (quat t) \<and> length rs = n \<and>
    ahrs_beta s = (if n < 100 then f32_lit 10 1 else f32_lit 41 1000) \<and>
    length (sent s) = 2 * (n div 5) \<and> ticker s = int (n mod 5) \<and>
    quaternions (sent s) = map (\<lambda>j. attitude sqrt (gyro_err t) 0 (take (5 * j) rs) (quat t)) [1..<Suc (n div 5)]"
proof -
  have "on_course sqrt (gyro_err t) (quat t) [] t"
    by (simp add: on_course_def on_schedule_def t_def thread_start_def fifths_def split: prod.split)
  from ahrs_run_on_course [OF assms(1) [folded t_def] this]
  have "on_course sqrt (gyro_err t) (quat t) rs s" by (simp add: rs_def)
  moreover have "length rs = n" by (simp add: rs_def n_def length_good_readings)
  ultimately show ?thesis by (simp add: on_course_def on_schedule_def fifths_def)
qed

definition demo_mpu :: mpu_record where
  "demo_mpu = \<lparr>mpu_sec = 1, mpu_nsec = 0, mpu_acc = (0, 0, f32_lit 1 1), mpu_gyro = (0, 0, 0)\<rparr>"

text \<open>The witness: 105 rounds in which both sensors answer.\<close>

lemma imu_message_cong:
  "gyro_err s = gyro_err t \<Longrightarrow> record_mpu s = record_mpu t \<Longrightarrow> record_lsm s = record_lsm t \<Longrightarrow> imu_message s = imu_message t"
  by (simp add: imu_message_def gyro_corrected_def)

lemma demo_run_defined:
  assumes "gyro_err s = (0, 0, 0)"
  shows "ahrs_run sqrt (replicate n (RdGot demo_mpu, RdGot (0, 0, 0))) s \<noteq> None"
  using assms
proof (induction n arbitrary: s)
  case (Suc n)
  let ?t = "thread_start [] [] demo_mpu (0, 0, 0)"
  have "imu_message (?t\<lparr>gyro_err := (0, 0, 0)\<rparr>) \<noteq> None" "record_mpu ?t = demo_mpu" "record_lsm ?t = (0, 0, 0)" by code_simp+
  then have m: "imu_message s' \<noteq> None"
    if "gyro_err s' = (0, 0, 0)" "record_mpu s' = demo_mpu" "record_lsm s' = (0, 0, 0)" for s'
    using imu_message_cong [of s' "?t\<lparr>gyro_err := (0, 0, 0)\<rparr>"] that by simp
  define u where "u = settle_gain (update_filter sqrt (s\<lparr>record_mpu := demo_mpu, record_lsm := (0, 0, 0)\<rparr>))"
  have u: "gyro_err u = (0, 0, 0)" "record_mpu u = demo_mpu" "record_lsm u = (0, 0, 0)"
    using Suc.prems by (simp_all add: u_def update_filter_keeps)
  have "imu_message (u\<lparr>ticker := ticker u + 1\<rparr>) \<noteq> None" by (rule m) (simp_all add: u)
  then have "send_fifth u \<noteq> None" by (auto simp: send_fifth_def Let_def)
  then obtain s' where s': "send_fifth u = Some s'" by blast
  have "gyro_err s' = (0, 0, 0)" using send_fifth_keeps(1) [OF s'] u(1) by simp
  from Suc.IH [OF this] s' show ?case by (simp add: ahrs_round_def u_def)
qed simp

lemma ahrs_schedule_witness:
  "\<exists>s. ahrs_run id (replicate 105 (RdGot demo_mpu, RdGot (0, 0, 0))) (thread_start [] [] demo_mpu (0, 0, 0)) = Some s
     \<and> ahrs_beta s = f32_lit 41 1000 \<and> length (sent s) = 42 \<and> length (quaternions (sent s)) = 21"
proof -
  have "gyro_err (thread_start [] [] demo_mpu (0, 0, 0)) = (0, 0, 0)" by code_simp
  from demo_run_defined [OF this, of id 105] obtain s
    where s: "ahrs_run id (replicate 105 (RdGot demo_mpu, RdGot (0, 0, 0))) (thread_start [] [] demo_mpu (0, 0, 0)) = Some s" by blast
  have "length (filter good (replicate 105 (RdGot demo_mpu, RdGot (0, 0, 0)))) = 105" by (simp add: good_def filter_replicate)
  with ahrs_schedule [OF s] s show ?thesis by simp
qed

end
