(* ===== verification/Attitude_Safe.thy ===== *)
theory Attitude_Safe
  imports Filter_Unit Madgwick_Thread
begin

text \<open>
  The attitude thread with the float filter: with readings in the range of the sensors no conversion in
  it is undefined, the quaternion is always finite, and once the gain is lowered a unit quaternion
  stays one.
\<close>

section \<open>Units\<close>

lemma sized64_mult:
  assumes "sized64 A x" "sized64 B y" "A * B < 2 ^ 127"
  shows "sized64 (up (A * B)) (x * y)"
proof -
  obtain a b where ab: "fval binary64 (of_f64 x) a" "\<bar>a\<bar> \<le> A" "fval binary64 (of_f64 y) b" "\<bar>b\<bar> \<le> B"
    using assms(1,2) by (auto simp: sized64_def)
  have s: "\<bar>a * b\<bar> \<le> A * B" using ab by (intro product_size)
  then have "\<bar>a * b\<bar> < 2 powi (femax binary64 + int (fprec binary64) - 1)" using assms(3) format64(4) by linarith
  from fmul_close [OF ab(1,3) format64(1,2) this] obtain c
    where "fval binary64 (fmul binary64 (of_f64 x) (of_f64 y)) c" "\<bar>c - a * b\<bar> \<le> ulp_half binary64 * \<bar>a * b\<bar> + tiny binary64" by blast
  with size_after [OF this(2) format64(5,3) s] show ?thesis by (auto simp: sized64_def times_f64_def)
qed

lemma quotient_size: "\<bar>a\<bar> \<le> A \<Longrightarrow> 0 < (b :: real) \<Longrightarrow> \<bar>a / b\<bar> \<le> A / b"
  by (simp add: abs_divide divide_right_mono)

lemma sized64_div:
  assumes "sized64 A x" "fval binary64 (of_f64 y) b" "0 < b" "A / b < 2 ^ 127"
  shows "sized64 (up (A / b)) (x / y)"
proof -
  obtain a where a: "fval binary64 (of_f64 x) a" "\<bar>a\<bar> \<le> A" using assms(1) by (auto simp: sized64_def)
  have s: "\<bar>a / b\<bar> \<le> A / b" using a(2) assms(3) by (rule quotient_size)
  then have "\<bar>a / b\<bar> < 2 powi (femax binary64 + int (fprec binary64) - 1)" using assms(4) format64(4) by linarith
  from fdiv_close [OF a(1) assms(2) _ format64(1,2) this] assms(3) obtain c
    where "fval binary64 (fdiv binary64 (of_f64 x) (of_f64 y)) c" "\<bar>c - a / b\<bar> \<le> ulp_half binary64 * \<bar>a / b\<bar> + tiny binary64" by blast
  with size_after [OF this(2) format64(5,3) s] show ?thesis by (auto simp: sized64_def divide_f64_def)
qed

lemma sized_div:
  assumes "sized A x" "fval32 y b" "0 < b" "A / b < 2 ^ 127"
  shows "sized (up (A / b)) (x / y)"
proof -
  obtain a where a: "fval32 x a" "\<bar>a\<bar> \<le> A" using assms(1) by (auto simp: sized_def)
  have s: "\<bar>a / b\<bar> \<le> A / b" using a(2) assms(3) by (rule quotient_size)
  then have "\<bar>a / b\<bar> < 2 powi (femax binary32 + int (fprec binary32) - 1)" using assms(4) format32(4) by linarith
  from fdiv_close [OF a(1) assms(2) _ format32(1,2) this] assms(3) obtain c
    where "fval32 (x / y) c" "\<bar>c - a / b\<bar> \<le> \<bar>a / b\<bar> / 2 ^ 24 + 1 / 2 ^ 150"
    by (auto simp: divide_f32_def ulp32 format32(3))
  with rounded_size [OF this(2) s] show ?thesis by (auto simp: sized_def)
qed

text \<open>The constants of the thread.\<close>

lemma sized_FFin:
  "of_f32 x = FFin s m e \<Longrightarrow> 0 \<le> m \<Longrightarrow> of_int m * 2 powi e \<le> K \<Longrightarrow> sized K x"
  "of_f64 y = FFin s m e \<Longrightarrow> 0 \<le> m \<Longrightarrow> of_int m * 2 powi e \<le> K \<Longrightarrow> sized64 K y"
  by (auto simp: sized_def sized64_def fval_def intro!: exI [of _ "sign_of s * (of_int m * 2 powi e)"])

lemma thread_constants:
  "sized64 (315 / 100) M_PI" "sized64 (981 / 100) (f64_lit 980665 100000)" "fval binary64 (of_f64 (f64_lit 180 1)) 180"
  "fval32 (f32_lit 10 1) 10" "fval32 (f32_lit 10000 1) 10000" "fval32 (f32_lit 1000 1) 1000"
  "sized (1 / 16) (f32_lit 41 1000)"
proof -
  have "of_f64 M_PI = FFin False 7074237752028440 (-51)" "of_f64 (f64_lit 980665 100000) = FFin False 5520653160719109 (-49)"
    "of_f64 (f64_lit 180 1) = FFin False 6333186975989760 (-45)"
    "of_f32 (f32_lit 10 1) = FFin False 10485760 (-20)" "of_f32 (f32_lit 10000 1) = FFin False 10240000 (-10)"
    "of_f32 (f32_lit 1000 1) = FFin False 16384000 (-14)" "of_f32 (f32_lit 41 1000) = FFin False 11005854 (-28)"
    by code_simp+
  then show "sized64 (315 / 100) M_PI" "sized64 (981 / 100) (f64_lit 980665 100000)" "fval binary64 (of_f64 (f64_lit 180 1)) 180"
  "fval32 (f32_lit 10 1) 10" "fval32 (f32_lit 10000 1) 10000" "fval32 (f32_lit 1000 1) 1000"
  "sized (1 / 16) (f32_lit 41 1000)"
    by (auto simp: fval_def sign_of_def power_int_def power_divide intro: sized_FFin)
qed

lemma sized64_mono: "sized64 A x \<Longrightarrow> A \<le> B \<Longrightarrow> sized64 B x"
  by (force simp: sized64_def)

lemma DTORAD_sized: "sized (2 ^ 14) x \<Longrightarrow> sized64 300 (DTORAD x)"
  unfolding DTORAD_def
  by (rule sized64_mono [OF sized64_div [OF sized64_mult [OF sized_f64_of_f32 thread_constants(1)] thread_constants(3)]])
    (assumption | simp add: up_def)+

lemma GTOMSS_sized: "sized (2 ^ 5) x \<Longrightarrow> sized64 400 (GTOMSS x)"
  unfolding GTOMSS_def
  by (rule sized64_mono [OF sized64_mult [OF sized_f64_of_f32 thread_constants(2)]]) (assumption | simp add: up_def)+

lemma GAUSSTOT_sized: "sized (2 ^ 16) x \<Longrightarrow> sized 7 (GAUSSTOT x)"
  unfolding GAUSSTOT_def
  by (rule sized_mono [OF sized_div [OF _ thread_constants(5)]]) (assumption | simp add: up_def)+

section \<open>Conversions to integers\<close>

text \<open>A number of at most \<open>2 ^ 30\<close> converts to \<open>int\<close>.\<close>

lemma to_int32_defined:
  assumes "fval f x a" "\<bar>a\<bar> \<le> 2 ^ 30" shows "to_int32 x \<noteq> None"
proof -
  obtain s m e where x: "x = FFin s m e" "0 \<le> m" "a = sign_of s * (of_int m * 2 powi e)" using assms(1) by (auto simp: fval_def)
  obtain n d where nd: "ratio_of m e = (n, d)" by (cases "ratio_of m e")
  have r: "of_int n / of_int d = of_int m * (2 :: real) powi e" "0 < d" using ratio_of_value [OF nd] by simp_all
  have n0: "0 \<le> n" using nd x(2) by (auto simp: ratio_of_def split: if_splits)
  have "real_of_int n = \<bar>a\<bar> * of_int d" using n0 r(2) by (simp add: x flip: r(1))
  also have "\<dots> \<le> 2 ^ 30 * of_int d" using assms(2) r(2) by (intro mult_right_mono) simp_all
  finally have "real_of_int n \<le> of_int (2 ^ 30 * d)" by simp
  then have "n \<le> 2 ^ 30 * d" by (simp only: of_int_le_iff)
  then have "n div d \<le> 2 ^ 30 * d div d" using r(2) by (rule zdiv_mono1)
  then have "n div d \<le> 2 ^ 30" using r(2) by simp
  moreover have "0 \<le> n div d" using n0 r(2) by (simp add: pos_imp_zdiv_nonneg_iff)
  ultimately show ?thesis
    using nd by (simp add: x to_int32_def to_int_f_def INT32_MIN_def INT32_MAX_def)
qed

lemma to_int_vec_defined:
  assumes "\<And>y. y \<in> {x0, x1, x2} \<Longrightarrow> to_int32 y \<noteq> None" shows "to_int_vec (x0, x1, x2) \<noteq> None"
  using assms [of x0] assms [of x1] assms [of x2] by (auto simp: to_int_vec_def)

lemma to_int32_f32: "sized K x \<Longrightarrow> K \<le> 2 ^ 30 \<Longrightarrow> to_int32 (of_f32 x) \<noteq> None"
  unfolding sized_def by (metis order_trans to_int32_defined)

lemma to_int32_f64: "sized64 K x \<Longrightarrow> K \<le> 2 ^ 30 \<Longrightarrow> to_int32 (of_f64 x) \<noteq> None"
  unfolding sized64_def by (metis order_trans to_int32_defined)

section \<open>Readings in range\<close>

text \<open>2048 degrees per second, 32 g and 16 bits of field, more than the sensors can report.\<close>

definition mpu_ok :: "mpu_record \<Rightarrow> bool" where
  "mpu_ok r \<longleftrightarrow> sized3 (2 ^ 11) (mpu_gyro r) \<and> sized3 (2 ^ 5) (mpu_acc r)"

definition lsm_ok :: "f32 vec \<Rightarrow> bool" where "lsm_ok v \<longleftrightarrow> sized3 (2 ^ 16) v"

fun rd_ok :: "('a \<Rightarrow> bool) \<Rightarrow> 'a rd \<Rightarrow> bool" where
  "rd_ok P (RdGot x) \<longleftrightarrow> P x"
| "rd_ok P _ \<longleftrightarrow> True"

lemma stored_ok: "P x \<Longrightarrow> rd_ok P i \<Longrightarrow> P (stored i x)"
  by (cases i) simp_all

section \<open>Calibration\<close>

fun sum_range :: "nat \<Rightarrow> real" where
  "sum_range 0 = 0"
| "sum_range (Suc n) = 9 / 8 * (sum_range n + 2 ^ 11) + 1"

lemma sum_range_10: "n \<le> 10 \<Longrightarrow> 0 \<le> sum_range n \<and> sum_range n \<le> 2 ^ 16"
proof -
  assume "n \<le> 10"
  then have "n = 0 \<or> n = 1 \<or> n = 2 \<or> n = 3 \<or> n = 4 \<or> n = 5 \<or> n = 6 \<or> n = 7 \<or> n = 8 \<or> n = 9 \<or> n = 10" by presburger
  then show ?thesis by (auto simp: eval_nat_numeral)
qed

lemma add_gyro_sized:
  assumes "sized3 (sum_range n) e" "mpu_ok r" "n < 10"
  shows "sized3 (sum_range (Suc n)) (add_gyro e r)"
proof -
  obtain e0 e1 e2 g0 g1 g2 where f: "e = (e0, e1, e2)" "mpu_gyro r = (g0, g1, g2)" by (cases e; cases "mpu_gyro r") auto
  have s: "sized (sum_range n) e0" "sized (sum_range n) e1" "sized (sum_range n) e2"
    "sized (2 ^ 11) g0" "sized (2 ^ 11) g1" "sized (2 ^ 11) g2"
    using assms(1,2) by (simp_all add: f mpu_ok_def)
  have "sum_range n + 2 ^ 11 < 2 ^ 127" using sum_range_10 [of n] assms(3) by simp
  then show ?thesis using sized_add [OF s(1,4)] sized_add [OF s(2,5)] sized_add [OF s(3,6)] by (simp add: add_gyro_def f)
qed

lemma gyro_sum_sized:
  assumes "gyro_sum is r e = (e', r')" "sized3 (sum_range n) e" "n + length is \<le> 10" "mpu_ok r" "list_all (rd_ok mpu_ok) is"
  shows "sized3 (sum_range (n + length is)) e' \<and> mpu_ok r'"
  using assms
proof (induction "is" arbitrary: r e n)
  case (Cons i "is")
  have r: "mpu_ok (stored i r)" using Cons.prems by (auto intro: stored_ok)
  moreover have "sized3 (sum_range (Suc n)) (add_gyro e (stored i r))"
    using Cons.prems(2,3) r by (intro add_gyro_sized) simp_all
  ultimately show ?case using Cons.IH [of "stored i r" "add_gyro e (stored i r)" "Suc n"] Cons.prems by (simp add: Let_def)
qed simp

lemma warm_up_ok: "mpu_ok r \<Longrightarrow> list_all (rd_ok mpu_ok) is \<Longrightarrow> mpu_ok (warm_up is r)"
  by (induction "is" arbitrary: r) (auto intro: stored_ok)

lemma calibrate_sized:
  assumes "calibrate is1 is2 r = (e, r')" "mpu_ok r" "list_all (rd_ok mpu_ok) is1" "list_all (rd_ok mpu_ok) is2" "length is2 = 10"
  shows "sized3 (2 ^ 13) e \<and> mpu_ok r'"
proof -
  obtain x y z r1 where g: "gyro_sum is2 (warm_up is1 r) (0, 0, 0) = ((x, y, z), r1)"
    by (cases "gyro_sum is2 (warm_up is1 r) (0, 0, 0)") auto
  have "sized3 (sum_range 0) (0, 0, 0)" using fval_constants(3) by (auto simp: sized_def)
  from gyro_sum_sized [OF g this] assms have s: "sized3 (sum_range 10) (x, y, z)" "mpu_ok r1" by (simp_all add: warm_up_ok)
  have div: "sized (2 ^ 13) (v / f32_lit 10 1)" if "sized (sum_range 10) v" for v
    using that sum_range_10 [of 10]
    by (intro sized_mono [OF sized_div [OF sized_mono [OF that, of "2 ^ 16"] thread_constants(4)]]) (simp_all add: up_def)
  then show ?thesis using assms(1) s g by (auto simp: calibrate_def)
qed

section \<open>The state of the thread\<close>

definition thread_ok :: "ahrs_thread \<Rightarrow> bool" where
  "thread_ok s \<longleftrightarrow> mpu_ok (record_mpu s) \<and> lsm_ok (record_lsm s) \<and> sized3 (2 ^ 13) (gyro_err s)
     \<and> sized4 4 (quat s) \<and> sized 16 (ahrs_beta s)"

lemma thread_start_ok:
  assumes "mpu_ok r" "lsm_ok m" "list_all (rd_ok mpu_ok) is1" "list_all (rd_ok mpu_ok) is2" "length is2 = 10"
  shows "thread_ok (thread_start is1 is2 r m)"
proof -
  obtain e r' where c: "calibrate is1 is2 r = (e, r')" by (cases "calibrate is1 is2 r")
  have "sized 4 (f32_lit 1 1)" "sized 4 0" using sized_literals(2) fval_constants(3)
    by (auto intro: sized_mono simp: sized_def)
  moreover have "sized 16 (f32_lit 10 1)" using thread_constants(4) by (auto simp: sized_def)
  ultimately show ?thesis
    using calibrate_sized [OF c assms(1,3-5)] assms(2) by (simp add: thread_start_def c thread_ok_def)
qed

lemma gyro_corrected_sized: "thread_ok s \<Longrightarrow> sized3 (2 ^ 14) (gyro_corrected s)"
proof -
  assume ok: "thread_ok s"
  obtain x y z ex ey ez where f: "mpu_gyro (record_mpu s) = (x, y, z)" "gyro_err s = (ex, ey, ez)"
    by (cases "mpu_gyro (record_mpu s)"; cases "gyro_err s") auto
  have sub: "sized (2 ^ 14) (u - v)" if "sized (2 ^ 11) u" "sized (2 ^ 13) v" for u v
    by (rule sized_mono [OF sized_sub [OF that]]) simp_all
  show ?thesis using ok by (auto simp: thread_ok_def mpu_ok_def gyro_corrected_def f intro: sub [simplified])
qed

text \<open>What the filter is called with.\<close>

lemma filter_inputs:
  assumes "thread_ok s"
  shows "sized3 (2 ^ 11) (case gyro_corrected s of (x, y, z) \<Rightarrow> (f32_of_f64 (DTORAD x), f32_of_f64 (DTORAD z), f32_of_f64 (DTORAD y)))"
    and "sized3 (2 ^ 49) (case mpu_acc (record_mpu s) of (x, y, z) \<Rightarrow> (f32_of_f64 (GTOMSS x), f32_of_f64 (GTOMSS z), f32_of_f64 (GTOMSS y)))"
    and "sized3 (2 ^ 49) (case record_lsm s of (x, y, z) \<Rightarrow> (GAUSSTOT (- y), GAUSSTOT (- z), GAUSSTOT (- x)))"
proof -
  have g: "sized (2 ^ 11) (f32_of_f64 (DTORAD v))" if "sized (2 ^ 14) v" for v
    by (rule sized_mono [OF sized_f32_of_f64 [OF DTORAD_sized [OF that]]]) (simp_all add: up_def)
  have a: "sized (2 ^ 49) (f32_of_f64 (GTOMSS v))" if "sized (2 ^ 5) v" for v
    by (rule sized_mono [OF sized_f32_of_f64 [OF GTOMSS_sized [OF that]]]) (simp_all add: up_def)
  have m: "sized (2 ^ 49) (GAUSSTOT (- v))" if "sized (2 ^ 16) v" for v
    by (rule sized_mono [OF GAUSSTOT_sized [OF sized_uminus [OF that]]]) simp
  show "sized3 (2 ^ 11) (case gyro_corrected s of (x, y, z) \<Rightarrow> (f32_of_f64 (DTORAD x), f32_of_f64 (DTORAD z), f32_of_f64 (DTORAD y)))"
    using gyro_corrected_sized [OF assms] g by (auto split: prod.split)
  show "sized3 (2 ^ 49) (case mpu_acc (record_mpu s) of (x, y, z) \<Rightarrow> (f32_of_f64 (GTOMSS x), f32_of_f64 (GTOMSS z), f32_of_f64 (GTOMSS y)))"
    using assms a by (auto simp: thread_ok_def mpu_ok_def split: prod.split)
  show "sized3 (2 ^ 49) (case record_lsm s of (x, y, z) \<Rightarrow> (GAUSSTOT (- y), GAUSSTOT (- z), GAUSSTOT (- x)))"
    using assms m by (auto simp: thread_ok_def lsm_ok_def split: prod.split)
qed

lemma update_filter_unfold:
  "update_filter sq s = s\<lparr>quat := MadgwickAHRSupdate ((float_ops sq)\<lparr>fl_freq := 10\<rparr>) (ahrs_beta s)
     (case gyro_corrected s of (x, y, z) \<Rightarrow> (f32_of_f64 (DTORAD x), f32_of_f64 (DTORAD z), f32_of_f64 (DTORAD y)))
     (case mpu_acc (record_mpu s) of (x, y, z) \<Rightarrow> (f32_of_f64 (GTOMSS x), f32_of_f64 (GTOMSS z), f32_of_f64 (GTOMSS y)))
     (case record_lsm s of (x, y, z) \<Rightarrow> (GAUSSTOT (- y), GAUSSTOT (- z), GAUSSTOT (- x))) (quat s)\<rparr>"
  by (simp add: update_filter_def Let_def float_ops_def split: prod.split)

lemma period:
  "fval32 (f32_lit 1 10) (13421773 / 2 ^ 27)" "\<bar>13421773 / 2 ^ 27\<bar> \<le> (1 / 8 :: real)" "sized 1 (f32_lit 1 10)"
proof -
  have d: "of_f32 (f32_lit 1 10) = FFin False 13421773 (-27)" by code_simp
  then show "fval32 (f32_lit 1 10) (13421773 / 2 ^ 27)" by (auto simp: fval_def sign_of_def power_int_def field_simps)
  show "\<bar>13421773 / 2 ^ 27\<bar> \<le> (1 / 8 :: real)" by simp
  show "sized 1 (f32_lit 1 10)" using d by (rule sized_FFin) (simp_all add: power_int_def power_divide)
qed

lemma update_filter_ok: "sqrt_ok sq \<Longrightarrow> thread_ok s \<Longrightarrow> thread_ok (update_filter sq s)"
  using update_sized [OF _ period(3) _ _ filter_inputs] unfolding update_filter_unfold by (simp add: thread_ok_def)

lemma update_filter_unit:
  "sqrt_ok sq \<Longrightarrow> thread_ok s \<Longrightarrow> sized (1 / 16) (ahrs_beta s) \<Longrightarrow> unit_quat (quat s) \<Longrightarrow> unit_quat (quat (update_filter sq s))"
  using update_keeps_unit [OF _ period(1,2) _ _ filter_inputs] unfolding update_filter_unfold by simp

lemma settle_gain_ok: "thread_ok s \<Longrightarrow> thread_ok (settle_gain s)"
  using sized_mono [OF thread_constants(7), of 16] by (simp add: settle_gain_def Let_def thread_ok_def)

lemma imu_message_defined: "thread_ok s \<Longrightarrow> imu_message s \<noteq> None"
proof -
  assume ok: "thread_ok s"
  obtain gx gy gz ax ay az mx my mz where f: "gyro_corrected s = (gx, gy, gz)" "mpu_acc (record_mpu s) = (ax, ay, az)" "record_lsm s = (mx, my, mz)"
    by (cases "gyro_corrected s"; cases "mpu_acc (record_mpu s)"; cases "record_lsm s") auto
  have k: "sized 1000 (f32_lit 1000 1)" using thread_constants(6) by (auto simp: sized_def)
  have acc: "to_int32 (of_f32 (v * f32_lit 1000 1)) \<noteq> None" if "sized (2 ^ 5) v" for v
    by (rule to_int32_f32 [OF sized_mult [OF that k]]) (simp_all add: up_def)
  have gyr: "to_int32 (of_f64 (DTORAD v * f64_of_f32 (f32_lit 1000 1))) \<noteq> None" if "sized (2 ^ 14) v" for v
    by (rule to_int32_f64 [OF sized64_mult [OF DTORAD_sized [OF that] sized_f64_of_f32 [OF k]]]) (simp_all add: up_def)
  have mag: "to_int32 (of_f32 (v / f32_lit 10 1)) \<noteq> None" if "sized (2 ^ 16) v" for v
    by (rule to_int32_f32 [OF sized_div [OF that thread_constants(4)]]) (simp_all add: up_def)
  have "to_int_vec (of_f32 (ax * f32_lit 1000 1), of_f32 (ay * f32_lit 1000 1), of_f32 (az * f32_lit 1000 1)) \<noteq> None"
    using ok acc by (intro to_int_vec_defined) (auto simp: thread_ok_def mpu_ok_def f)
  moreover have "to_int_vec (of_f64 (DTORAD gx * f64_of_f32 (f32_lit 1000 1)), of_f64 (DTORAD gy * f64_of_f32 (f32_lit 1000 1)),
      of_f64 (DTORAD gz * f64_of_f32 (f32_lit 1000 1))) \<noteq> None"
    using gyro_corrected_sized [OF ok] gyr by (intro to_int_vec_defined) (auto simp: f)
  moreover have "to_int_vec (of_f32 (mx / f32_lit 10 1), of_f32 (my / f32_lit 10 1), of_f32 (mz / f32_lit 10 1)) \<noteq> None"
    using ok mag by (intro to_int_vec_defined) (auto simp: thread_ok_def lsm_ok_def f)
  ultimately show ?thesis by (auto simp: imu_message_def f Let_def)
qed

lemma send_fifth_ok:
  assumes "thread_ok s" obtains s' where "send_fifth s = Some s'" "thread_ok s'" "quat s' = quat s" "ahrs_beta s' = ahrs_beta s"
    "ahrs_repetitions s' = ahrs_repetitions s"
proof -
  have ok: "thread_ok (s\<lparr>ticker := ticker s + 1\<rparr>)" using assms by (simp add: thread_ok_def)
  obtain m where "imu_message (s\<lparr>ticker := ticker s + 1\<rparr>) = Some m" using imu_message_defined [OF ok] by blast
  with ok show ?thesis using that
    by (cases "ticker s + 1 = 5") (simp_all add: send_fifth_def Let_def thread_ok_def)
qed

section \<open>Rounds\<close>

definition round_ok :: "mpu_record rd \<times> f32 vec rd \<Rightarrow> bool" where
  "round_ok i \<longleftrightarrow> rd_ok mpu_ok (fst i) \<and> rd_ok lsm_ok (snd i)"

lemma ahrs_round_ok:
  assumes "sqrt_ok sq" "thread_ok s" "round_ok i"
  obtains s' where "ahrs_round sq i s = Some s'" "thread_ok s'"
    "unit_quat (quat s) \<Longrightarrow> sized (1 / 16) (ahrs_beta s) \<Longrightarrow> unit_quat (quat s')"
proof -
  obtain mpu lsm where i: "i = (mpu, lsm)" by (cases i)
  define s1 where "s1 = s\<lparr>record_mpu := stored mpu (record_mpu s)\<rparr>"
  define s2 where "s2 = s1\<lparr>record_lsm := stored lsm (record_lsm s1)\<rparr>"
  have s1: "thread_ok s1" "quat s1 = quat s" "ahrs_beta s1 = ahrs_beta s"
    using assms(2,3) by (simp_all add: s1_def thread_ok_def round_ok_def i stored_ok)
  have s2: "thread_ok s2" "quat s2 = quat s" "ahrs_beta s2 = ahrs_beta s"
    using s1 assms(3) by (simp_all add: s2_def thread_ok_def round_ok_def i stored_ok)
  define s3 where "s3 = settle_gain (update_filter sq s2)"
  have s3: "thread_ok s3" "unit_quat (quat s) \<Longrightarrow> sized (1 / 16) (ahrs_beta s) \<Longrightarrow> unit_quat (quat s3)"
    using settle_gain_ok [OF update_filter_ok [OF assms(1) s2(1)]] update_filter_unit [OF assms(1) s2(1)] s2(2,3)
    by (simp_all add: s3_def settle_gain_def Let_def)
  obtain s4 where s4: "send_fifth s3 = Some s4" "thread_ok s4" "quat s4 = quat s3" by (rule send_fifth_ok [OF s3(1)])
  have r: "ahrs_round sq i s = (if mpu = RdErr then Some s1 else if lsm = RdErr then Some s2 else Some s4)"
    using s4(1) by (simp add: ahrs_round_def i Let_def s1_def s2_def s3_def)
  consider "mpu = RdErr" | "mpu \<noteq> RdErr" "lsm = RdErr" | "mpu \<noteq> RdErr" "lsm \<noteq> RdErr" by blast
  then show ?thesis
    using r that s1 s2 s3(2) s4(2,3) by cases simp_all
qed

lemma ahrs_run_ok:
  assumes "sqrt_ok sq"
  shows "thread_ok s \<Longrightarrow> list_all round_ok is \<Longrightarrow> \<exists>s'. ahrs_run sq is s = Some s' \<and> thread_ok s'"
proof (induction "is" arbitrary: s)
  case (Cons i "is")
  obtain s1 where "ahrs_round sq i s = Some s1" "thread_ok s1"
    by (rule ahrs_round_ok [OF assms Cons.prems(1)]) (use Cons.prems(2) in auto)
  with Cons show ?case by simp
qed simp

lemma ahrs_run_unit:
  assumes "sqrt_ok sq"
  shows "thread_ok s \<Longrightarrow> list_all round_ok is \<Longrightarrow> on_schedule k s \<Longrightarrow> 100 \<le> k \<Longrightarrow> unit_quat (quat s) \<Longrightarrow>
    ahrs_run sq is s = Some s' \<Longrightarrow> unit_quat (quat s')"
proof (induction "is" arbitrary: s k)
  case (Cons i "is")
  have b: "sized (1 / 16) (ahrs_beta s)" using Cons.prems(3,4) thread_constants(7) by (simp add: on_schedule_def)
  obtain s1 where s1: "ahrs_round sq i s = Some s1" "thread_ok s1" "unit_quat (quat s1)"
    by (rule ahrs_round_ok [OF assms Cons.prems(1)]) (use Cons.prems(2,5) b in auto)
  show ?case
    by (rule Cons.IH [OF s1(2) _ ahrs_round_schedule [OF s1(1) Cons.prems(3)]]) (use Cons.prems s1 in auto)
qed simp

text \<open>C6. With readings in the range of the sensors (2048 degrees per second, 32 g, 16 bits of field; failed reads
  in any place, and the uninitialised record counted as a reading) the attitude thread never does
  anything undefined, for any number of rounds: every conversion to an integer is in range, and
  the quaternion it stores and sends is finite, with components up to four. No NaN can arise in the
  filter, which it would never leave again. Of \<open>sqrt\<close> it is assumed that it is right to a factor.\<close>

theorem attitude_thread_safe:
  assumes "sqrt_ok sq" "mpu_ok r" "lsm_ok m" "list_all (rd_ok mpu_ok) is1" "list_all (rd_ok mpu_ok) is2" "length is2 = 10"
    and "list_all round_ok is"
  shows "\<exists>s. ahrs_run sq is (thread_start is1 is2 r m) = Some s \<and> sized4 4 (quat s)"
  using ahrs_run_ok [OF assms(1) thread_start_ok [OF assms(2-6)] assms(7)] by (auto simp: thread_ok_def)

text \<open>C7. After the hundredth update, when the gain is lowered to 0.041, a unit quaternion stays one for the rest
  of the flight: if its length is within 0.0019 of one then, so it is after any further rounds, whatever the
  readings in range, roundings included. The accuracy of the fast inverse square root is thus not lost
  from turn to turn. (With the initial gain of 10 the correction of a turn is as long as the quaternion.)\<close>

theorem attitude_stays_unit:
  assumes "sqrt_ok sq" "mpu_ok r" "lsm_ok m" "list_all (rd_ok mpu_ok) is1" "list_all (rd_ok mpu_ok) is2" "length is2 = 10"
    and "list_all round_ok is" "ahrs_run sq is (thread_start is1 is2 r m) = Some s" "100 \<le> length (filter good is)"
    and "unit_quat (quat s)" "list_all round_ok is'" "ahrs_run sq is' s = Some s'"
  shows "unit_quat (quat s')"
proof -
  have "thread_ok s" using ahrs_run_ok [OF assms(1) thread_start_ok [OF assms(2-6)] assms(7)] assms(8) by simp
  moreover have "on_schedule 0 (thread_start is1 is2 r m)"
    by (simp add: on_schedule_def thread_start_def split: prod.split)
  from ahrs_run_schedule [OF assms(8) this] have "on_schedule (length (filter good is)) s" by simp
  ultimately show ?thesis using ahrs_run_unit [OF assms(1) _ assms(11) _ assms(9,10,12)] by blast
qed

section \<open>A square root\<close>

text \<open>A root that is right to a factor: the power of two next to it.\<close>

definition coarse_sqrt :: "f64 \<Rightarrow> f64" where
  "coarse_sqrt x =
     (case of_f64 x of
        FFin s m e \<Rightarrow> F64 (if m = 0 then FFin s 0 0 else FFin False 1 ((bitlen m + e) div 2))
      | _ \<Rightarrow> x)"

lemma coarse_root:
  assumes "0 < m" shows "\<bar>2 powi ((bitlen m + e) div 2) - sqrt (of_int m * 2 powi e)\<bar> \<le> sqrt (of_int m * 2 powi e) / 2"
proof -
  define a :: real where "a = of_int m * 2 powi e"
  define k where "k = (bitlen m + e) div 2"
  define b :: real where "b = 2 powi k"
  have split: "(2 :: real) powi (i + j) = 2 powi i * 2 powi j" for i j by (rule power_int_add) simp
  have "2 powi (bitlen m - 1) * 2 powi e \<le> a" "a < 2 powi (bitlen m) * 2 powi e"
    unfolding a_def using bitlen_real [OF assms] by (intro mult_right_mono mult_strict_right_mono; simp)+
  then have a: "2 powi (bitlen m - 1 + e) \<le> a" "a < 2 powi (bitlen m + e)" "0 < a"
    using assms by (simp_all only: split) (simp add: a_def)
  have b2: "b\<^sup>2 = 2 powi (2 * k)" unfolding b_def power2_eq_square mult_2 split ..
  have "b\<^sup>2 \<le> 2 powi (bitlen m - 1 + e + 1)" unfolding b2 by (rule power_int_increasing) (simp_all add: k_def)
  then have "b\<^sup>2 \<le> 2 * a" using a(1) unfolding split [of _ 1] by simp
  then have "b\<^sup>2 \<le> (3 / 2 * sqrt a)\<^sup>2" using a(3) by (simp add: power_mult_distrib power2_eq_square)
  then have up: "b \<le> 3 / 2 * sqrt a" by (rule power2_le_imp_le) (use a(3) in simp)
  have "bitlen m + e - 1 \<le> 2 * k" by (simp add: k_def)
  then have "2 powi (bitlen m + e - 1) \<le> b\<^sup>2" unfolding b2 by (rule power_int_increasing) simp
  moreover have "2 powi (bitlen m + e - 1) * 2 = (2 :: real) powi (bitlen m + e)" using split [of "bitlen m + e - 1" 1] by simp
  ultimately have "a \<le> 2 * b\<^sup>2" using a(2) by linarith
  then have "(sqrt a / 2)\<^sup>2 \<le> b\<^sup>2" using a(3) by (simp add: power_divide)
  then have "sqrt a / 2 \<le> b" by (rule power2_le_imp_le) (simp add: b_def)
  with up have "\<bar>b - sqrt a\<bar> \<le> sqrt a / 2" by linarith
  then show ?thesis unfolding a_def b_def k_def .
qed

lemma coarse_sqrt_ok: "sqrt_ok coarse_sqrt"
  unfolding sqrt_ok_def
proof (intro allI impI, elim conjE)
  fix x :: f64 and a :: real
  assume "fval binary64 (of_f64 x) a" "0 \<le> a"
  then obtain s m e where x: "of_f64 x = FFin s m e" "0 \<le> m" "a = sign_of s * (of_int m * 2 powi e)" by (auto simp: fval_def)
  show "\<exists>b. fval binary64 (of_f64 (coarse_sqrt x)) b \<and> \<bar>b - sqrt a\<bar> \<le> sqrt a / 2"
  proof (cases "m = 0")
    case False
    then have m: "0 < m" using x(2) by simp
    then have "0 < of_int m * (2 :: real) powi e" by simp
    then have "a = of_int m * 2 powi e" using \<open>0 \<le> a\<close> by (auto simp: x(3) sign_of_def split: if_splits)
    with coarse_root [OF m, of e] m show ?thesis
      by (intro exI [of _ "2 powi ((bitlen m + e) div 2)"]) (auto simp: coarse_sqrt_def x(1) fval_def sign_of_def)
  qed (simp add: coarse_sqrt_def x)
qed

section \<open>Witnesses\<close>

text \<open>Readings in free fall: the accelerometer is exactly zero, the probe turns.\<close>

definition falling :: mpu_record where
  "falling = \<lparr>mpu_sec = 1, mpu_nsec = 0, mpu_acc = (0, 0, 0), mpu_gyro = (f32_lit 10 1, 0, f32_lit 1000 1)\<rparr>"

definition field :: "f32 vec" where "field = (f32_lit 1000 1, 0, f32_lit 10 1)"

definition resting :: mpu_record where "resting = falling\<lparr>mpu_acc := (0, 0, f32_lit 1 1)\<rparr>"

lemma demo_ok: "mpu_ok falling" "lsm_ok field" "mpu_ok resting"
proof -
  have c: "sized (2 ^ 11) 0" "sized (2 ^ 5) 0" "sized (2 ^ 16) 0" using fval_constants(3) by (auto simp: sized_def)
  have d: "sized (2 ^ 11) (f32_lit 10 1)" "sized (2 ^ 11) (f32_lit 1000 1)" "sized (2 ^ 16) (f32_lit 10 1)" "sized (2 ^ 16) (f32_lit 1000 1)"
    using thread_constants(4,6) by (force simp: sized_def)+
  have one: "sized (2 ^ 5) (f32_lit 1 1)" by (rule sized_mono [OF sized_literals(2)]) simp
  show "mpu_ok falling" "lsm_ok field" "mpu_ok resting"
    using c d one by (simp_all add: falling_def resting_def field_def mpu_ok_def lsm_ok_def)
qed

lemma attitude_thread_safe_witness:
  "\<exists>s. ahrs_run coarse_sqrt (replicate 7 (RdGot resting, RdGot field) @ [(RdErr, RdErr), (RdGot falling, RdKeep)])
       (thread_start [RdErr] (replicate 10 (RdGot resting)) resting field) = Some s \<and> sized4 4 (quat s)"
  by (rule attitude_thread_safe) (simp_all add: coarse_sqrt_ok demo_ok round_ok_def numeral_eq_Suc)

text \<open>Without an acceleration the gain is not used.\<close>

lemma free_fall_gain:
  assumes "mpu_acc (record_mpu s) = (0, 0, 0)"
  shows "quat (update_filter sq s) = quat (update_filter sq (s\<lparr>ahrs_beta := f32_lit 41 1000\<rparr>))"
proof -
  have "f32_of_f64 (GTOMSS 0) = 0" by code_simp
  moreover have "f32_eq 0 0" by code_simp
  ultimately show ?thesis
    by (simp add: update_filter_unfold assms update_normalises integrated_gradient is_zero3_def gyro_corrected_def float_ops_def)
qed

lemma free_fall_run:
  assumes "sqrt_ok sq"
  shows "thread_ok s \<Longrightarrow> unit_quat (quat s) \<Longrightarrow> \<exists>s'. ahrs_run sq (replicate n (RdGot falling, RdGot field)) s = Some s' \<and> unit_quat (quat s')"
proof (induction n arbitrary: s)
  case (Suc n)
  define s2 where "s2 = s\<lparr>record_mpu := falling, record_lsm := field\<rparr>"
  have s2: "thread_ok s2" "unit_quat (quat s2)" using Suc.prems demo_ok by (simp_all add: s2_def thread_ok_def)
  define low where "low = s2\<lparr>ahrs_beta := f32_lit 41 1000\<rparr>"
  have "thread_ok low" using s2(1) sized_mono [OF thread_constants(7), of 16] by (simp add: low_def thread_ok_def)
  then have "unit_quat (quat (update_filter sq low))"
    using s2(2) thread_constants(7) by (intro update_filter_unit [OF assms]) (simp_all add: low_def)
  then have u: "unit_quat (quat (settle_gain (update_filter sq s2)))"
    using free_fall_gain [of s2 sq] by (simp add: low_def s2_def falling_def settle_gain_def Let_def)
  obtain s4 where s4: "send_fifth (settle_gain (update_filter sq s2)) = Some s4" "thread_ok s4" "quat s4 = quat (settle_gain (update_filter sq s2))"
    by (rule send_fifth_ok [OF settle_gain_ok [OF update_filter_ok [OF assms s2(1)]]])
  have "ahrs_round sq (RdGot falling, RdGot field) s = Some s4" using s4(1) by (simp add: ahrs_round_def s2_def)
  then show ?case using Suc.IH [OF s4(2)] u s4(3) by simp
qed simp

lemma attitude_stays_unit_witness:
  "\<exists>s s'. ahrs_run coarse_sqrt (replicate 100 (RdGot falling, RdGot field))
       (thread_start [] (replicate 10 (RdGot falling)) falling field) = Some s
     \<and> ahrs_run coarse_sqrt (replicate 20 (RdGot resting, RdGot field)) s = Some s' \<and> unit_quat (quat s')"
proof -
  let ?s0 = "thread_start [] (replicate 10 (RdGot falling)) falling field"
  have ok: "list_all (rd_ok mpu_ok) (replicate n (RdGot falling))" "list_all round_ok (replicate n (RdGot falling, RdGot field))"
    "list_all round_ok (replicate n (RdGot resting, RdGot field))" for n
    by (simp_all add: list_all_iff round_ok_def demo_ok)
  have start: "thread_ok ?s0" by (rule thread_start_ok [OF demo_ok(1,2) _ ok(1)]) simp_all
  have "of_f32 (f32_lit 1 1) = FFin False 8388608 (-23)" by code_simp
  then have "fval32 (f32_lit 1 1) 1" by (auto simp: fval_def sign_of_def power_int_def field_simps)
  then have "quat_val (f32_lit 1 1, 0, 0, 0) (1, 0, 0, 0)" using fval_constants(3) by simp
  then have "unit_quat (f32_lit 1 1, 0, 0, 0)" unfolding unit_quat_def by (intro exI [of _ "(1, 0, 0, 0)"]) simp
  then have "unit_quat (quat ?s0)" by (simp add: thread_start_def split: prod.split)
  from free_fall_run [OF coarse_sqrt_ok start this] obtain s
    where s: "ahrs_run coarse_sqrt (replicate 100 (RdGot falling, RdGot field)) ?s0 = Some s" "unit_quat (quat s)" by blast
  have "thread_ok s" using ahrs_run_ok [OF coarse_sqrt_ok start ok(2) [of 100]] s(1) by auto
  from ahrs_run_ok [OF coarse_sqrt_ok this ok(3) [of 20]] obtain s'
    where s': "ahrs_run coarse_sqrt (replicate 20 (RdGot resting, RdGot field)) s = Some s'" by blast
  have "unit_quat (quat s')"
    by (rule attitude_stays_unit [OF coarse_sqrt_ok demo_ok(1,2) _ ok(1) _ ok(2) s(1) _ s(2) ok(3) s']) (simp_all add: good_def)
  with s s' show ?thesis by blast
qed

end
