(* ===== verification/Quaternion.thy ===== *)
theory Quaternion
  imports Float_Types Complex_Main
begin

text \<open>
  The quaternion functions \<^verbatim>\<open>research/Madgwick/Madgwick/src/madgwick/quaternion.c\<close>. Like the filter
  they are written over any arithmetic, with the \<open>sqrt\<close> of \<^verbatim>\<open>libm\<close> as a parameter: at \<^verbatim>\<open>f64\<close>
  they are the code, which computes in \<^verbatim>\<open>double\<close>; at the reals the lemmas show that
  \<open>vect_rotate\<close> is a rotation and that rotations compose as quaternions multiply.
\<close>

section \<open>The code\<close>

record 'a vector_t =
  vx :: 'a
  vy :: 'a
  vz :: 'a

record 'a quaternion_t =
  qw :: 'a
  qx :: 'a
  qy :: 'a
  qz :: 'a

definition quat_mult :: "'a::times quaternion_t \<Rightarrow> 'a \<Rightarrow> 'a quaternion_t" where
  "quat_mult a k = \<lparr>qw = qw a * k, qx = qx a * k, qy = qy a * k, qz = qz a * k\<rparr>"

definition quat_abs :: "('a \<Rightarrow> 'a) \<Rightarrow> 'a::{plus,times} quaternion_t \<Rightarrow> 'a" where
  "quat_abs lib_sqrt a = lib_sqrt (qw a * qw a + qx a * qx a + qy a * qy a + qz a * qz a)"

definition quat_normalize :: "('a \<Rightarrow> 'a) \<Rightarrow> 'a::{plus,times,inverse} quaternion_t \<Rightarrow> 'a quaternion_t" where
  "quat_normalize lib_sqrt a = quat_mult a (inverse (quat_abs lib_sqrt a))"

definition quat_invert ::
  "('a \<Rightarrow> 'a) \<Rightarrow> 'a::{one,plus,times,uminus,inverse} quaternion_t \<Rightarrow> 'a quaternion_t" where
  "quat_invert lib_sqrt a =
     quat_normalize lib_sqrt \<lparr>qw = qw a, qx = (- 1) * qx a, qy = (- 1) * qy a, qz = (- 1) * qz a\<rparr>"

definition quat_mult_by_quat ::
  "'a::{plus,minus,times} quaternion_t \<Rightarrow> 'a quaternion_t \<Rightarrow> 'a quaternion_t" where
  "quat_mult_by_quat a b =
     \<lparr>qw = qw a * qw b - qx a * qx b - qy a * qy b - qz a * qz b,
      qx = qw a * qx b + qx a * qw b + qy a * qz b - qz a * qy b,
      qy = qw a * qy b - qx a * qz b + qy a * qw b + qz a * qx b,
      qz = qw a * qz b + qx a * qy b - qy a * qx b + qz a * qw b\<rparr>"

definition quat_mult_by_vect ::
  "'a::{zero,plus,minus,times} quaternion_t \<Rightarrow> 'a vector_t \<Rightarrow> 'a quaternion_t" where
  "quat_mult_by_vect a b = quat_mult_by_quat a \<lparr>qw = 0, qx = vx b, qy = vy b, qz = vz b\<rparr>"

definition vect_rotate ::
  "('a \<Rightarrow> 'a) \<Rightarrow> 'a::{zero,one,plus,minus,uminus,times,inverse} vector_t \<Rightarrow> 'a quaternion_t \<Rightarrow> 'a vector_t" where
  "vect_rotate lib_sqrt vect rotation =
     (let rot_normal = quat_normalize lib_sqrt rotation;
          tmp = quat_mult_by_vect rot_normal vect;
          inverted = quat_invert lib_sqrt rot_normal;
          tmp = quat_mult_by_quat tmp inverted
      in \<lparr>vx = qx tmp, vy = qy tmp, vz = qz tmp\<rparr>)"

lemmas quat_defs = quat_mult_def quat_normalize_def quat_invert_def quat_mult_by_quat_def quat_mult_by_vect_def

section \<open>Over the reals\<close>

definition norm2 :: "real quaternion_t \<Rightarrow> real" where
  "norm2 a = (qw a)\<^sup>2 + (qx a)\<^sup>2 + (qy a)\<^sup>2 + (qz a)\<^sup>2"

definition length2 :: "real vector_t \<Rightarrow> real" where
  "length2 v = (vx v)\<^sup>2 + (vy v)\<^sup>2 + (vz v)\<^sup>2"

definition conj :: "real quaternion_t \<Rightarrow> real quaternion_t" where
  "conj a = \<lparr>qw = qw a, qx = - qx a, qy = - qy a, qz = - qz a\<rparr>"

definition pure :: "real vector_t \<Rightarrow> real quaternion_t" where
  "pure v = \<lparr>qw = 0, qx = vx v, qy = vy v, qz = vz v\<rparr>"

lemma norm2_nonneg [simp]: "0 \<le> norm2 a"
  by (simp add: norm2_def)

lemma quat_abs_norm2: "quat_abs sqrt a = sqrt (norm2 a)"
  by (simp add: quat_abs_def norm2_def power2_eq_square)

lemma norm2_mult [simp]: "norm2 (quat_mult a k) = k\<^sup>2 * norm2 a"
  by (simp add: norm2_def quat_mult_def power_mult_distrib algebra_simps)

lemma norm2_conj [simp]: "norm2 (conj a) = norm2 a"
  by (simp add: norm2_def conj_def)

lemma norm2_mult_by_quat [simp]: "norm2 (quat_mult_by_quat a b) = norm2 a * norm2 b"
  by (simp add: norm2_def quat_mult_by_quat_def) algebra

lemma mult_by_quat_assoc:
  "quat_mult_by_quat (quat_mult_by_quat a b) c = quat_mult_by_quat a (quat_mult_by_quat b (c :: real quaternion_t))"
  by (simp add: quat_mult_by_quat_def algebra_simps)

lemma conj_mult_by_quat: "conj (quat_mult_by_quat a b) = quat_mult_by_quat (conj b) (conj a)"
  by (simp add: quat_mult_by_quat_def conj_def algebra_simps)

lemma norm2_normalize: "norm2 a \<noteq> 0 \<Longrightarrow> norm2 (quat_normalize sqrt a) = 1"
  by (simp add: quat_normalize_def quat_abs_norm2 power_inverse)

lemma normalize_unit: "norm2 a = 1 \<Longrightarrow> quat_normalize sqrt a = a"
  by (simp add: quat_normalize_def quat_abs_norm2 quat_mult_def)

lemma invert_unit: "norm2 a = 1 \<Longrightarrow> quat_invert sqrt a = conj a"
  using normalize_unit [of "conj a"] norm2_conj [of a] by (simp add: quat_invert_def conj_def)

lemma normalize_mult:
  "quat_normalize sqrt (quat_mult_by_quat a b) = quat_mult_by_quat (quat_normalize sqrt a) (quat_normalize sqrt b)"
  by (simp add: quat_normalize_def quat_abs_norm2 real_sqrt_mult)
    (simp add: quat_mult_def quat_mult_by_quat_def algebra_simps)

text \<open>The conjugation \<open>n v n\<^sup>*\<close> of a vector is a vector.\<close>

definition sandwich :: "real quaternion_t \<Rightarrow> real vector_t \<Rightarrow> real quaternion_t" where
  "sandwich n v = quat_mult_by_quat (quat_mult_by_quat n (pure v)) (conj n)"

lemma sandwich_pure: "qw (sandwich n v) = 0"
  by (simp add: sandwich_def quat_mult_by_quat_def conj_def pure_def algebra_simps)

lemma vect_rotate_sandwich:
  assumes "norm2 r \<noteq> 0"
  shows "pure (vect_rotate sqrt v r) = sandwich (quat_normalize sqrt r) v"
  using invert_unit [OF norm2_normalize [OF assms]] sandwich_pure [of "quat_normalize sqrt r" v]
  by (simp add: vect_rotate_def Let_def sandwich_def quat_mult_by_vect_def pure_def)

lemma norm2_pure: "norm2 (pure v) = length2 v"
  by (simp add: norm2_def length2_def pure_def)

lemma pure_inject: "pure u = pure v \<Longrightarrow> u = v"
  by (simp add: pure_def)

section \<open>Rotation by an angle around an axis\<close>

text \<open>The vector \<open>v\<close> turned by \<open>\<theta>\<close> around the axis \<open>u\<close>, by the formula of Rodrigues, and the quaternion of length
\<open>\<bar>k\<bar>\<close> that stands for this rotation. Every quaternion but zero is one.\<close>

definition dot :: "real vector_t \<Rightarrow> real vector_t \<Rightarrow> real" where
  "dot u v = vx u * vx v + vy u * vy v + vz u * vz v"

definition turned :: "real vector_t \<Rightarrow> real \<Rightarrow> real vector_t \<Rightarrow> real vector_t" where
  "turned u \<theta> v =
     \<lparr>vx = vx v * cos \<theta> + (vy u * vz v - vz u * vy v) * sin \<theta> + vx u * dot u v * (1 - cos \<theta>),
      vy = vy v * cos \<theta> + (vz u * vx v - vx u * vz v) * sin \<theta> + vy u * dot u v * (1 - cos \<theta>),
      vz = vz v * cos \<theta> + (vx u * vy v - vy u * vx v) * sin \<theta> + vz u * dot u v * (1 - cos \<theta>)\<rparr>"

definition axis_angle :: "real vector_t \<Rightarrow> real \<Rightarrow> real \<Rightarrow> real quaternion_t" where
  "axis_angle u \<theta> k =
     quat_mult \<lparr>qw = cos (\<theta> / 2), qx = sin (\<theta> / 2) * vx u, qy = sin (\<theta> / 2) * vy u, qz = sin (\<theta> / 2) * vz u\<rparr> k"

lemma norm2_axis_angle:
  assumes "length2 u = 1" shows "norm2 (axis_angle u \<theta> k) = k\<^sup>2"
proof -
  have "norm2 (axis_angle u \<theta> k) = k\<^sup>2 * ((cos (\<theta> / 2))\<^sup>2 + (sin (\<theta> / 2))\<^sup>2 * length2 u)"
    by (simp add: axis_angle_def norm2_def length2_def quat_mult_def power_mult_distrib algebra_simps)
  then show ?thesis by (simp add: assms)
qed

lemma axis_angle_every:
  assumes "norm2 a \<noteq> 0" shows "\<exists>u \<theta>. length2 u = 1 \<and> axis_angle u \<theta> (sqrt (norm2 a)) = a"
proof -
  define k where "k = sqrt (norm2 a)"
  have k: "0 < k" "k\<^sup>2 = norm2 a" using assms norm2_nonneg [of a] by (simp_all add: k_def order_less_le)
  define s2 where "s2 = (qx a)\<^sup>2 + (qy a)\<^sup>2 + (qz a)\<^sup>2"
  have s2: "0 \<le> s2" by (simp add: s2_def)
  have "(qw a / k)\<^sup>2 + (sqrt s2 / k)\<^sup>2 = ((qw a)\<^sup>2 + s2) / k\<^sup>2" using s2 by (simp add: power_divide add_divide_distrib)
  also have "(qw a)\<^sup>2 + s2 = k\<^sup>2" by (simp add: k(2) s2_def norm2_def)
  finally have "(qw a / k)\<^sup>2 + (sqrt s2 / k)\<^sup>2 = 1" using k(1) by simp
  then obtain t where t: "qw a / k = cos t" "sqrt s2 / k = sin t" using sincos_total_2pi by metis
  then have w: "cos t * k = qw a" "sin t * k = sqrt s2" using k by (simp_all add: field_simps)
  show ?thesis
  proof (cases "s2 = 0")
    case True
    then have "qx a = 0" "qy a = 0" "qz a = 0" "sin t = 0" using w k by (auto simp: s2_def add_nonneg_eq_0_iff)
    then show ?thesis using w
      by (intro exI [of _ "\<lparr>vx = 1, vy = 0, vz = 0\<rparr>"] exI [of _ "2 * t"])
        (simp add: length2_def axis_angle_def quat_mult_def flip: k_def)
  next
    case False
    let ?u = "\<lparr>vx = qx a / sqrt s2, vy = qy a / sqrt s2, vz = qz a / sqrt s2\<rparr>"
    have "length2 ?u = s2 / s2" using s2 by (simp add: length2_def power_divide s2_def flip: add_divide_distrib)
    moreover have "sin t * (x / sqrt s2) * k = x" for x
    proof -
      have "sin t * (x / sqrt s2) * k = x * (sin t * k) / sqrt s2" by simp
      then show ?thesis using False by (simp only: w(2)) simp
    qed
    then have "axis_angle ?u (2 * t) k = a" by (simp add: axis_angle_def quat_mult_def w(1))
    ultimately show ?thesis using False by (auto simp flip: k_def)
  qed
qed

lemma turned_half:
  fixes \<theta> :: real
  defines "c \<equiv> cos (\<theta> / 2)" and "s \<equiv> sin (\<theta> / 2)"
  shows "cos \<theta> = c * c - s * s" "sin \<theta> = 2 * (s * c)" "1 - cos \<theta> = 2 * (s * s)"
proof -
  show "cos \<theta> = c * c - s * s" "sin \<theta> = 2 * (s * c)"
    using cos_add [of "\<theta> / 2" "\<theta> / 2"] sin_add [of "\<theta> / 2" "\<theta> / 2"] by (simp_all add: c_def s_def mult.commute)
  moreover have "c * c + s * s = 1" using sin_cos_squared_add3 [of "\<theta> / 2"] by (simp add: c_def s_def)
  ultimately show "1 - cos \<theta> = 2 * (s * s)" by simp
qed

lemma sandwich_turned:
  assumes "length2 u = 1" "k * k = 1"
  shows "sandwich (axis_angle u \<theta> k) v = pure (turned u \<theta> v)"
proof -
  define c s where "c = cos (\<theta> / 2)" and "s = sin (\<theta> / 2)"
  have h: "cos \<theta> = c * c - s * s" "sin \<theta> = 2 * (s * c)" "1 - cos \<theta> = 2 * (s * s)"
    unfolding c_def s_def by (rule turned_half)+
  then have g: "1 - (c * c - s * s) = 2 * (s * s)" by simp
  have u: "vx u * vx u + vy u * vy u + vz u * vz u = 1" using assms(1) by (simp add: length2_def power2_eq_square)
  show ?thesis
    unfolding sandwich_def axis_angle_def turned_def pure_def conj_def quat_mult_def quat_mult_by_quat_def dot_def h(1,2)
      c_def [symmetric] s_def [symmetric] unfolding g
    by (rule quaternion_t.equality; simp only: quaternion_t.simps vector_t.simps;
        (use u assms(2) in algebra | simp add: algebra_simps))
qed

lemma vect_rotate_turned:
  assumes "length2 u = 1" "k \<noteq> 0"
  shows "vect_rotate sqrt v (axis_angle u \<theta> k) = turned u \<theta> v"
proof -
  have n: "norm2 (axis_angle u \<theta> k) = k\<^sup>2" by (rule norm2_axis_angle [OF assms(1)])
  have "quat_normalize sqrt (axis_angle u \<theta> k) = quat_mult (axis_angle u \<theta> k) (inverse \<bar>k\<bar>)"
    by (simp add: quat_normalize_def quat_abs_norm2 n)
  also have "\<dots> = axis_angle u \<theta> (sgn k)"
    using assms(2) by (simp add: axis_angle_def quat_mult_def sgn_if)
  finally have "pure (vect_rotate sqrt v (axis_angle u \<theta> k)) = pure (turned u \<theta> v)"
    using assms by (simp add: vect_rotate_sandwich n sandwich_turned sgn_if)
  then show ?thesis by (rule pure_inject)
qed

text \<open>C36. Over the real numbers (the code computes in \<^verbatim>\<open>double\<close>: its roundings are not bounded here),
\<open>vect_rotate\<close> with the quaternion of any length that stands for the angle \<open>\<theta>\<close> and the axis \<open>u\<close> turns a
vector by \<open>\<theta>\<close> around \<open>u\<close>, and rotating by a product is rotating by its second factor and then by the
first.\<close>

theorem vect_rotate_rotation:
  assumes "length2 u = 1" "k \<noteq> 0" "norm2 a \<noteq> 0" "norm2 b \<noteq> 0"
  shows "vect_rotate sqrt v (axis_angle u \<theta> k) = turned u \<theta> v \<and>
    vect_rotate sqrt v (quat_mult_by_quat a b) = vect_rotate sqrt (vect_rotate sqrt v b) a"
proof
  show "vect_rotate sqrt v (axis_angle u \<theta> k) = turned u \<theta> v" by (rule vect_rotate_turned [OF assms(1,2)])
  have ab: "norm2 (quat_mult_by_quat a b) \<noteq> 0" using assms by simp
  have "pure (vect_rotate sqrt v (quat_mult_by_quat a b)) = pure (vect_rotate sqrt (vect_rotate sqrt v b) a)"
    unfolding vect_rotate_sandwich [OF ab] vect_rotate_sandwich [OF assms(3)] normalize_mult
    by (simp add: sandwich_def conj_mult_by_quat mult_by_quat_assoc vect_rotate_sandwich [OF assms(4)])
  then show "vect_rotate sqrt v (quat_mult_by_quat a b) = vect_rotate sqrt (vect_rotate sqrt v b) a"
    by (rule pure_inject)
qed

text \<open>The witness: a quarter turn around the vertical axis.\<close>

lemma vect_rotate_rotation_witness:
  "vect_rotate sqrt \<lparr>vx = 1, vy = 0, vz = 5\<rparr> (axis_angle \<lparr>vx = 0, vy = 0, vz = 1\<rparr> (pi / 2) 3) = \<lparr>vx = 0, vy = 1, vz = 5\<rparr>"
  using vect_rotate_rotation [of "\<lparr>vx = 0, vy = 0, vz = 1\<rparr>" 3 "\<lparr>qw = 1, qx = 1, qy = 0, qz = 0\<rparr>"
      "\<lparr>qw = 1, qx = 0, qy = 0, qz = 0\<rparr>" "\<lparr>vx = 1, vy = 0, vz = 5\<rparr>" "pi / 2"]
  by (simp add: length2_def norm2_def turned_def dot_def)

end
