(* ===== verification/Mavlink_Test.thy ===== *)
theory Mavlink_Test
  imports Madgwick_Thread Telemetry
begin

text \<open>
  The test application \<^verbatim>\<open>granum/mavlink_test\<close>, the stage before the flight program: a thread that runs
  the attitude filter every 90 ms (the filter's copy is compiled for 50 Hz) and sends every update, and a
  main loop that sends pressure and GPS fixes. Its copy of \<open>_parseGPS\<close> is that of \<open>Gps_Line\<close>. The
  lemmas are its defects: the file name does not fit its buffer, and the filter never sees the rate
  around the second axis.
\<close>

section \<open>Start\<close>

text \<open>\<open>char filename[16]\<close>, and what \<open>snprintf(filename, 22, ...)\<close> writes there, the NUL included.\<close>

definition mt_filename_size :: nat where "mt_filename_size = 16"

definition mt_filename :: "nat \<Rightarrow> string" where
  "mt_filename i = snprintf 22 (''/mnt/sd0/GRANUM'' @ nat_digits i @ ''.bin'')"

datatype mt_select = MtSelected string int | MtNone | MtTooMany

text \<open>\<open>for (int i = 0; i < 100; i++)\<close>, with \<open>n\<close> turns left.\<close>

fun mt_select_file :: "(string \<Rightarrow> stat_ret) \<Rightarrow> (string \<Rightarrow> int) \<Rightarrow> nat \<Rightarrow> nat \<Rightarrow> mt_select" where
  "mt_select_file stat open_file i 0 = MtNone"
| "mt_select_file stat open_file i (Suc n) =
     (let filename = mt_filename i in
      if stat filename = StatErr True then MtSelected filename (open_file filename)
      else if i = 99 then MtTooMany
      else mt_select_file stat open_file (i + 1) n)"

datatype mt_start = MtExit string | MtRunning int int int int int

text \<open>The descriptors in the order they are opened; the thread's \<open>struct fds\<close> has no initialiser for
\<open>lsm\<close>, so it is 0, the standard input.\<close>

definition mt_lsm_fd :: int where "mt_lsm_fd = 0"

definition mavlink_test_start :: "(string \<Rightarrow> stat_ret) \<Rightarrow> (string \<Rightarrow> int) \<Rightarrow> mt_start" where
  "mavlink_test_start stat open_file =
     (let mpu_fd = open_file ''/dev/mpu0'' in
      if mpu_fd < 0 then MtExit ''Can't open /dev/mpu0''
      else let nrf_fd = open_file ''/dev/nrf24l01'' in
      if nrf_fd < 0 then MtExit ''Can't open /dev/nrf24l01''
      else case mt_select_file stat open_file 0 100 of
          MtTooMany \<Rightarrow> MtExit ''There are 99 telemetry files already''
        | MtNone \<Rightarrow> MtExit ''Can't open telemetry file''
        | MtSelected filename file_fd \<Rightarrow>
            if file_fd < 0 then MtExit ''Can't open telemetry file''
            else let baro_fd = open_file ''/dev/baro0'' in
              if baro_fd < 0 then MtExit ''Can't open /dev/baro0''
              else let gps_fd = open_file ''/dev/ttyS1'' in
                if gps_fd < 0 then MtExit ''Can't open /dev/ttyS1''
                else MtRunning mpu_fd nrf_fd file_fd baro_fd gps_fd)"

section \<open>The thread\<close>

text \<open>The calibration is the same text as that of \<open>madgwick_thread\<close>, and the filter's initial state too.\<close>

definition mt_thread_start ::
  "mpu_record rd list \<Rightarrow> mpu_record rd list \<Rightarrow> mpu_record \<Rightarrow> f32 vec \<Rightarrow> ahrs_thread" where
  "mt_thread_start = thread_start"

text \<open>The call of the filter takes \<open>gyro.x\<close> for two axes.\<close>

definition mt_update :: "(f64 \<Rightarrow> f64) \<Rightarrow> ahrs_thread \<Rightarrow> ahrs_thread" where
  "mt_update sqrt s =
     (case (mpu_gyro (record_mpu s), gyro_err s) of ((gx, gy, gz), (ex, ey, ez)) \<Rightarrow>
       let f = f32_of_f64 in
       s\<lparr>quat := MadgwickAHRSupdate_50 sqrt (ahrs_beta s)
           (f (DTORAD (gx - ex)), f (DTORAD (gx - ey)), f (DTORAD (gz - ez)))
           (mpu_acc (record_mpu s)) (record_lsm s) (quat s),
         ahrs_beta := f32_of_f64 (f64_lit 66 1000)\<rparr>)"

definition mt_imu_message :: "ahrs_thread \<Rightarrow> imu_msg option" where
  "mt_imu_message s =
     (case (mpu_gyro (record_mpu s), gyro_err s, mpu_acc (record_mpu s), record_lsm s) of
        ((gx, gy, gz), (ex, ey, ez), (ax, ay, az), (mx, my, mz)) \<Rightarrow>
       let k = f32_lit 1000 1; kd = f64_of_f32 k; ten = f32_lit 10 1 in
       do {
         a \<leftarrow> to_int_vec (of_f32 (ax * k), of_f32 (ay * k), of_f32 (az * k));
         g \<leftarrow> to_int_vec (of_f64 (DTORAD (gx - ex) * kd), of_f64 (DTORAD (gy - ex) * kd), of_f64 (DTORAD (gz - ex) * kd));
         m \<leftarrow> to_int_vec (of_f32 (mx / ten), of_f32 (my / ten), of_f32 (mz / ten));
         Some \<lparr>imu_time_boot_ms = (mpu_sec (record_mpu s) * 1000 + mpu_nsec (record_mpu s) div 1000000) mod 2 ^ 32,
               imu_acc = int16_vec a, imu_gyro = int16_vec g, imu_mag = int16_vec m\<rparr>
       })"

definition mt_round :: "(f64 \<Rightarrow> f64) \<Rightarrow> mpu_record rd \<times> f32 vec rd \<Rightarrow> ahrs_thread \<Rightarrow> ahrs_thread option" where
  "mt_round sqrt = (\<lambda>(mpu, lsm) s.
     let s1 = s\<lparr>record_mpu := stored mpu (record_mpu s)\<rparr> in
     if mpu = RdErr then Some s1
     else
       let s2 = s1\<lparr>record_lsm := stored lsm (record_lsm s1)\<rparr> in
       if lsm = RdErr then Some s2
       else
         let s3 = mt_update sqrt s2 in
         map_option (\<lambda>m. s3\<lparr>sent := sent s3 @ [MsgImu m, MsgQuaternion (quat s3)]\<rparr>) (mt_imu_message s3))"

section \<open>The main loop\<close>

record mt_main =
  mt_baro :: "fnum \<times> fnum"
  mt_gps :: gps_buf
  mt_gps_time :: timespec
  mt_trace :: "event list"

definition mt_emit :: "event \<Rightarrow> mt_main \<Rightarrow> mt_main" where
  "mt_emit e s = s\<lparr>mt_trace := mt_trace s @ [e]\<rparr>"

definition mt_pressure :: "env \<Rightarrow> mt_main \<Rightarrow> mt_main option" where
  "mt_pressure i s =
     (let s1 = (case in_baro i of None \<Rightarrow> s | Some b \<Rightarrow> s\<lparr>mt_baro := b\<rparr>) in
      map_option (\<lambda>t. mt_emit (Telem (MsgPressure ((in_sec i * 1000 + in_nsec i div 1000000) mod 2 ^ 32)
          (fconv binary32 (ddiv (fst (mt_baro s1)) (dlit 100 1))) t)) s1)
        (to_int16 (dmul (snd (mt_baro s1)) (dlit 100 1))))"

text \<open>The copy of \<open>_parseGPS\<close>, over a buffer of the same size.\<close>

definition mt_parseGPS :: "gps_buf \<Rightarrow> char option list \<Rightarrow> (bool \<times> gps_buf \<times> char option list) option" where
  "mt_parseGPS = parseGPS"

text \<open>The flag tells whether the turn reaches the end of the loop body; \<open>continue\<close> skips the sleep.\<close>

definition mt_fix :: "libc \<Rightarrow> env \<Rightarrow> mt_main \<Rightarrow> (bool \<times> mt_main) option" where
  "mt_fix L i s =
     (case mt_parseGPS (mt_gps s) (in_gps i) of None \<Rightarrow> None | Some (ok, b, _) \<Rightarrow>
      let s1 = s\<lparr>mt_gps := b\<rparr>;
          line = c_string (msg_buffer b)
      in if \<not> ok then Some (True, s1)
         else if \<not> minmea_check line False then Some (False, s1)
         else case minmea_parse_gga line of
             Undefined \<Rightarrow> None
           | ParseError \<Rightarrow> Some (False, s1)
           | Parsed frame \<Rightarrow>
               if gga_fix_quality frame = 0 then Some (False, s1)
               else case minmea_gettime (lib_mktime L) gps_basedate (gga_time frame) of
                   Undefined \<Rightarrow> None
                 | r \<Rightarrow>
                     let s2 = (case r of Parsed ts \<Rightarrow> s1\<lparr>mt_gps_time := ts\<rparr> | _ \<Rightarrow> s1) in
                     map_option (\<lambda>m. (True, mt_emit (Telem (MsgGps m)) s2)) (fix_message frame (mt_gps_time s2)))"

definition mt_turn :: "libc \<Rightarrow> env \<Rightarrow> mt_main \<Rightarrow> mt_main option" where
  "mt_turn L i s =
     map_option (\<lambda>(sleep, s'). if sleep then mt_emit (Usleep 100000) s' else s') (Option.bind (mt_pressure i s) (mt_fix L i))"

fun mt_run :: "libc \<Rightarrow> env list \<Rightarrow> mt_main \<Rightarrow> mt_main option" where
  "mt_run L [] s = Some s"
| "mt_run L (i # is) s = Option.bind (mt_turn L i s) (mt_run L is)"

section \<open>Defects\<close>

text \<open>Every file name overruns the array it is written to.\<close>

lemma nat_digits_nonempty: "nat_digits i \<noteq> []"
  by (subst nat_digits.simps) simp

theorem mt_filename_overruns: "mt_filename_size < length (mt_filename i) + 1"
proof -
  have "1 \<le> length (nat_digits i)" using nat_digits_nonempty [of i] by (cases "nat_digits i") auto
  then show ?thesis by (simp add: mt_filename_def mt_filename_size_def snprintf_def)
qed

text \<open>The attitude does not depend on the rotation around the second axis.\<close>

lemma mt_update_ignores_y:
  "quat (mt_update sqrt (s\<lparr>record_mpu := (record_mpu s)\<lparr>mpu_gyro := (gx, gy, gz)\<rparr>\<rparr>))
   = quat (mt_update sqrt (s\<lparr>record_mpu := (record_mpu s)\<lparr>mpu_gyro := (gx, gy', gz)\<rparr>\<rparr>))"
  by (simp add: mt_update_def Let_def split: prod.split)

text \<open>Every turn sends the pressure; a turn that rejects a complete line does not sleep.\<close>

lemma mt_fix_trace:
  assumes "mt_fix L i s = Some (b, s')"
  shows "mt_trace s' = mt_trace s \<or> (b \<and> (\<exists>m. mt_trace s' = mt_trace s @ [Telem (MsgGps m)]))"
  using assms
  by (auto simp: mt_fix_def mt_emit_def Let_def split: prod.splits if_splits parse.splits option.splits)

lemma mt_turn_trace:
  assumes "mt_turn L i s = Some s'"
  shows "\<exists>p es. mt_trace s' = mt_trace s @ Telem p # es
     \<and> (es = [] \<or> es = [Usleep 100000] \<or> (\<exists>m. es = [Telem (MsgGps m), Usleep 100000]))"
proof -
  obtain s0 b s1 where s0: "mt_pressure i s = Some s0" and f: "mt_fix L i s0 = Some (b, s1)"
    and s': "s' = (if b then mt_emit (Usleep 100000) s1 else s1)"
    using assms by (auto simp: mt_turn_def bind_eq_Some_conv)
  obtain p where p: "mt_trace s0 = mt_trace s @ [Telem p]"
    using s0 by (auto simp: mt_pressure_def mt_emit_def Let_def split: option.splits)
  from mt_fix_trace [OF f] show ?thesis by (auto simp: p s' mt_emit_def)
qed

end
