(* ===== verification/Startup.thy ===== *)
theory Startup
  imports Telemetry Mavlink_Test
begin

text \<open>
  What the flight program and the \<^verbatim>\<open>mavlink_test\<close> application do between opening the telemetry file and
  their loops, as the list of calls they make: the radio's configuration, the devices, the serial line,
  the start of the attitude thread. The drivers behind the calls are not in the repository; their
  constants are kept by name.
\<close>

section \<open>Calls\<close>

record pipecfg =
  en_aa :: bool
  payload_length :: string
  rx_addr :: "u8 list"

datatype setup_call =
    SetRadioFreq int nat
  | GetRadioFreq int
  | SetAddrWidth int nat
  | SetTxAddr int "u8 list"
  | SetTxPower int nat
  | SetRetrCfg int string nat
  | SetPipesCfg int "pipecfg option list"
  | SetPipesEnabled int u8
  | SetDataRate int string
  | SetCrcMode int string
  | SetState int string
  | MpuSetConvert int bool
  | MpuSetFilter int nat
  | MpuSetDivider int nat
  | LumenSetup int
  | GetSerial int
  | SetSerial int "string set"
  | Perror string
  | CreateThread string int

definition pipe0 :: pipecfg where
  "pipe0 = \<lparr>en_aa = True, payload_length = ''NRF24L01_DYN_LENGTH'', rx_addr = [0xAA, 0xAA, 0xAA, 0xAA, 0xAA]\<rparr>"

text \<open>\<open>(CS8 | CREAD) & ~CSTOPB & ~PARENB & ~CRTSCTS\<close>, the flags being distinct bits.\<close>

definition gps_cflag :: "string set" where
  "gps_cflag = {''CS8'', ''CREAD''} - {''CSTOPB''} - {''PARENB''} - {''CRTSCTS''}"

section \<open>The flight program\<close>

definition granum_radio :: "int \<Rightarrow> setup_call list" where
  "granum_radio nrf_fd =
     [SetRadioFreq nrf_fd 2489, SetAddrWidth nrf_fd 5, SetTxAddr nrf_fd [0xBB, 0xBB, 0xBB, 0xBB, 0xBB],
      SetTxPower nrf_fd 0, SetRetrCfg nrf_fd ''DELAY_250us'' 4,
      SetPipesCfg nrf_fd [Some pipe0, None, None, None, None, None],
      SetPipesEnabled nrf_fd 0x01, SetDataRate nrf_fd ''RATE_1Mbps'', SetCrcMode nrf_fd ''CRC_2BYTE'',
      SetState nrf_fd ''ST_STANDBY'']"

text \<open>A device that does not open is reported, and the program goes on with the negative descriptor.\<close>

definition open_or_complain :: "(string \<Rightarrow> int) \<Rightarrow> string \<Rightarrow> string \<Rightarrow> int \<times> setup_call list" where
  "open_or_complain open_file path message =
     (let fd = open_file path in (fd, if fd < 0 then [Perror message] else []))"

record devices =
  dev_baro :: int
  dev_gps :: int
  dev_sonar :: int
  dev_lumen :: int

definition granum_devices :: "(string \<Rightarrow> int) \<Rightarrow> devices \<times> setup_call list" where
  "granum_devices open_file =
     (let (baro_fd, c1) = open_or_complain open_file ''/dev/baro0'' ''Can't open /dev/baro0'';
          (gps_fd, c2) = open_or_complain open_file ''/dev/ttyS2'' ''Can't open /dev/ttyS2'';
          (sonar_fd, c3) = open_or_complain open_file ''/dev/sonar0'' ''cant open sonar device'';
          (tsl_fd, c4) = open_or_complain open_file ''/dev/lumen0'' ''cant open lumen device''
      in (\<lparr>dev_baro = baro_fd, dev_gps = gps_fd, dev_sonar = sonar_fd, dev_lumen = tsl_fd\<rparr>,
          c1 @ c2 @ c3 @ c4 @ [LumenSetup tsl_fd, GetSerial gps_fd, SetSerial gps_fd gps_cflag]))"

text \<open>From the file on; the thread's priority is one below the default.\<close>

definition granum_setup :: "(string \<Rightarrow> int) \<Rightarrow> int \<Rightarrow> devices \<times> setup_call list" where
  "granum_setup open_file nrf_fd =
     (case granum_devices open_file of (d, cs) \<Rightarrow>
       (d, granum_radio nrf_fd @ CreateThread ''madgwick_thread'' (-1) # cs))"

text \<open>The head of the attitude thread.\<close>

definition madgwick_open :: "(string \<Rightarrow> int) \<Rightarrow> (int \<times> int) \<times> setup_call list" where
  "madgwick_open open_file =
     (let (mpu_fd, c1) = open_or_complain open_file ''/dev/mpu0'' ''Can't open /dev/mpu0'';
          (mag_fd, c2) = open_or_complain open_file ''/dev/mag0'' ''cant open magnitometer device''
      in ((mpu_fd, mag_fd),
          c1 @ c2 @ [MpuSetConvert mpu_fd True, MpuSetFilter mpu_fd 6, MpuSetDivider mpu_fd 9]))"

section \<open>The test application\<close>

definition mt_radio :: "int \<Rightarrow> setup_call list" where
  "mt_radio nrf_fd =
     [SetRadioFreq nrf_fd 2489, SetAddrWidth nrf_fd 5, SetTxAddr nrf_fd [0xBB, 0xBB, 0xBB, 0xBB, 0xBB],
      SetTxPower nrf_fd 0, SetRetrCfg nrf_fd ''DELAY_250us'' 4,
      SetPipesCfg nrf_fd (map Some [pipe0, pipe0, pipe0, pipe0, pipe0, pipe0]),
      SetPipesEnabled nrf_fd 0x01, SetDataRate nrf_fd ''RATE_1Mbps'', SetCrcMode nrf_fd ''CRC_2BYTE'',
      SetState nrf_fd ''ST_STANDBY'']"

definition mt_configure :: "int \<Rightarrow> int \<Rightarrow> int \<Rightarrow> setup_call list" where
  "mt_configure mpu_fd gps_fd nrf_fd =
     [MpuSetConvert mpu_fd True, MpuSetFilter mpu_fd 6, MpuSetDivider mpu_fd 9, GetSerial gps_fd, SetSerial gps_fd gps_cflag]
     @ mt_radio nrf_fd"

definition mt_setup :: "int \<Rightarrow> int \<Rightarrow> int \<Rightarrow> setup_call list" where
  "mt_setup mpu_fd gps_fd nrf_fd = mt_configure mpu_fd gps_fd nrf_fd @ [CreateThread ''mpu_thread'' 0]"

section \<open>What they have in common\<close>

text \<open>The part of a configuration that concerns what is sent and what the enabled pipes receive: the
addresses of pipes that are not enabled do not count.\<close>

fun enabled_pipes :: "u8 \<Rightarrow> nat \<Rightarrow> pipecfg option list \<Rightarrow> pipecfg option list" where
  "enabled_pipes en k [] = []"
| "enabled_pipes en k (p # ps) = (if bit en k then p else None) # enabled_pipes en (k + 1) ps"

fun effective :: "u8 \<Rightarrow> setup_call \<Rightarrow> setup_call" where
  "effective en (SetPipesCfg fd ps) = SetPipesCfg fd (enabled_pipes en 0 ps)"
| "effective en c = c"

text \<open>Both programs configure the radio alike, and in the same order: the pipes that only the test sets
are not enabled.\<close>

lemma radio_alike: "map (effective 0x01) (granum_radio fd) = map (effective 0x01) (mt_radio fd)"
  by (simp add: granum_radio_def mt_radio_def bit_numeral_rec bit_1_iff)

text \<open>The flight program starts whatever fails to open, one complaint for each device: it runs without
a barometer, and passes the negative descriptors on.\<close>

fun complaints :: "setup_call list \<Rightarrow> nat" where
  "complaints [] = 0"
| "complaints (Perror m # cs) = Suc (complaints cs)"
| "complaints (c # cs) = complaints cs"

lemma complaints_append [simp]: "complaints (cs @ ds) = complaints cs + complaints ds"
  by (induction cs rule: complaints.induct) simp_all

lemma setup_complains:
  "complaints (snd (granum_setup open_file nrf_fd)) =
     length (filter (\<lambda>path. open_file path < 0) [''/dev/baro0'', ''/dev/ttyS2'', ''/dev/sonar0'', ''/dev/lumen0''])"
  by (simp add: granum_setup_def granum_devices_def open_or_complain_def granum_radio_def Let_def)

end
