(* ===== verification/Spi_Bus.thy ===== *)
theory Spi_Bus
  imports Cansat_Prelude
begin

text \<open>
  The STM32 HAL as the board code uses it: a parameter, a record of functions over the world \<open>'w\<close>
  behind the pins, with a trace of the calls made. \<open>one_device\<close> watches a trace: at most one chip
  select is asserted, bytes are transferred only while one is, and peripherals are configured and
  I2C is used only while none is. The locale \<open>spi_transaction\<close> is the contract of a driver
  function: it selects its device, transfers, and deselects it on every path. Every function that
  keeps it keeps the watch, in any order of calls.
\<close>

section \<open>The HAL\<close>

datatype periph = SPI1 | SPI2 | SPI3 | I2C1 | I2C2 | I2C3

datatype gpio_port = GPIOA | GPIOB | GPIOC | GPIOD | GPIOH

type_synonym pin = "gpio_port \<times> u16"

record 'w hal =
  hal_tx :: "u32 \<Rightarrow> u8 list \<Rightarrow> 'w \<Rightarrow> int \<times> 'w"
  hal_rx :: "u32 \<Rightarrow> nat \<Rightarrow> 'w \<Rightarrow> int \<times> u8 list \<times> 'w"
  hal_pin :: "pin \<Rightarrow> bool \<Rightarrow> 'w \<Rightarrow> 'w"
  hal_mem_read :: "u32 \<Rightarrow> u8 \<Rightarrow> u8 \<Rightarrow> nat \<Rightarrow> 'w \<Rightarrow> int \<times> u8 list \<times> 'w"
  hal_mem_write :: "u32 \<Rightarrow> u8 \<Rightarrow> u8 \<Rightarrow> u8 list \<Rightarrow> 'w \<Rightarrow> int \<times> 'w"
  hal_init :: "periph \<Rightarrow> u32 \<Rightarrow> 'w \<Rightarrow> int \<times> 'w"
  hal_deinit :: "periph \<Rightarrow> 'w \<Rightarrow> 'w"

datatype bus_event =
    CsLow pin
  | CsHigh pin
  | Tx "u8 list"
  | Rx nat
  | MemRead u8 u8 nat
  | MemWrite u8 u8 "u8 list"
  | Init periph u32
  | DeInit periph

type_synonym 'w bus_state = "'w \<times> bus_event list"

definition select :: "'w hal \<Rightarrow> pin \<Rightarrow> 'w bus_state \<Rightarrow> 'w bus_state" where
  "select H p = (\<lambda>(w, t). (hal_pin H p False w, t @ [CsLow p]))"

definition deselect :: "'w hal \<Rightarrow> pin \<Rightarrow> 'w bus_state \<Rightarrow> 'w bus_state" where
  "deselect H p = (\<lambda>(w, t). (hal_pin H p True w, t @ [CsHigh p]))"

definition HAL_SPI_Transmit :: "'w hal \<Rightarrow> u32 \<Rightarrow> u8 list \<Rightarrow> 'w bus_state \<Rightarrow> int \<times> 'w bus_state" where
  "HAL_SPI_Transmit H timeout bs = (\<lambda>(w, t). case hal_tx H timeout bs w of (r, w') \<Rightarrow> (r, w', t @ [Tx bs]))"

definition HAL_SPI_Receive :: "'w hal \<Rightarrow> u32 \<Rightarrow> nat \<Rightarrow> 'w bus_state \<Rightarrow> int \<times> u8 list \<times> 'w bus_state" where
  "HAL_SPI_Receive H timeout n = (\<lambda>(w, t). case hal_rx H timeout n w of (r, bs, w') \<Rightarrow> (r, bs, w', t @ [Rx n]))"

lemma transmit_trace: "\<exists>r w. HAL_SPI_Transmit H timeout bs s = (r, w, snd s @ [Tx bs])"
  by (cases s) (auto simp: HAL_SPI_Transmit_def split: prod.split)

lemma receive_trace: "\<exists>r bs w. HAL_SPI_Receive H timeout n s = (r, bs, w, snd s @ [Rx n])"
  by (cases s) (auto simp: HAL_SPI_Receive_def split: prod.split)

definition HAL_MAX_DELAY :: u32 where "HAL_MAX_DELAY = 0xFFFFFFFF"

section \<open>The watch over a trace\<close>

fun watch :: "pin option \<Rightarrow> bus_event \<Rightarrow> pin option option" where
  "watch None (CsLow p) = Some (Some p)"
| "watch None (CsHigh p) = Some None"
| "watch None (MemRead a r n) = Some None"
| "watch None (MemWrite a r bs) = Some None"
| "watch None (Init i v) = Some None"
| "watch None (DeInit i) = Some None"
| "watch (Some p) (CsHigh q) = (if p = q then Some None else None)"
| "watch (Some p) (Tx bs) = Some (Some p)"
| "watch (Some p) (Rx n) = Some (Some p)"
| "watch _ _ = None"

fun one_device :: "pin option \<Rightarrow> bus_event list \<Rightarrow> pin option option" where
  "one_device sel [] = Some sel"
| "one_device sel (e # es) = Option.bind (watch sel e) (\<lambda>sel'. one_device sel' es)"

lemma one_device_append: "one_device sel (es @ fs) = Option.bind (one_device sel es) (\<lambda>s. one_device s fs)"
  by (induction es arbitrary: sel) simp_all

definition is_transfer :: "bus_event \<Rightarrow> bool" where
  "is_transfer e \<longleftrightarrow> (case e of Tx _ \<Rightarrow> True | Rx _ \<Rightarrow> True | _ \<Rightarrow> False)"

lemma is_transfer_simps [simp]: "is_transfer (Tx bs)" "is_transfer (Rx n)"
  by (simp_all add: is_transfer_def)

lemma one_device_transfers: "list_all is_transfer es \<Longrightarrow> one_device (Some p) es = Some (Some p)"
  by (induction es) (auto simp: is_transfer_def split: bus_event.splits)

section \<open>The contract of a driver function\<close>

definition bracketed :: "pin \<Rightarrow> bus_event list \<Rightarrow> bool" where
  "bracketed p es \<longleftrightarrow> (\<exists>ts. es = CsLow p # ts @ [CsHigh p] \<and> list_all is_transfer ts)"

lemma one_device_bracketed: "bracketed p es \<Longrightarrow> one_device None es = Some None"
  by (auto simp: bracketed_def one_device_append one_device_transfers)

locale spi_transaction =
  fixes p :: pin and op :: "'w bus_state \<Rightarrow> 'a \<times> 'w bus_state"
  assumes brackets: "\<exists>es. snd (snd (op s)) = snd s @ es \<and> bracketed p es"
begin

lemma keeps_watch: "one_device sel (snd s) = Some None \<Longrightarrow> one_device sel (snd (snd (op s))) = Some None"
  using brackets [of s] by (auto simp: one_device_append one_device_bracketed)

lemma transfers: "\<exists>ts. snd (snd (op s)) = snd s @ CsLow p # ts @ [CsHigh p] \<and> list_all is_transfer ts"
  using brackets [of s] by (auto simp: bracketed_def)

end

text \<open>Calls in any order.\<close>

definition keeps_watch :: "('w bus_state \<Rightarrow> 'a \<times> 'w bus_state) \<Rightarrow> bool" where
  "keeps_watch op \<longleftrightarrow> (\<forall>s. one_device None (snd s) = Some None \<longrightarrow> one_device None (snd (snd (op s))) = Some None)"

lemma fold_keeps_watch:
  "list_all (\<lambda>c. keeps_watch (f c)) cs \<Longrightarrow> one_device None (snd s) = Some None \<Longrightarrow>
     one_device None (snd (fold (\<lambda>c s. snd (f c s)) cs s)) = Some None"
proof (induction cs arbitrary: s)
  case (Cons c cs)
  then have "one_device None (snd (snd (f c s))) = Some None" by (cases s) (auto simp: keeps_watch_def)
  with Cons show ?case by simp
qed simp

text \<open>A HAL on which every call succeeds, for examples.\<close>

definition demo_hal :: "unit hal" where
  "demo_hal = \<lparr>hal_tx = (\<lambda>_ _ w. (0, w)), hal_rx = (\<lambda>_ n w. (0, replicate n 0, w)), hal_pin = (\<lambda>_ _ w. w),
     hal_mem_read = (\<lambda>_ _ _ n w. (0, replicate n 0, w)), hal_mem_write = (\<lambda>_ _ _ _ w. (0, w)),
     hal_init = (\<lambda>_ _ w. (0, w)), hal_deinit = (\<lambda>_ w. w)\<rparr>"

end
