(* ===== verification/Devctl.thy ===== *)
theory Devctl
  imports Spi_Bus
begin

text \<open>
  The device layer of \<^verbatim>\<open>research/omnubus-reborn/system-usr\<close>: the interfaces of
  \<^verbatim>\<open>granum_common.h\<close>/\<^verbatim>\<open>granum_common.c\<close> with the pins they configure, and the register access and
  parameter setting of \<^verbatim>\<open>devctl.c\<close>. The mutex is FreeRTOS's: \<open>xSemaphoreTake\<close> with a timeout of
  zero takes it if it is free and returns at once otherwise; the code does not look at the result.

  The lemmas show what holds (a register access brackets its transfers with the chip select on
  every path) and what does not: parameters never change, the mutex excludes nobody, and the
  chip select is configured as the clock output.
\<close>

section \<open>Interfaces\<close>

datatype gr_speed = GR_IF_PARAM_SPEED_SLOW | GR_IF_PARAM_SPEED_FAST | SPEED_OTHER nat
datatype gr_if_type = GR_IF_TYPE_I2C | GR_IF_TYPE_SPI | GR_IF_TYPE_STREAM | TYPE_OTHER nat

record gr_params =
  speed :: gr_speed
  timeout :: u32

text \<open>The descriptor of an interface is its HAL handle: the instance and the setting of its
  initialisation that the code changes (the I2C clock or the SPI prescaler).\<close>

record gr_interface =
  if_type :: gr_if_type
  instance_of :: periph
  if_setting :: u32
  inited :: bool
  params :: gr_params
  mutex_free :: bool

text \<open>The selector is a union; each access reads the member of the interface's type.\<close>

record gr_selector =
  sel_pin :: pin
  sel_address :: u8

definition GR_ERROR_OK :: int where "GR_ERROR_OK = 0"
definition GR_ERROR_WRONGARG :: int where "GR_ERROR_WRONGARG = 1"

definition SPI_BAUDRATEPRESCALER_4 :: u32 where "SPI_BAUDRATEPRESCALER_4 = 0x08"
definition SPI_BAUDRATEPRESCALER_128 :: u32 where "SPI_BAUDRATEPRESCALER_128 = 0x30"

definition slow_params :: gr_params where "slow_params = \<lparr>speed = GR_IF_PARAM_SPEED_SLOW, timeout = 1000\<rparr>"

definition i2c_interface :: "periph \<Rightarrow> gr_interface" where
  "i2c_interface i = \<lparr>if_type = GR_IF_TYPE_I2C, instance_of = i, if_setting = 100000, inited = False,
     params = slow_params, mutex_free = True\<rparr>"

definition spi_interface :: "periph \<Rightarrow> gr_interface" where
  "spi_interface i = \<lparr>if_type = GR_IF_TYPE_SPI, instance_of = i, if_setting = SPI_BAUDRATEPRESCALER_128,
     inited = False, params = slow_params, mutex_free = True\<rparr>"

definition GR_IF_I2C_1 :: gr_interface where "GR_IF_I2C_1 = i2c_interface I2C1"
definition GR_IF_I2C_2 :: gr_interface where "GR_IF_I2C_2 = i2c_interface I2C2"
definition GR_IF_I2C_3 :: gr_interface where "GR_IF_I2C_3 = i2c_interface I2C3"
definition GR_IF_SPI1 :: gr_interface where "GR_IF_SPI1 = spi_interface SPI1"
definition GR_IF_SPI2 :: gr_interface where "GR_IF_SPI2 = spi_interface SPI2"
definition GR_IF_SPI3 :: gr_interface where "GR_IF_SPI3 = spi_interface SPI3"

section \<open>Changing parameters\<close>

definition i2c_speed :: "gr_speed \<Rightarrow> periph \<Rightarrow> u32 option" where
  "i2c_speed sp inst =
     (case sp of
        GR_IF_PARAM_SPEED_SLOW \<Rightarrow>
          (case inst of SPI1 \<Rightarrow> Some 100000 | SPI2 \<Rightarrow> Some 100000 | SPI3 \<Rightarrow> Some 100000 | _ \<Rightarrow> None)
      | GR_IF_PARAM_SPEED_FAST \<Rightarrow>
          (case inst of SPI1 \<Rightarrow> Some 400000 | SPI2 \<Rightarrow> Some 400000 | SPI3 \<Rightarrow> Some 400000 | _ \<Rightarrow> None)
      | SPEED_OTHER _ \<Rightarrow> None)"

definition spi_prescaler :: "gr_speed \<Rightarrow> periph \<Rightarrow> u32 option" where
  "spi_prescaler sp inst =
     (case sp of
        GR_IF_PARAM_SPEED_SLOW \<Rightarrow>
          (case inst of SPI1 \<Rightarrow> Some SPI_BAUDRATEPRESCALER_128 | SPI2 \<Rightarrow> Some SPI_BAUDRATEPRESCALER_128
           | SPI3 \<Rightarrow> Some SPI_BAUDRATEPRESCALER_128 | _ \<Rightarrow> None)
      | GR_IF_PARAM_SPEED_FAST \<Rightarrow>
          (case inst of SPI1 \<Rightarrow> Some SPI_BAUDRATEPRESCALER_4 | SPI2 \<Rightarrow> Some SPI_BAUDRATEPRESCALER_4
           | SPI3 \<Rightarrow> Some SPI_BAUDRATEPRESCALER_4 | _ \<Rightarrow> None)
      | SPEED_OTHER _ \<Rightarrow> None)"

text \<open>\<open>HAL_I2C_Init\<close> and \<open>HAL_SPI_Init\<close> on the descriptor of the interface.\<close>

definition init_descr :: "'w hal \<Rightarrow> gr_interface \<Rightarrow> 'w bus_state \<Rightarrow> int \<times> 'w bus_state" where
  "init_descr H f = (\<lambda>(w, t). case hal_init H (instance_of f) (if_setting f) w of (r, w') \<Rightarrow>
     (r, w', t @ [Init (instance_of f) (if_setting f)]))"

definition deinit_descr :: "'w hal \<Rightarrow> gr_interface \<Rightarrow> 'w bus_state \<Rightarrow> 'w bus_state" where
  "deinit_descr H f = (\<lambda>(w, t). (hal_deinit H (instance_of f) w, t @ [DeInit (instance_of f)]))"

definition chparams ::
  "'w hal \<Rightarrow> u32 option \<Rightarrow> gr_interface \<Rightarrow> gr_params \<Rightarrow> 'w bus_state \<Rightarrow> int \<times> gr_interface \<times> 'w bus_state" where
  "chparams H setting f p s =
     (case setting of
        None \<Rightarrow> (GR_ERROR_WRONGARG, f, s)
      | Some v \<Rightarrow>
          let s1 = deinit_descr H f s;
              f1 = f\<lparr>if_setting := v\<rparr>;
              (r, s2) = init_descr H f1 s1
          in (GR_ERROR_OK, f1\<lparr>params := p\<rparr>, s2))"

definition chparams_i2c where
  "chparams_i2c H f p s = chparams H (i2c_speed (speed p) (instance_of f)) f p s"

definition chparams_spi where
  "chparams_spi H f p s = chparams H (spi_prescaler (speed p) (instance_of f)) f p s"

text \<open>\<open>xSemaphoreTake(mutex, 0)\<close> and \<open>xSemaphoreGive(mutex)\<close>.\<close>

definition take_mutex :: "gr_interface \<Rightarrow> bool \<times> gr_interface" where
  "take_mutex f = (mutex_free f, f\<lparr>mutex_free := False\<rparr>)"

definition give_mutex :: "gr_interface \<Rightarrow> gr_interface" where
  "give_mutex f = f\<lparr>mutex_free := True\<rparr>"

definition gr_if_set_params ::
  "'w hal \<Rightarrow> gr_interface \<Rightarrow> gr_params \<Rightarrow> 'w bus_state \<Rightarrow> int \<times> gr_interface \<times> 'w bus_state" where
  "gr_if_set_params H f p s =
     (let f1 = snd (take_mutex f);
          (retval, f2, s2) =
            (if params f1 = p then
               (case if_type f1 of
                  GR_IF_TYPE_I2C \<Rightarrow> chparams_i2c H f1 p s
                | GR_IF_TYPE_SPI \<Rightarrow> chparams_spi H f1 p s
                | _ \<Rightarrow> (GR_ERROR_WRONGARG, f1, s))
             else (GR_ERROR_OK, f1, s))
      in (retval, give_mutex f2, s2))"

section \<open>Register access\<close>

definition init_on_need :: "'w hal \<Rightarrow> gr_interface \<Rightarrow> 'w bus_state \<Rightarrow> int \<times> 'w bus_state" where
  "init_on_need H f s =
     (if \<not> inited f then
        (case if_type f of
           GR_IF_TYPE_I2C \<Rightarrow> init_descr H f s
         | GR_IF_TYPE_SPI \<Rightarrow> init_descr H f s
         | _ \<Rightarrow> (GR_ERROR_WRONGARG, s))
      else (GR_ERROR_OK, s))"

definition readreg_i2c where
  "readreg_i2c H f dev reg n = (\<lambda>(w, t).
     case hal_mem_read H (timeout (params f)) dev reg n w of (r, bs, w') \<Rightarrow> ((r, bs), w', t @ [MemRead dev reg n]))"

definition writereg_i2c where
  "writereg_i2c H f dev reg bs = (\<lambda>(w, t).
     case hal_mem_write H (timeout (params f)) dev reg bs w of (r, w') \<Rightarrow> (r, w', t @ [MemWrite dev reg bs]))"

definition readreg_spi ::
  "'w hal \<Rightarrow> u32 \<Rightarrow> pin \<Rightarrow> u8 \<Rightarrow> nat \<Rightarrow> 'w bus_state \<Rightarrow> (int \<times> u8 list) \<times> 'w bus_state" where
  "readreg_spi H tmo ss reg n s =
     (case HAL_SPI_Transmit H tmo [reg] (select H ss s) of (error, s1) \<Rightarrow>
        if error \<noteq> 0 then ((error, []), deselect H ss s1)
        else case HAL_SPI_Receive H tmo n s1 of (error, bs, s2) \<Rightarrow> ((error, bs), deselect H ss s2))"

definition writereg_spi ::
  "'w hal \<Rightarrow> u32 \<Rightarrow> pin \<Rightarrow> u8 \<Rightarrow> u8 list \<Rightarrow> 'w bus_state \<Rightarrow> int \<times> 'w bus_state" where
  "writereg_spi H tmo ss reg bs s =
     (case HAL_SPI_Transmit H tmo [reg] (select H ss s) of (error, s1) \<Rightarrow>
        if error \<noteq> 0 then (error, deselect H ss s1)
        else case HAL_SPI_Transmit H tmo bs s1 of (error, s2) \<Rightarrow> (error, deselect H ss s2))"

definition gr_dev_readreg ::
  "'w hal \<Rightarrow> gr_interface \<Rightarrow> gr_selector \<Rightarrow> u8 \<Rightarrow> nat \<Rightarrow> 'w bus_state \<Rightarrow> (int \<times> u8 list) \<times> gr_interface \<times> 'w bus_state" where
  "gr_dev_readreg H f sel reg n s =
     (let f1 = snd (take_mutex f);
          s1 = snd (init_on_need H f1 s);
          (retval, s2) =
            (case if_type f1 of
               GR_IF_TYPE_I2C \<Rightarrow> readreg_i2c H f1 (sel_address sel) reg n s1
             | GR_IF_TYPE_SPI \<Rightarrow> readreg_spi H (timeout (params f1)) (sel_pin sel) reg n s1
             | _ \<Rightarrow> ((GR_ERROR_WRONGARG, []), s1))
      in (retval, give_mutex f1, s2))"

definition gr_dev_writereg ::
  "'w hal \<Rightarrow> gr_interface \<Rightarrow> gr_selector \<Rightarrow> u8 \<Rightarrow> u8 list \<Rightarrow> 'w bus_state \<Rightarrow> int \<times> gr_interface \<times> 'w bus_state" where
  "gr_dev_writereg H f sel reg bs s =
     (let f1 = snd (take_mutex f);
          s1 = snd (init_on_need H f1 s);
          (retval, s2) =
            (case if_type f1 of
               GR_IF_TYPE_I2C \<Rightarrow> writereg_i2c H f1 (sel_address sel) reg bs s1
             | GR_IF_TYPE_SPI \<Rightarrow> writereg_spi H (timeout (params f1)) (sel_pin sel) reg bs s1
             | _ \<Rightarrow> (GR_ERROR_WRONGARG, s1))
      in (retval, give_mutex f1, s2))"

interpretation gr_read: spi_transaction ss "readreg_spi H tmo ss reg n" for H tmo ss reg n
  by unfold_locales
    (auto simp: readreg_spi_def bracketed_def select_def deselect_def HAL_SPI_Transmit_def
      HAL_SPI_Receive_def split: prod.split)

interpretation gr_write: spi_transaction ss "writereg_spi H tmo ss reg bs" for H tmo ss reg bs
  by unfold_locales
    (auto simp: writereg_spi_def bracketed_def select_def deselect_def HAL_SPI_Transmit_def
      split: prod.split)

section \<open>What the layer does\<close>

lemma chparams_result:
  "chparams H v f p s = (r, f', s') \<Longrightarrow> params f' = (if v = None then params f else p)"
  by (auto simp: chparams_def Let_def split: option.splits prod.splits)

text \<open>\<open>gr_if_set_params\<close> never changes parameters: its comparison is inverted. Parameters that
  differ from the current ones are acknowledged with OK and nothing is done, neither to the
  interface nor to the hardware; only parameters equal to the current ones reinitialise the
  peripheral (with them). In no case are the parameters afterwards other than before.\<close>

theorem gr_if_set_params_inert:
  "(p \<noteq> params f \<longrightarrow> gr_if_set_params H f p s = (GR_ERROR_OK, give_mutex f, s)) \<and>
   params (fst (snd (gr_if_set_params H f p s))) = params f"
proof
  show "p \<noteq> params f \<longrightarrow> gr_if_set_params H f p s = (GR_ERROR_OK, give_mutex f, s)"
    by (simp add: gr_if_set_params_def take_mutex_def give_mutex_def)
  obtain r f' s' where "gr_if_set_params H f p s = (r, f', s')" by (cases "gr_if_set_params H f p s")
  then show "params (fst (snd (gr_if_set_params H f p s))) = params f"
    by (auto simp: gr_if_set_params_def take_mutex_def give_mutex_def chparams_i2c_def chparams_spi_def Let_def
        dest: chparams_result split: if_splits gr_if_type.splits prod.splits)
qed

lemma gr_if_set_params_inert_witness:
  "gr_if_set_params demo_hal GR_IF_SPI1 (slow_params\<lparr>speed := GR_IF_PARAM_SPEED_FAST\<rparr>) ((), []) =
     (GR_ERROR_OK, GR_IF_SPI1, (), [])"
  using gr_if_set_params_inert [of "slow_params\<lparr>speed := GR_IF_PARAM_SPEED_FAST\<rparr>" GR_IF_SPI1 demo_hal "((), [])"]
  by (simp add: GR_IF_SPI1_def spi_interface_def slow_params_def give_mutex_def)

text \<open>An I2C interface could not be changed at all: its instance is compared with the SPI ones.\<close>

lemma i2c_params_wrongarg: "instance_of f \<in> {I2C1, I2C2, I2C3} \<Longrightarrow> chparams_i2c H f p s = (GR_ERROR_WRONGARG, f, s)"
  by (auto simp: chparams_i2c_def chparams_def i2c_speed_def split: gr_speed.splits)

text \<open>The mutex excludes nobody: a register access does the same to the bus and returns the same
  whether the mutex is free or held by another task, and in both cases leaves it free, so it
  also takes it from the holder.\<close>

theorem gr_dev_mutex_ignored:
  "gr_dev_readreg H (f\<lparr>mutex_free := held\<rparr>) sel reg n s = gr_dev_readreg H f sel reg n s \<and>
   gr_dev_writereg H (f\<lparr>mutex_free := held\<rparr>) sel reg bs s = gr_dev_writereg H f sel reg bs s \<and>
   mutex_free (fst (snd (gr_dev_readreg H f sel reg n s))) \<and>
   mutex_free (fst (snd (gr_dev_writereg H f sel reg bs s)))"
  by (simp add: gr_dev_readreg_def gr_dev_writereg_def take_mutex_def give_mutex_def Let_def split: prod.split)

text \<open>\<open>inited\<close> is never set, so every register access initialises the peripheral again.\<close>

lemma gr_dev_reinitialises:
  assumes "\<not> inited f" "if_type f = GR_IF_TYPE_SPI"
  shows "\<exists>es. snd (snd (snd (gr_dev_readreg H f sel reg n s))) = snd s @ Init (instance_of f) (if_setting f) # es
    \<and> \<not> inited (fst (snd (gr_dev_readreg H f sel reg n s)))"
proof -
  obtain w t where s: "s = (w, t)" by (cases s)
  obtain r w' where i: "hal_init H (instance_of f) (if_setting f) w = (r, w')" by (cases "hal_init H (instance_of f) (if_setting f) w")
  define s1 where "s1 = (w', t @ [Init (instance_of f) (if_setting f)])"
  obtain es where es: "snd (snd (readreg_spi H (timeout (params f)) (sel_pin sel) reg n s1)) = snd s1 @ es"
    using gr_read.brackets [of H "timeout (params f)" "sel_pin sel" reg n s1] by blast
  have "gr_dev_readreg H f sel reg n s = (fst (readreg_spi H (timeout (params f)) (sel_pin sel) reg n s1),
      f\<lparr>mutex_free := True\<rparr>, snd (readreg_spi H (timeout (params f)) (sel_pin sel) reg n s1))"
    using assms i by (simp add: gr_dev_readreg_def take_mutex_def give_mutex_def init_on_need_def init_descr_def s s1_def Let_def split: prod.split)
  with es show ?thesis using assms by (simp add: s1_def s)
qed

text \<open>Register accesses keep the watch over the bus.\<close>

lemma init_on_need_watch:
  "one_device None (snd s) = Some None \<Longrightarrow> one_device None (snd (snd (init_on_need H f s))) = Some None"
  by (cases s) (auto simp: init_on_need_def init_descr_def one_device_append split: gr_if_type.split prod.split)

lemma readreg_i2c_watch:
  "one_device None (snd s) = Some None \<Longrightarrow> one_device None (snd (snd (readreg_i2c H f dev reg n s))) = Some None"
  by (cases s) (auto simp: readreg_i2c_def one_device_append split: prod.split)

lemma writereg_i2c_watch:
  "one_device None (snd s) = Some None \<Longrightarrow> one_device None (snd (snd (writereg_i2c H f dev reg bs s))) = Some None"
  by (cases s) (auto simp: writereg_i2c_def one_device_append split: prod.split)

lemma gr_dev_readreg_watch:
  assumes "one_device None (snd s) = Some None"
  shows "one_device None (snd (snd (snd (gr_dev_readreg H f sel reg n s)))) = Some None"
  using gr_read.keeps_watch [OF init_on_need_watch [OF assms]] readreg_i2c_watch [OF init_on_need_watch [OF assms]]
    init_on_need_watch [OF assms]
  by (cases "if_type f") (simp_all add: gr_dev_readreg_def take_mutex_def Let_def split_def)

lemma gr_dev_writereg_watch:
  assumes "one_device None (snd s) = Some None"
  shows "one_device None (snd (snd (snd (gr_dev_writereg H f sel reg bs s)))) = Some None"
  using gr_write.keeps_watch [OF init_on_need_watch [OF assms]] writereg_i2c_watch [OF init_on_need_watch [OF assms]]
    init_on_need_watch [OF assms]
  by (cases "if_type f") (simp_all add: gr_dev_writereg_def take_mutex_def Let_def split_def)

end
