(* ===== verification/Granum_Pins.thy ===== *)
theory Granum_Pins
  imports Devctl
begin

text \<open>
  The pin configuration of the interfaces in \<^verbatim>\<open>granum_common.c\<close>: the six \<open>GR_IF_MSP\<close> functions as
  the lists of calls they make (clock enables and \<open>HAL_GPIO_Init\<close>; pull and speed are the same
  everywhere and left out), and the state of the pins after them.
\<close>

section \<open>The configuration functions\<close>

datatype gpio_mode = GPIO_MODE_AF_PP | GPIO_MODE_AF_OD | GPIO_MODE_INPUT | GPIO_MODE_OUTPUT_PP
datatype alternate = GPIO_AF4_I2C1 | GPIO_AF4_I2C2 | GPIO_AF4_I2C3 | GPIO_AF5_SPI1 | GPIO_AF5_SPI2 | GPIO_AF6_SPI3

text \<open>A pin set of a port is a mask.\<close>

datatype msp_call =
    PeriphClk periph
  | GpioClk gpio_port
  | GpioInit gpio_port u16 gpio_mode alternate

definition GPIO_PIN :: "nat \<Rightarrow> u16" where "GPIO_PIN k = push_bit k 1"

definition SPI1_SS :: pin where "SPI1_SS = (GPIOA, GPIO_PIN 5)"
definition SPI2_SS :: pin where "SPI2_SS = (GPIOA, GPIO_PIN 13)"
definition SPI3_SS :: pin where "SPI3_SS = (GPIOB, GPIO_PIN 3)"

definition GR_IF_MSP_I2C1 :: "msp_call list" where
  "GR_IF_MSP_I2C1 = [PeriphClk I2C1, GpioClk GPIOB,
     GpioInit GPIOB (GPIO_PIN 6 OR GPIO_PIN 7) GPIO_MODE_AF_PP GPIO_AF4_I2C1]"

definition GR_IF_MSP_I2C2 :: "msp_call list" where
  "GR_IF_MSP_I2C2 = [PeriphClk I2C2, GpioClk GPIOB,
     GpioInit GPIOB (GPIO_PIN 10 OR GPIO_PIN 11) GPIO_MODE_AF_PP GPIO_AF4_I2C2]"

definition GR_IF_MSP_I2C3 :: "msp_call list" where
  "GR_IF_MSP_I2C3 = [PeriphClk I2C3, GpioClk GPIOH,
     GpioInit GPIOH (GPIO_PIN 7 OR GPIO_PIN 8) GPIO_MODE_AF_PP GPIO_AF4_I2C3]"

definition GR_IF_MSP_SPI1 :: "msp_call list" where
  "GR_IF_MSP_SPI1 = [PeriphClk SPI1, GpioClk GPIOA,
     GpioInit (fst SPI1_SS) (snd SPI1_SS) GPIO_MODE_AF_PP GPIO_AF5_SPI1,
     GpioInit GPIOA (GPIO_PIN 6) GPIO_MODE_INPUT GPIO_AF5_SPI1,
     GpioInit GPIOA (GPIO_PIN 7) GPIO_MODE_AF_OD GPIO_AF5_SPI1,
     GpioInit GPIOA (GPIO_PIN 1) GPIO_MODE_OUTPUT_PP GPIO_AF5_SPI1]"

definition GR_IF_MSP_SPI2 :: "msp_call list" where
  "GR_IF_MSP_SPI2 = [PeriphClk SPI2, GpioClk GPIOB,
     GpioInit (fst SPI2_SS) (snd SPI2_SS) GPIO_MODE_AF_PP GPIO_AF5_SPI2,
     GpioInit GPIOA (GPIO_PIN 14) GPIO_MODE_INPUT GPIO_AF5_SPI2,
     GpioInit GPIOA (GPIO_PIN 15) GPIO_MODE_AF_OD GPIO_AF5_SPI2,
     GpioInit GPIOA (GPIO_PIN 2) GPIO_MODE_OUTPUT_PP GPIO_AF5_SPI2]"

definition GR_IF_MSP_SPI3 :: "msp_call list" where
  "GR_IF_MSP_SPI3 = [PeriphClk SPI3, GpioClk GPIOB,
     GpioInit (fst SPI3_SS) (snd SPI3_SS) GPIO_MODE_AF_PP GPIO_AF6_SPI3,
     GpioInit GPIOB (GPIO_PIN 4) GPIO_MODE_INPUT GPIO_AF6_SPI3,
     GpioInit GPIOB (GPIO_PIN 5) GPIO_MODE_AF_OD GPIO_AF6_SPI3,
     GpioInit GPIOB (GPIO_PIN 1) GPIO_MODE_OUTPUT_PP GPIO_AF6_SPI3]"

section \<open>The pins afterwards\<close>

text \<open>The mode a list of calls leaves a pin in: that of the last call that names it.\<close>

fun pin_mode :: "pin \<Rightarrow> msp_call list \<Rightarrow> gpio_mode option" where
  "pin_mode p [] = None"
| "pin_mode p (c # cs) =
     (case pin_mode p cs of
        Some m \<Rightarrow> Some m
      | None \<Rightarrow>
          (case c of
             GpioInit port pins mode alt \<Rightarrow> if port = fst p \<and> pins AND snd p = snd p then Some mode else None
           | _ \<Rightarrow> None))"

text \<open>Ports whose pins are configured although their clock was not enabled before.\<close>

fun unclocked :: "gpio_port list \<Rightarrow> msp_call list \<Rightarrow> gpio_port list" where
  "unclocked on [] = []"
| "unclocked on (GpioClk p # cs) = unclocked (p # on) cs"
| "unclocked on (PeriphClk i # cs) = unclocked on cs"
| "unclocked on (GpioInit p m md a # cs) = (if p \<in> set on then [] else [p]) @ unclocked on cs"

text \<open>The pin table of the SPI interfaces contradicts itself: the pin the device layer drives as
  the chip select is configured as the clock output (alternate function), not as an output, on all
  three interfaces, while the pin configured as the select is never driven; and the pins of SPI2
  are on port A with only the clock of port B enabled. The other interfaces enable what they use.\<close>

theorem msp_select_is_clock:
  "pin_mode SPI1_SS GR_IF_MSP_SPI1 = Some GPIO_MODE_AF_PP \<and>
   pin_mode SPI2_SS GR_IF_MSP_SPI2 = Some GPIO_MODE_AF_PP \<and>
   pin_mode SPI3_SS GR_IF_MSP_SPI3 = Some GPIO_MODE_AF_PP \<and>
   unclocked [] GR_IF_MSP_SPI2 = [GPIOA, GPIOA, GPIOA, GPIOA] \<and>
   list_all (\<lambda>cs. unclocked [] cs = []) [GR_IF_MSP_SPI1, GR_IF_MSP_SPI3, GR_IF_MSP_I2C1, GR_IF_MSP_I2C2, GR_IF_MSP_I2C3]"
  by code_simp

end
