(* ===== verification/Board_Ctl.thy ===== *)
theory Board_Ctl
  imports Spi_Bus Bmp280_Comp
begin

text \<open>
  \<^verbatim>\<open>research/omnubus-reborn\<close>: the access to the BMP280 over SPI (\<^verbatim>\<open>system-usr/src/board_ctl.c\<close>),
  the device structure built on it (\<^verbatim>\<open>src/bmp280_local.c\<close>), and the task of \<^verbatim>\<open>src/main.c\<close> that
  initialises the sensor and reads it in a loop.
\<close>

section \<open>\<open>board_ctl.c\<close>\<close>

text \<open>The chip select of the sensor, PB3.\<close>

definition BMP280_CS :: pin where "BMP280_CS = (GPIOB, 0x0008)"

definition SPI_BAUDRATEPRESCALER_256 :: u32 where "SPI_BAUDRATEPRESCALER_256 = 0x38"

definition brctl_init :: "'w hal \<Rightarrow> 'w bus_state \<Rightarrow> 'w bus_state" where
  "brctl_init H = (\<lambda>(w, t).
     deselect H BMP280_CS (snd (hal_init H SPI3 SPI_BAUDRATEPRESCALER_256 w), t @ [Init SPI3 SPI_BAUDRATEPRESCALER_256]))"

definition brctl_bmp280_reg_read ::
  "'w hal \<Rightarrow> u8 \<Rightarrow> u8 \<Rightarrow> nat \<Rightarrow> 'w bus_state \<Rightarrow> (int \<times> u8 list) \<times> 'w bus_state" where
  "brctl_bmp280_reg_read H dev reg_addr cnt s =
     (let s1 = select H BMP280_CS s in
      case HAL_SPI_Transmit H HAL_MAX_DELAY [reg_addr OR 0x80] s1 of (status, s2) \<Rightarrow>
        if status \<noteq> 0 then ((status, []), deselect H BMP280_CS s2)
        else case HAL_SPI_Receive H HAL_MAX_DELAY cnt s2 of (status, bs, s3) \<Rightarrow>
          ((status, bs), deselect H BMP280_CS s3))"

text \<open>The loop over the bytes: the address again before every byte, always the same.\<close>

fun write_loop :: "'w hal \<Rightarrow> u8 \<Rightarrow> u8 list \<Rightarrow> 'w bus_state \<Rightarrow> int \<times> 'w bus_state" where
  "write_loop H reg_addr [] s = (0, s)"
| "write_loop H reg_addr (b # bs) s =
     (case HAL_SPI_Transmit H HAL_MAX_DELAY [reg_addr] s of (status, s1) \<Rightarrow>
        if status \<noteq> 0 then (status, s1)
        else case HAL_SPI_Transmit H HAL_MAX_DELAY [b] s1 of (status, s2) \<Rightarrow>
          if status \<noteq> 0 then (status, s2) else write_loop H reg_addr bs s2)"

definition brctl_bmp280_reg_write ::
  "'w hal \<Rightarrow> u8 \<Rightarrow> u8 \<Rightarrow> u8 list \<Rightarrow> 'w bus_state \<Rightarrow> int \<times> 'w bus_state" where
  "brctl_bmp280_reg_write H dev reg_addr reg_data s =
     (case write_loop H (reg_addr AND 0x7F) reg_data (select H BMP280_CS s) of (status, s') \<Rightarrow>
       (status, deselect H BMP280_CS s'))"

lemma write_loop_trace:
  "\<exists>ts. snd (snd (write_loop H r bs s)) = snd s @ ts \<and> list_all is_transfer ts"
proof (induction H r bs s rule: write_loop.induct)
  case (2 H r b bs s)
  obtain st1 w1 where 1: "HAL_SPI_Transmit H HAL_MAX_DELAY [r] s = (st1, w1, snd s @ [Tx [r]])"
    using transmit_trace [of H HAL_MAX_DELAY "[r]" s] by auto
  obtain st2 w2 where 2: "HAL_SPI_Transmit H HAL_MAX_DELAY [b] (w1, snd s @ [Tx [r]]) = (st2, w2, snd s @ [Tx [r], Tx [b]])"
    using transmit_trace [of H HAL_MAX_DELAY "[b]" "(w1, snd s @ [Tx [r]])"] by auto
  show ?case
  proof (cases "st1 = 0 \<and> st2 = 0")
    case True
    with "2.IH" [OF 1 [symmetric] _ 2 [symmetric]] obtain ts
      where "snd (snd (write_loop H r bs (w2, snd s @ [Tx [r], Tx [b]]))) = snd s @ [Tx [r], Tx [b]] @ ts" "list_all is_transfer ts"
      by auto
    with 1 2 True show ?thesis by (intro exI [of _ "[Tx [r], Tx [b]] @ ts"]) simp
  qed (use 1 2 in auto)
qed simp

interpretation br_read: spi_transaction BMP280_CS "brctl_bmp280_reg_read H dev reg n" for H dev reg n
  by unfold_locales
    (auto simp: brctl_bmp280_reg_read_def bracketed_def select_def deselect_def HAL_SPI_Transmit_def
      HAL_SPI_Receive_def Let_def split: prod.split)

interpretation br_write: spi_transaction BMP280_CS "brctl_bmp280_reg_write H dev reg bs" for H dev reg bs
proof unfold_locales
  fix s :: "'a bus_state"
  obtain w t where s: "s = (w, t)" by (cases s)
  obtain ts where "snd (snd (write_loop H (reg AND 0x7F) bs (select H BMP280_CS s))) = snd (select H BMP280_CS s) @ ts"
    "list_all is_transfer ts"
    using write_loop_trace [of H "reg AND 0x7F" bs "select H BMP280_CS s"] by blast
  then show "\<exists>es. snd (snd (brctl_bmp280_reg_write H dev reg bs s)) = snd s @ es \<and> bracketed BMP280_CS es"
    by (auto simp: brctl_bmp280_reg_write_def s select_def deselect_def bracketed_def split: prod.split)
qed

text \<open>What a write sends: every byte goes to the same register, so writing more than one byte writes
  the last of them.\<close>

lemma write_trace:
  assumes "\<And>bs w. fst (hal_tx H HAL_MAX_DELAY bs w) = 0"
  shows "snd (snd (brctl_bmp280_reg_write H dev reg bs (w, t))) =
    t @ CsLow BMP280_CS # concat (map (\<lambda>b. [Tx [reg AND 0x7F], Tx [b]]) bs) @ [CsHigh BMP280_CS]"
proof -
  have "\<exists>w'. write_loop H r bs (w, t) = (0, w', t @ concat (map (\<lambda>b. [Tx [r], Tx [b]]) bs))" for r w t
  proof (induction bs arbitrary: w t)
    case (Cons b bs)
    obtain w1 where 1: "hal_tx H HAL_MAX_DELAY [r] w = (0, w1)" using assms [of "[r]" w] by (cases "hal_tx H HAL_MAX_DELAY [r] w") auto
    obtain w2 where 2: "hal_tx H HAL_MAX_DELAY [b] w1 = (0, w2)" using assms [of "[b]" w1] by (cases "hal_tx H HAL_MAX_DELAY [b] w1") auto
    show ?case using Cons.IH [of w2 "t @ [Tx [r], Tx [b]]"] 1 2 by (simp add: HAL_SPI_Transmit_def)
  qed simp
  from this [of "reg AND 0x7F" "hal_pin H BMP280_CS False w" "t @ [CsLow BMP280_CS]"] show ?thesis
    by (auto simp: brctl_bmp280_reg_write_def select_def deselect_def)
qed

section \<open>\<open>bmp280_local.c\<close>\<close>

text \<open>The delay is FreeRTOS's \<open>vTaskDelay\<close>, a parameter, at a thousand ticks a second.\<close>

definition configTICK_RATE_HZ :: int where "configTICK_RATE_HZ = 1000"

definition bmp280_local_init :: "'w hal \<Rightarrow> (int \<Rightarrow> 'w \<Rightarrow> 'w) \<Rightarrow> 'w bus_state bus" where
  "bmp280_local_init H vTaskDelay =
     \<lparr>bus_read = (\<lambda>dev reg n s. case brctl_bmp280_reg_read H dev reg n s of ((r, bs), s') \<Rightarrow> (r, bs, s')),
      bus_write = brctl_bmp280_reg_write H,
      delay_msec = (\<lambda>ms (w, t). (vTaskDelay (ms * configTICK_RATE_HZ div 1000) w, t))\<rparr>"

section \<open>The task of \<open>main.c\<close>\<close>

text \<open>The device structure is a local variable: \<open>junk\<close> is what its memory holds. The result codes
  are printed and not looked at.\<close>

definition task_setup :: "'s bus \<Rightarrow> bmp280_t \<Rightarrow> 's \<Rightarrow> (int \<times> int \<times> int) \<times> bmp280_t \<times> 's" where
  "task_setup B junk w =
     (case bmp280_init B junk w of (r1, d1, w1) \<Rightarrow>
      case bmp280_set_work_mode B 4 (Some d1) w1 of (r2, _, d2, w2) \<Rightarrow>
      case bmp280_set_power_mode B 3 d2 w2 of (r3, _, d3, w3) \<Rightarrow>
        ((r1, r2, r3), the d3, w3))"

text \<open>One turn of the loop: what it prints, the device and the world. The conversion of the fine
  temperature to an integer may be undefined.\<close>

definition task_cycle :: "'s bus \<Rightarrow> bmp280_t \<Rightarrow> 's \<Rightarrow> ((int \<times> fnum \<times> fnum) \<times> bmp280_t \<times> 's) option" where
  "task_cycle B d w =
     (case bmp280_read_uncomp_pressure_temperature B (Some d) w of (res, Some (pressure, temperature), _, w') \<Rightarrow>
        let p = bmp280_compensate_pressure_double (calib d) pressure in
        map_option (\<lambda>(c, t). ((res, p, t), d\<lparr>calib := c\<rparr>, w'))
          (bmp280_compensate_temperature_double (calib d) temperature)
      | _ \<Rightarrow> None)"

lemma read_calib_t_fine: "read_calib B d w = (r, d', w') \<Longrightarrow> t_fine (calib d') = t_fine (calib d)"
  by (auto simp: read_calib_def parse_calib_def split: prod.splits)

lemma init_t_fine: "bmp280_init B d w = (r, d', w') \<Longrightarrow> t_fine (calib d') = t_fine (calib d)"
  by (auto simp: bmp280_init_def Let_def dest: read_calib_t_fine split: prod.splits if_splits)

lemma work_mode_calib: "bmp280_set_work_mode B m (Some d) w = (r, u, d', w') \<Longrightarrow> \<exists>e. d' = Some e \<and> calib e = calib d"
  by (auto simp: bmp280_set_work_mode_def if_device_def Let_def split: prod.splits if_splits)

lemma power_mode_device: "bmp280_set_power_mode B m (Some d) w = (r, u, d', w') \<Longrightarrow> d' = Some d"
  by (auto simp: bmp280_set_power_mode_def if_device_def Let_def split: prod.splits if_splits)

lemma setup_t_fine:
  assumes "task_setup B junk w = (rs, d, w1)"
  shows "t_fine (calib d) = t_fine (calib junk)"
proof -
  obtain r1 d1 w2 where 1: "bmp280_init B junk w = (r1, d1, w2)" by (cases "bmp280_init B junk w")
  obtain r2 u2 d2 w3 where 2: "bmp280_set_work_mode B 4 (Some d1) w2 = (r2, u2, d2, w3)"
    by (cases "bmp280_set_work_mode B 4 (Some d1) w2")
  from work_mode_calib [OF 2] obtain e where e: "d2 = Some e" "calib e = calib d1" by blast
  obtain r3 u3 d3 w4 where 3: "bmp280_set_power_mode B 3 d2 w3 = (r3, u3, d3, w4)"
    by (cases "bmp280_set_power_mode B 3 d2 w3")
  with e power_mode_device have "d3 = Some e" by metis
  with assms 1 2 3 e init_t_fine [OF 1] show ?thesis by (simp add: task_setup_def)
qed

lemma temperature_double_frame:
  assumes "bmp280_compensate_temperature_double c ut = Some (c', t)"
  shows "c\<lparr>t_fine := t_fine c'\<rparr> = c'"
proof -
  from assms obtain z where "c' = c\<lparr>t_fine := z\<rparr>"
    unfolding bmp280_compensate_temperature_double_def Let_def by blast
  then show ?thesis by simp
qed

text \<open>The task prints pressures from stale temperatures: the pressure of a turn is computed before
  the temperature of that turn, so from the fine temperature the turn before stored, and the very
  first one from whatever the uninitialised device structure held.\<close>

theorem task_pressure_stale:
  assumes "task_setup B junk w = (rs, d, w1)" "task_cycle B d w1 = Some ((res, p, t), d', w2)"
    and "task_cycle B d' w2 = Some ((res', p', t'), d'', w3)"
  shows "\<exists>up ut up'. p = bmp280_compensate_pressure_double ((calib d)\<lparr>t_fine := t_fine (calib junk)\<rparr>) up \<and>
    bmp280_compensate_temperature_double (calib d) ut = Some (calib d', t) \<and>
    p' = bmp280_compensate_pressure_double ((calib d)\<lparr>t_fine := t_fine (calib d')\<rparr>) up'"
proof -
  have c: "(calib d)\<lparr>t_fine := t_fine (calib junk)\<rparr> = calib d"
    using setup_t_fine [OF assms(1)] by simp
  obtain up ut where 1: "p = bmp280_compensate_pressure_double (calib d) up"
    "bmp280_compensate_temperature_double (calib d) ut = Some (calib d', t)"
    using assms(2) by (auto simp: task_cycle_def Let_def split: prod.splits option.splits)
  have "(calib d)\<lparr>t_fine := t_fine (calib d')\<rparr> = calib d'"
    by (rule temperature_double_frame [OF 1(2)])
  moreover obtain up' where "p' = bmp280_compensate_pressure_double (calib d') up'"
    using assms(3) by (auto simp: task_cycle_def Let_def split: prod.splits option.splits)
  ultimately show ?thesis using 1 c by auto
qed

text \<open>A run on a bus whose registers all hold \<open>0x58\<close>, one of the chip ids.\<close>

definition demo_setup :: "(int \<times> int \<times> int) \<times> bmp280_t \<times> (u8 \<Rightarrow> u8)" where
  "demo_setup = task_setup demo_bus demo_device (\<lambda>_. 0x58)"

lemma demo_setup_temperature:
  "case bmp280_compensate_temperature_double (calib (fst (snd demo_setup))) 361861 of None \<Rightarrow> False | Some _ \<Rightarrow> True"
  by code_simp

lemma demo_setup_read:
  "read_uncomp demo_bus d (snd (snd demo_setup)) = (0, (361861, 361861), snd (snd demo_setup))"
proof -
  have m: "map (snd (snd demo_setup)) [0xF7, 0xF8, 0xF9, 0xFA, 0xFB, 0xFC] = replicate 6 0x58" by code_simp
  have "map (\<lambda>k. snd (snd demo_setup) (0xF7 + of_nat k)) [0..<6] = replicate 6 0x58"
    using m by (simp add: upt_rec numeral_eq_Suc)
  moreover have "adc_value 0x58 0x58 0x58 = 361861" by code_simp
  ultimately show ?thesis by (simp add: read_uncomp_def demo_bus_def overlay_def numeral_eq_Suc)
qed

lemma temperature_double_t_fine:
  "bmp280_compensate_temperature_double (c\<lparr>t_fine := z\<rparr>) ut = bmp280_compensate_temperature_double c ut"
  by (simp add: bmp280_compensate_temperature_double_def Let_def)

lemma demo_cycle:
  assumes "bmp280_compensate_temperature_double (calib d) 361861 = Some (c, t)"
  shows "\<exists>p. task_cycle demo_bus d (snd (snd demo_setup)) = Some ((0, p, t), d\<lparr>calib := c\<rparr>, snd (snd demo_setup))"
  using assms by (simp add: task_cycle_def bmp280_read_uncomp_pressure_temperature_def if_device_def demo_setup_read)

lemma task_pressure_stale_witness:
  "case task_setup demo_bus demo_device (\<lambda>_. 0x58) of (rs, d, w) \<Rightarrow>
     (case task_cycle demo_bus d w of None \<Rightarrow> False
      | Some ((res, p, t), _) \<Rightarrow>
          \<exists>up. p = bmp280_compensate_pressure_double ((calib d)\<lparr>t_fine := t_fine (calib demo_device)\<rparr>) up)"
proof -
  define d where "d = fst (snd demo_setup)"
  have 1: "task_setup demo_bus demo_device (\<lambda>_. 0x58) = (fst demo_setup, d, snd (snd demo_setup))"
    by (simp add: d_def flip: demo_setup_def)
  obtain c t where c: "bmp280_compensate_temperature_double (calib d) 361861 = Some (c, t)"
    using demo_setup_temperature by (auto simp: d_def split: option.splits)
  obtain p where 2: "task_cycle demo_bus d (snd (snd demo_setup)) = Some ((0, p, t), d\<lparr>calib := c\<rparr>, snd (snd demo_setup))"
    using demo_cycle [OF c] by blast
  have "bmp280_compensate_temperature_double (calib (d\<lparr>calib := c\<rparr>)) 361861 = Some (c, t)"
    using c temperature_double_t_fine [of "t_fine c" "calib d" 361861] by (simp add: temperature_double_frame [OF c])
  from demo_cycle [OF this] obtain p' where 3: "task_cycle demo_bus (d\<lparr>calib := c\<rparr>) (snd (snd demo_setup)) =
      Some ((0, p', t), (d\<lparr>calib := c\<rparr>)\<lparr>calib := c\<rparr>, snd (snd demo_setup))" by blast
  from task_pressure_stale [OF 1 2 3] 1 2 show ?thesis by auto
qed

end
