(* ===== verification/Magnetometer.thy ===== *)
theory Magnetometer
  imports Spi_Bus
begin

text \<open>
  The driver of the magnetometer LSM303C, \<^verbatim>\<open>research/Madgwick/Madgwick/src/magnetometer.c\<close>: register
  blocks over SPI with a chip select per sensor, the setup and the three readings. The lemmas:
  the select is released on every path, the address byte has the two protocol bits, and the
  control bytes of the setup hold the settings in separate fields.
\<close>

section \<open>Data\<close>

record LSM303C_t =
  cs_port :: gpio_port
  acc_cs_pin :: u16
  mag_cs_pin :: u16

record LSM303C_config_t =
  temp_en :: bool
  power_mode :: nat
  data_rate :: nat

definition SENS_MAG :: nat where "SENS_MAG = 1"
definition SENS_ACC :: nat where "SENS_ACC = 0"

section \<open>Register blocks\<close>

definition set_bit_reg :: "u8 \<Rightarrow> nat \<Rightarrow> bool \<Rightarrow> u8" where
  "set_bit_reg reg pos b = (if b then reg OR push_bit pos 1 else reg AND NOT (push_bit pos 1))"

definition cs_pin_of :: "LSM303C_t \<Rightarrow> nat \<Rightarrow> pin" where
  "cs_pin_of self sens = (cs_port self, if sens = SENS_MAG then mag_cs_pin self else acc_cs_pin self)"

text \<open>Reading takes any non-zero \<open>sens\<close> for the magnetometer.\<close>

definition readmanyreg ::
  "'w hal \<Rightarrow> LSM303C_t \<Rightarrow> u8 \<Rightarrow> nat \<Rightarrow> nat \<Rightarrow> 'w bus_state \<Rightarrow> (int \<times> u8 list) \<times> 'w bus_state" where
  "readmanyreg H self regaddr sens count s =
     (let cs = (cs_port self, if sens \<noteq> 0 then mag_cs_pin self else acc_cs_pin self);
          reg = set_bit_reg (set_bit_reg regaddr 7 True) 6 True
      in case HAL_SPI_Transmit H 1000 [reg] (select H cs s) of (error, s1) \<Rightarrow>
           if error \<noteq> 0 then ((error, []), deselect H cs s1)
           else case HAL_SPI_Receive H 1000 count s1 of (error, bs, s2) \<Rightarrow> ((error, bs), deselect H cs s2))"

definition readreg where "readreg H self regaddr sens = readmanyreg H self regaddr sens 1"

definition writemanyreg ::
  "'w hal \<Rightarrow> LSM303C_t \<Rightarrow> u8 \<Rightarrow> u8 list \<Rightarrow> nat \<Rightarrow> 'w bus_state \<Rightarrow> int \<times> 'w bus_state" where
  "writemanyreg H self regaddr bs sens s =
     (let cs = cs_pin_of self sens;
          reg = set_bit_reg (set_bit_reg regaddr 7 False) 6 True
      in case HAL_SPI_Transmit H 1000 [reg] (select H cs s) of (error, s1) \<Rightarrow>
           if error \<noteq> 0 then (error, deselect H cs s1)
           else case HAL_SPI_Transmit H 1000 bs s1 of (error, s2) \<Rightarrow> (error, deselect H cs s2))"

definition writereg where "writereg H self regaddr v sens = writemanyreg H self regaddr [v] sens"

interpretation mag_read: spi_transaction "(cs_port self, if sens \<noteq> 0 then mag_cs_pin self else acc_cs_pin self)"
  "readmanyreg H self reg sens n" for H self reg sens n
  by unfold_locales
    (auto simp: readmanyreg_def bracketed_def select_def deselect_def HAL_SPI_Transmit_def HAL_SPI_Receive_def
      Let_def split: prod.split)

interpretation mag_write: spi_transaction "cs_pin_of self sens" "writemanyreg H self reg bs sens" for H self reg bs sens
  by unfold_locales
    (auto simp: writemanyreg_def bracketed_def select_def deselect_def HAL_SPI_Transmit_def Let_def split: prod.split)

section \<open>Setup and readings\<close>

definition mag_control :: "LSM303C_config_t \<Rightarrow> u8 list" where
  "mag_control config =
     [word_of_nat (of_bool (temp_en config) * 2 ^ 7) OR word_of_nat (power_mode config * 2 ^ 5) OR word_of_nat (data_rate config * 2 ^ 2),
      push_bit 5 3, push_bit 2 1 OR push_bit 0 0, word_of_nat (power_mode config * 2 ^ 2)]"

definition LSM303C_mag_setup :: "'w hal \<Rightarrow> LSM303C_t \<Rightarrow> LSM303C_config_t \<Rightarrow> 'w bus_state \<Rightarrow> int \<times> 'w bus_state" where
  "LSM303C_mag_setup H self config = writemanyreg H self 0x20 (mag_control config) SENS_MAG"

definition LSM303C_mag_getData where "LSM303C_mag_getData H self = readmanyreg H self 0x28 SENS_MAG 6"
definition LSM303C_acc_getData where "LSM303C_acc_getData H self = readmanyreg H self 0x28 SENS_ACC 6"
definition LSM303C_temp_getData where "LSM303C_temp_getData H self = readmanyreg H self 0x2E SENS_MAG 2"

text \<open>The address bytes of the protocol: read or write in the top bit, auto-increment in the next.\<close>

lemma address_bytes:
  "set_bit_reg (set_bit_reg r 7 True) 6 True = r OR 0xC0"
  "set_bit_reg (set_bit_reg r 7 False) 6 True = (r AND 0x7F) OR 0x40"
  by (rule bit_word_eqI, auto simp: set_bit_reg_def bit_simps numeral_eq_Suc Suc_less_eq2 less_Suc_eq)+

lemma mag_control_fields:
  assumes "power_mode config < 4" "data_rate config < 8"
  shows "bit (mag_control config ! 0) 7 = temp_en config"
    "(mag_control config ! 0) AND 0x60 = word_of_nat (power_mode config * 32)"
    "(mag_control config ! 0) AND 0x1C = word_of_nat (data_rate config * 4)"
proof -
  have p: "power_mode config \<in> {0, 1, 2, 3}" and d: "data_rate config \<in> {0, 1, 2, 3, 4, 5, 6, 7}"
    using assms by auto
  from p d show "bit (mag_control config ! 0) 7 = temp_en config"
    "(mag_control config ! 0) AND 0x60 = word_of_nat (power_mode config * 32)"
    "(mag_control config ! 0) AND 0x1C = word_of_nat (data_rate config * 4)"
    by (auto simp: mag_control_def bit_or_iff)
qed

end
