(* ===== verification/Lsm6ds3.thy ===== *)
theory Lsm6ds3
  imports Spi_Bus Float_Types Complex_Main
begin

text \<open>
  The driver of the accelerometer and gyroscope LSM6DS3,
  \<^verbatim>\<open>research/Madgwick/Madgwick/src/lsmd6s3/lsm6ds3.c\<close>: register access over I2C, setup, raw
  readings, conversion and the removal of the gyroscope's static error.

  The lemmas: setup writes the requested settings, in separate fields, and stops at the first
  error; the static error is removed after calibration.
\<close>

section \<open>Settings and device\<close>

datatype gyro_range = LSM6DS3_GYRO_RANGE_125 | LSM6DS3_GYRO_RANGE_245 | LSM6DS3_GYRO_RANGE_500
  | LSM6DS3_GYRO_RANGE_1000 | LSM6DS3_GYRO_RANGE_2000

datatype gyro_srate = LSM6DS3_GYRO_SRATE_12dot5 | LSM6DS3_GYRO_SRATE_26 | LSM6DS3_GYRO_SRATE_52
  | LSM6DS3_GYRO_SRATE_104 | LSM6DS3_GYRO_SRATE_208 | LSM6DS3_GYRO_SRATE_416
  | LSM6DS3_GYRO_SRATE_833 | LSM6DS3_GYRO_SRATE_1660

datatype accel_range = LSM6DS3_ACCEL_RANGE_2 | LSM6DS3_ACCEL_RANGE_4 | LSM6DS3_ACCEL_RANGE_8 | LSM6DS3_ACCEL_RANGE_16

datatype accel_srate = LSM6DS3_ACCEL_SRATE_12dot5 | LSM6DS3_ACCEL_SRATE_26 | LSM6DS3_ACCEL_SRATE_52
  | LSM6DS3_ACCEL_SRATE_104 | LSM6DS3_ACCEL_SRATE_208 | LSM6DS3_ACCEL_SRATE_416
  | LSM6DS3_ACCEL_SRATE_833 | LSM6DS3_ACCEL_SRATE_1660 | LSM6DS3_ACCEL_SRATE_3330 | LSM6DS3_ACCEL_SRATE_6660

datatype accel_bw = LSM6DS3_ACCEL_FILTER_BW_AUTO | LSM6DS3_ACCEL_FILTER_BW_400
  | LSM6DS3_ACCEL_FILTER_BW_200 | LSM6DS3_ACCEL_FILTER_BW_100 | LSM6DS3_ACCEL_FILTER_BW_50

record lsm6ds3_settings =
  tempEnabled :: bool
  gyroEnabled :: bool
  gyroRange :: gyro_range
  gyroSampleRate :: gyro_srate
  accelEnabled :: bool
  accelRange :: accel_range
  accelSampleRate :: accel_srate
  accelFilterBandWidth :: accel_bw

record 'a lsm6ds3_t =
  address :: u8
  acc_k :: 'a
  gyro_k :: 'a
  gyro_precalibration_cycles :: int
  gyro_calibration_coeffs :: "'a \<times> 'a \<times> 'a"

section \<open>Registers\<close>

definition readRegisterRegion ::
  "'w hal \<Rightarrow> 'a lsm6ds3_t \<Rightarrow> u8 \<Rightarrow> nat \<Rightarrow> 'w bus_state \<Rightarrow> (int \<times> u8 list) \<times> 'w bus_state" where
  "readRegisterRegion H self addr count = (\<lambda>(w, t).
     case hal_mem_read H 10000 (address self) addr count w of (r, bs, w') \<Rightarrow>
       ((r, bs), w', t @ [MemRead (address self) addr count]))"

definition writeRegister ::
  "'w hal \<Rightarrow> 'a lsm6ds3_t \<Rightarrow> u8 \<Rightarrow> u8 \<Rightarrow> 'w bus_state \<Rightarrow> int \<times> 'w bus_state" where
  "writeRegister H self addr v = (\<lambda>(w, t).
     case hal_mem_write H 10000 (address self) addr [v] w of (r, w') \<Rightarrow>
       (r, w', t @ [MemWrite (address self) addr [v]]))"

text \<open>One register into a variable that holds \<open>old\<close>.\<close>

definition readRegister ::
  "'w hal \<Rightarrow> 'a lsm6ds3_t \<Rightarrow> u8 \<Rightarrow> u8 \<Rightarrow> 'w bus_state \<Rightarrow> (int \<times> u8) \<times> 'w bus_state" where
  "readRegister H self addr old s =
     (case readRegisterRegion H self addr 1 s of ((r, bs), s') \<Rightarrow> ((r, case bs of [] \<Rightarrow> old | b # _ \<Rightarrow> b), s'))"

section \<open>Setup\<close>

definition bw_code :: "accel_bw \<Rightarrow> u8" where
  "bw_code b = (case b of LSM6DS3_ACCEL_FILTER_BW_50 \<Rightarrow> 0x03 | LSM6DS3_ACCEL_FILTER_BW_100 \<Rightarrow> 0x02
     | LSM6DS3_ACCEL_FILTER_BW_200 \<Rightarrow> 0x01 | _ \<Rightarrow> 0x00)"

text \<open>The range code and the factor, in thousandths.\<close>

definition accel_range_code :: "accel_range \<Rightarrow> u8 \<times> int" where
  "accel_range_code r = (case r of LSM6DS3_ACCEL_RANGE_2 \<Rightarrow> (0x00, 61) | LSM6DS3_ACCEL_RANGE_4 \<Rightarrow> (0x08, 122)
     | LSM6DS3_ACCEL_RANGE_8 \<Rightarrow> (0x0C, 244) | LSM6DS3_ACCEL_RANGE_16 \<Rightarrow> (0x04, 488))"

definition accel_srate_code :: "accel_srate \<Rightarrow> u8" where
  "accel_srate_code r = (case r of LSM6DS3_ACCEL_SRATE_12dot5 \<Rightarrow> 0x10 | LSM6DS3_ACCEL_SRATE_26 \<Rightarrow> 0x20
     | LSM6DS3_ACCEL_SRATE_52 \<Rightarrow> 0x30 | LSM6DS3_ACCEL_SRATE_104 \<Rightarrow> 0x40 | LSM6DS3_ACCEL_SRATE_208 \<Rightarrow> 0x50
     | LSM6DS3_ACCEL_SRATE_416 \<Rightarrow> 0x60 | LSM6DS3_ACCEL_SRATE_833 \<Rightarrow> 0x70 | LSM6DS3_ACCEL_SRATE_1660 \<Rightarrow> 0x80
     | LSM6DS3_ACCEL_SRATE_3330 \<Rightarrow> 0x90 | LSM6DS3_ACCEL_SRATE_6660 \<Rightarrow> 0xA0)"

definition gyro_range_code :: "gyro_range \<Rightarrow> u8 \<times> int" where
  "gyro_range_code r = (case r of LSM6DS3_GYRO_RANGE_125 \<Rightarrow> (0x02, 4375) | LSM6DS3_GYRO_RANGE_245 \<Rightarrow> (0x00, 8750)
     | LSM6DS3_GYRO_RANGE_500 \<Rightarrow> (0x04, 17500) | LSM6DS3_GYRO_RANGE_1000 \<Rightarrow> (0x08, 35000)
     | LSM6DS3_GYRO_RANGE_2000 \<Rightarrow> (0x0C, 70000))"

definition gyro_srate_code :: "gyro_srate \<Rightarrow> u8" where
  "gyro_srate_code r = (case r of LSM6DS3_GYRO_SRATE_12dot5 \<Rightarrow> 0x10 | LSM6DS3_GYRO_SRATE_26 \<Rightarrow> 0x20
     | LSM6DS3_GYRO_SRATE_52 \<Rightarrow> 0x30 | LSM6DS3_GYRO_SRATE_104 \<Rightarrow> 0x40 | LSM6DS3_GYRO_SRATE_208 \<Rightarrow> 0x50
     | LSM6DS3_GYRO_SRATE_416 \<Rightarrow> 0x60 | LSM6DS3_GYRO_SRATE_833 \<Rightarrow> 0x70 | LSM6DS3_GYRO_SRATE_1660 \<Rightarrow> 0x80)"

text \<open>The two control bytes, and the factors set on the way.\<close>

definition accel_control :: "lsm6ds3_settings \<Rightarrow> u8" where
  "accel_control st =
     (if accelEnabled st then
        0 OR bw_code (accelFilterBandWidth st) OR fst (accel_range_code (accelRange st)) OR accel_srate_code (accelSampleRate st)
      else 0)"

definition gyro_control :: "lsm6ds3_settings \<Rightarrow> u8" where
  "gyro_control st =
     (if gyroEnabled st then 0 OR fst (gyro_range_code (gyroRange st)) OR gyro_srate_code (gyroSampleRate st) else 0)"

text \<open>A factor is a \<^verbatim>\<open>double\<close> literal assigned to a \<^verbatim>\<open>float\<close>.\<close>

definition factor :: "int \<Rightarrow> f32" where "factor n = f32_of_f64 (f64_lit n 1000)"

definition bandwidth_control :: "lsm6ds3_settings \<Rightarrow> u8 \<Rightarrow> u8" where
  "bandwidth_control st v =
     (v AND NOT 0x80) OR (if accelFilterBandWidth st = LSM6DS3_ACCEL_FILTER_BW_AUTO then 0x80 else 0)"

definition lsm6ds3_setup ::
  "'w hal \<Rightarrow> f32 lsm6ds3_t \<Rightarrow> lsm6ds3_settings \<Rightarrow> 'w bus_state \<Rightarrow> (int \<times> f32 lsm6ds3_t) \<times> 'w bus_state" where
  "lsm6ds3_setup H self st s =
     (let self1 = (if accelEnabled st then self\<lparr>acc_k := factor (snd (accel_range_code (accelRange st)))\<rparr> else self) in
      case writeRegister H self1 0x10 (accel_control st) s of (e1, s1) \<Rightarrow>
        if e1 \<noteq> 0 then ((e1, self1), s1)
        else case readRegister H self1 0x13 (accel_control st) s1 of ((e2, v), s2) \<Rightarrow>
          if e2 \<noteq> 0 then ((e2, self1), s2)
          else case writeRegister H self1 0x13 (bandwidth_control st v) s2 of (e3, s3) \<Rightarrow>
            if e3 \<noteq> 0 then ((e3, self1), s3)
            else
              let self2 = (if gyroEnabled st then self1\<lparr>gyro_k := factor (snd (gyro_range_code (gyroRange st)))\<rparr> else self1)
              in case writeRegister H self2 0x11 (gyro_control st) s3 of (e4, s4) \<Rightarrow> ((e4, self2), s4))"

section \<open>Readings\<close>

text \<open>The caller's buffer of 16-bit numbers, as bytes: a read overwrites its beginning with what the
  bus delivered. \<open>s16_le\<close> is the number at a byte offset (the processor is little-endian).\<close>

definition s16_le :: "u8 list \<Rightarrow> nat \<Rightarrow> int" where
  "s16_le buf k = signed_take_bit 15 (uint (buf ! k) + 256 * uint (buf ! (k + 1)))"

definition read_raw ::
  "u8 \<Rightarrow> nat \<Rightarrow> 'w hal \<Rightarrow> 'a lsm6ds3_t \<Rightarrow> u8 list \<Rightarrow> 'w bus_state \<Rightarrow> (int \<times> u8 list) \<times> 'w bus_state" where
  "read_raw addr n H self buf s =
     (case readRegisterRegion H self addr (2 * n) s of ((r, bs), s') \<Rightarrow>
       ((r, take (2 * n) bs @ drop (length (take (2 * n) bs)) buf), s'))"

definition lsm6ds3_acc_read_raw_X where "lsm6ds3_acc_read_raw_X = read_raw 0x28 1"
definition lsm6ds3_acc_read_raw_Y where "lsm6ds3_acc_read_raw_Y = read_raw 0x2A 1"
definition lsm6ds3_acc_read_raw_Z where "lsm6ds3_acc_read_raw_Z = read_raw 0x2C 1"
definition lsm6ds3_acc_read_raw_XYZ where "lsm6ds3_acc_read_raw_XYZ = read_raw 0x28 3"
definition lsm6ds3_gyro_read_raw_X where "lsm6ds3_gyro_read_raw_X = read_raw 0x22 1"
definition lsm6ds3_gyro_read_raw_Y where "lsm6ds3_gyro_read_raw_Y = read_raw 0x24 1"
definition lsm6ds3_gyro_read_raw_Z where "lsm6ds3_gyro_read_raw_Z = read_raw 0x26 1"
definition lsm6ds3_gyro_read_raw_XYZ where "lsm6ds3_gyro_read_raw_XYZ = read_raw 0x22 3"
definition lsm6ds3_acc_gyro_read_raw_all where "lsm6ds3_acc_gyro_read_raw_all = read_raw 0x22 6"

definition f32_of_int :: "int \<Rightarrow> f32" where "f32_of_int n = F32 (of_int_f binary32 n)"

definition lsm6ds3_acc_recalc :: "f32 lsm6ds3_t \<Rightarrow> int \<times> int \<times> int \<Rightarrow> f32 \<times> f32 \<times> f32" where
  "lsm6ds3_acc_recalc self = (\<lambda>(x, y, z).
     (f32_of_int x * acc_k self, f32_of_int y * acc_k self, f32_of_int z * acc_k self))"

definition lsm6ds3_gyro_recalc :: "f32 lsm6ds3_t \<Rightarrow> int \<times> int \<times> int \<Rightarrow> f32 \<times> f32 \<times> f32" where
  "lsm6ds3_gyro_recalc self = (\<lambda>(x, y, z).
     (f32_of_int x * gyro_k self, f32_of_int y * gyro_k self, f32_of_int z * gyro_k self))"

text \<open>The static error, over any arithmetic; \<open>ten\<close> is the number 10 in it. The result is the data
  after the call.\<close>

definition lsm6ds3_gyro_remove_static_error ::
  "'a::{plus,minus,inverse} \<Rightarrow> 'a lsm6ds3_t \<Rightarrow> 'a \<times> 'a \<times> 'a \<Rightarrow> ('a \<times> 'a \<times> 'a) \<times> 'a lsm6ds3_t" where
  "lsm6ds3_gyro_remove_static_error ten self data =
     (case (data, gyro_calibration_coeffs self) of ((x, y, z), (cx, cy, cz)) \<Rightarrow>
        if gyro_precalibration_cycles self > 10 then ((x - cx, y - cy, z - cz), self)
        else if gyro_precalibration_cycles self < 10 then
          (data, self\<lparr>gyro_calibration_coeffs := (cx + x, cy + y, cz + z),
                      gyro_precalibration_cycles := gyro_precalibration_cycles self + 1\<rparr>)
        else if gyro_precalibration_cycles self = 10 then
          (data, self\<lparr>gyro_calibration_coeffs := (cx / ten, cy / ten, cz / ten),
                      gyro_precalibration_cycles := gyro_precalibration_cycles self + 1\<rparr>)
        else (data, self))"

fun remove_static_errors ::
  "'a::{plus,minus,inverse} \<Rightarrow> 'a lsm6ds3_t \<Rightarrow> ('a \<times> 'a \<times> 'a) list \<Rightarrow> ('a \<times> 'a \<times> 'a) list \<times> 'a lsm6ds3_t" where
  "remove_static_errors ten self [] = ([], self)"
| "remove_static_errors ten self (d # ds) =
     (case lsm6ds3_gyro_remove_static_error ten self d of (o1, self') \<Rightarrow>
       case remove_static_errors ten self' ds of (os, self'') \<Rightarrow> (o1 # os, self''))"

section \<open>Setup writes the settings\<close>

text \<open>The codes of the three fields of a control byte do not overlap.\<close>

lemma accel_control_fields:
  "accelEnabled st \<Longrightarrow> accel_control st AND 0x03 = bw_code (accelFilterBandWidth st) \<and>
     accel_control st AND 0x0C = fst (accel_range_code (accelRange st)) \<and>
     accel_control st AND 0xF0 = accel_srate_code (accelSampleRate st)"
  by (cases "accelFilterBandWidth st"; cases "accelRange st"; cases "accelSampleRate st";
      simp add: accel_control_def bw_code_def accel_range_code_def accel_srate_code_def)

lemma gyro_control_fields:
  "gyroEnabled st \<Longrightarrow> gyro_control st AND 0x0E = fst (gyro_range_code (gyroRange st)) \<and>
     gyro_control st AND 0xF0 = gyro_srate_code (gyroSampleRate st)"
  by (cases "gyroRange st"; cases "gyroSampleRate st"; simp add: gyro_control_def gyro_range_code_def gyro_srate_code_def)

text \<open>The calls of a setup that meets no error.\<close>

lemma lsm6ds3_setup_calls:
  assumes "\<And>a r bs w. fst (hal_mem_write H 10000 a r bs w) = 0"
    and "\<And>a w. \<exists>w'. hal_mem_read H 10000 a 0x13 1 w = (0, [v], w')"
  shows "\<exists>w' self'. lsm6ds3_setup H self st (w, t) = ((0, self'), w', t @
    [MemWrite (address self) 0x10 [accel_control st], MemRead (address self) 0x13 1,
     MemWrite (address self) 0x13 [bandwidth_control st v], MemWrite (address self) 0x11 [gyro_control st]])"
proof -
  have wr: "writeRegister H d r x (w, t) =
      (0, snd (hal_mem_write H 10000 (address d) r [x] w), t @ [MemWrite (address d) r [x]])"
    for d :: "f32 lsm6ds3_t" and r x w t
    using assms(1) [of "address d" r "[x]" w] by (auto simp: writeRegister_def split: prod.split)
  obtain W where "\<And>a w. hal_mem_read H 10000 a 0x13 1 w = (0, [v], W a w)" using assms(2) by metis
  then have rd: "readRegister H d 0x13 old (w, t) = ((0, v), W (address d) w, t @ [MemRead (address d) 0x13 1])"
    for d :: "f32 lsm6ds3_t" and old w t
    by (simp add: readRegister_def readRegisterRegion_def)
  show ?thesis by (simp add: lsm6ds3_setup_def Let_def wr rd)
qed

section \<open>The static error\<close>

lemma coeffs_self: "gyro_calibration_coeffs self = c \<Longrightarrow> self\<lparr>gyro_calibration_coeffs := c\<rparr> = self"
  by (cases self) simp

lemma summing_cycles:
  "gyro_precalibration_cycles self + int n \<le> 10 \<Longrightarrow> gyro_calibration_coeffs self = (cx, cy, cz) \<Longrightarrow>
     remove_static_errors (10 :: real) self (replicate n (x, y, z) @ ds) =
       (case remove_static_errors 10 (self\<lparr>gyro_calibration_coeffs := (cx + n * x, cy + n * y, cz + n * z),
           gyro_precalibration_cycles := gyro_precalibration_cycles self + int n\<rparr>) ds of
        (os, self') \<Rightarrow> (replicate n (x, y, z) @ os, self'))"
proof (induction n arbitrary: self cx cy cz)
  case (Suc n)
  define s1 where "s1 = self\<lparr>gyro_calibration_coeffs := (cx + x, cy + y, cz + z),
      gyro_precalibration_cycles := gyro_precalibration_cycles self + 1\<rparr>"
  have "lsm6ds3_gyro_remove_static_error 10 self (x, y, z) = ((x, y, z), s1)"
    using Suc.prems by (simp add: lsm6ds3_gyro_remove_static_error_def s1_def)
  moreover have "gyro_precalibration_cycles s1 + int n \<le> 10" "gyro_calibration_coeffs s1 = (cx + x, cy + y, cz + z)"
    using Suc.prems by (simp_all add: s1_def)
  note Suc.IH [OF this]
  ultimately show ?case by (simp add: s1_def algebra_simps split: prod.split)
qed (simp add: split_beta coeffs_self)

lemma corrected_cycles:
  "gyro_precalibration_cycles self > 10 \<Longrightarrow> gyro_calibration_coeffs self = (cx, cy, cz) \<Longrightarrow>
     remove_static_errors ten self ds = (map (\<lambda>(x, y, z). (x - cx, y - cy, z - cz)) ds, self)"
  by (induction ds) (auto simp: lsm6ds3_gyro_remove_static_error_def split: prod.split)

text \<open>Static error removal, over the reals: a gyroscope that is still for its first ten samples and
  shows a constant error there is corrected by exactly that error from the twelfth sample on (the
  eleventh, on which the mean is taken, is still delivered as read).\<close>

theorem static_error_removed:
  assumes "gyro_precalibration_cycles self = 0" "gyro_calibration_coeffs self = (0, 0, 0)"
  shows "fst (remove_static_errors (10 :: real) self (replicate 10 (x, y, z) @ d # ds)) =
    replicate 10 (x, y, z) @ d # map (\<lambda>(u, v, w). (u - x, v - y, w - z)) ds"
proof -
  define s10 where "s10 = self\<lparr>gyro_calibration_coeffs := (10 * x, 10 * y, 10 * z), gyro_precalibration_cycles := 10\<rparr>"
  define s11 where "s11 = self\<lparr>gyro_calibration_coeffs := (x, y, z), gyro_precalibration_cycles := 11\<rparr>"
  have "lsm6ds3_gyro_remove_static_error 10 s10 d = (d, s11)"
    by (simp add: lsm6ds3_gyro_remove_static_error_def s10_def s11_def split: prod.split)
  moreover have "remove_static_errors 10 s11 ds = (map (\<lambda>(u, v, w). (u - x, v - y, w - z)) ds, s11)"
    by (rule corrected_cycles) (simp_all add: s11_def)
  ultimately show ?thesis
    using summing_cycles [of self 10 0 0 0 x y z "d # ds"] assms by (simp add: s10_def split: prod.split)
qed

lemma static_error_removed_witness:
  "fst (remove_static_errors (10 :: real) \<lparr>address = 0xD6, acc_k = 1, gyro_k = 1, gyro_precalibration_cycles = 0,
      gyro_calibration_coeffs = (0, 0, 0)\<rparr> (replicate 10 (1, 2, 3) @ (1, 2, 3) # [(6, 5, 4)])) =
    replicate 10 (1, 2, 3) @ (1, 2, 3) # [(5, 3, 1)]"
  by (subst static_error_removed) simp_all

end
