(* ===== verification/Drivers.thy ===== *)
theory Drivers
  imports Board_Ctl Devctl Magnetometer Lsm6ds3
begin

text \<open>
  The bus drivers together: the BMP280 board support, the device layer, the magnetometer and the
  inertial sensor, called in any order on one HAL. The property of the composition rests on the
  contract \<open>spi_transaction\<close> of each SPI function and on the I2C functions not touching a select.
\<close>

datatype driver_call =
    BrInit
  | BrRead u8 nat
  | BrWrite u8 "u8 list"
  | GrRead gr_interface gr_selector u8 nat
  | GrWrite gr_interface gr_selector u8 "u8 list"
  | GrSetParams gr_interface gr_params
  | MagRead LSM303C_t u8 nat nat
  | MagWrite LSM303C_t u8 "u8 list" nat
  | LsmSetup "f32 lsm6ds3_t" lsm6ds3_settings
  | LsmRead "f32 lsm6ds3_t" u8 nat

fun call :: "'w hal \<Rightarrow> driver_call \<Rightarrow> 'w bus_state \<Rightarrow> unit \<times> 'w bus_state" where
  "call H BrInit s = ((), brctl_init H s)"
| "call H (BrRead reg n) s = ((), snd (brctl_bmp280_reg_read H 0 reg n s))"
| "call H (BrWrite reg bs) s = ((), snd (brctl_bmp280_reg_write H 0 reg bs s))"
| "call H (GrRead f sel reg n) s = ((), snd (snd (gr_dev_readreg H f sel reg n s)))"
| "call H (GrWrite f sel reg bs) s = ((), snd (snd (gr_dev_writereg H f sel reg bs s)))"
| "call H (GrSetParams f p) s = ((), snd (snd (gr_if_set_params H f p s)))"
| "call H (MagRead self reg sens n) s = ((), snd (readmanyreg H self reg sens n s))"
| "call H (MagWrite self reg bs sens) s = ((), snd (writemanyreg H self reg bs sens s))"
| "call H (LsmSetup self st) s = ((), snd (lsm6ds3_setup H self st s))"
| "call H (LsmRead self reg n) s = ((), snd (readRegisterRegion H self reg n s))"

definition run_calls :: "'w hal \<Rightarrow> driver_call list \<Rightarrow> 'w bus_state \<Rightarrow> 'w bus_state" where
  "run_calls H cs s = fold (\<lambda>c s. snd (call H c s)) cs s"

section \<open>The I2C functions\<close>

lemma i2c_watch:
  "one_device None (snd s) = Some None \<Longrightarrow> one_device None (snd (snd (readRegisterRegion H self reg n s))) = Some None"
  "one_device None (snd s) = Some None \<Longrightarrow> one_device None (snd (snd (writeRegister H self reg v s))) = Some None"
  "one_device None (snd s) = Some None \<Longrightarrow> one_device None (snd (snd (readRegister H self reg v s))) = Some None"
  by (cases s; auto simp: readRegisterRegion_def writeRegister_def readRegister_def one_device_append split: prod.split)+

lemma setup_watch:
  "one_device None (snd s) = Some None \<Longrightarrow> one_device None (snd (snd (lsm6ds3_setup H self st s))) = Some None"
  by (simp add: lsm6ds3_setup_def Let_def split_beta i2c_watch)

lemma set_params_watch:
  "one_device None (snd s) = Some None \<Longrightarrow> one_device None (snd (snd (snd (gr_if_set_params H f p s)))) = Some None"
  by (cases s) (auto simp: gr_if_set_params_def take_mutex_def chparams_i2c_def chparams_spi_def chparams_def
      init_descr_def deinit_descr_def one_device_append Let_def split: prod.splits gr_if_type.splits option.splits if_splits)

lemma brctl_init_watch:
  "one_device None (snd s) = Some None \<Longrightarrow> one_device None (snd (brctl_init H s)) = Some None"
  by (cases s) (simp add: brctl_init_def deselect_def one_device_append)

lemma call_keeps_watch: "keeps_watch (call H c)"
  unfolding keeps_watch_def
  by (cases c) (simp_all add: br_read.keeps_watch br_write.keeps_watch gr_dev_readreg_watch gr_dev_writereg_watch
      mag_read.keeps_watch mag_write.keeps_watch setup_watch i2c_watch set_params_watch brctl_init_watch)

section \<open>The property\<close>

text \<open>C10. Whatever the drivers are asked to do, in any order and with any result of the HAL calls, errors
included: at every moment at most one device is selected, bytes move over SPI only while one is,
peripherals are configured and I2C is used only while none is, and at the end none is selected.\<close>

theorem drivers_one_device:
  "one_device None (snd (run_calls H cs (w, []))) = Some None"
  unfolding run_calls_def by (rule fold_keeps_watch) (simp_all add: call_keeps_watch list_all_iff)

text \<open>The watch holds at every moment: it is prefix-closed.\<close>

lemma one_device_prefix: "one_device sel (es @ fs) \<noteq> None \<Longrightarrow> one_device sel es \<noteq> None"
  by (cases "one_device sel es") (simp_all add: one_device_append)

end
