(* ===== verification/Imu_Main.thy ===== *)
theory Imu_Main
  imports Drivers Madgwick
begin

text \<open>
  The attitude program of \<^verbatim>\<open>research/Madgwick/Madgwick/src/main.c\<close>: a main loop at 200 Hz that reads the
  inertial sensor and the magnetometer into one buffer, scales, removes the static error, runs the
  filter and sends the result over a serial line. The tick counter, the delay and the serial line
  join the HAL as functions of the world. \<open>sqrt\<close> is the parameter \<open>sq\<close>, as in the filter.
\<close>

section \<open>State\<close>

record 'w board =
  board_hal :: "'w hal"
  HAL_GetTick :: "'w \<Rightarrow> u32 \<times> 'w"
  HAL_Delay :: "int \<Rightarrow> 'w \<Rightarrow> 'w"
  HAL_UART_Transmit :: "u8 list \<Rightarrow> 'w \<Rightarrow> 'w"

text \<open>The globals; \<open>data\<close> is the buffer \<^verbatim>\<open>int16_t data[6]\<close> as its twelve bytes.\<close>

record imu_main =
  acc :: "f32 lsm6ds3_t"
  lsm :: LSM303C_t
  data :: "u8 list"
  accel_data :: "f32 vec"
  gyro_data :: "f32 vec"
  mag_data :: "f32 vec"
  main_quat :: "f32 quat"
  main_beta :: f32
  endofcaltime :: u32

definition tick :: "'w board \<Rightarrow> 'w bus_state \<Rightarrow> u32 \<times> 'w bus_state" where
  "tick B = (\<lambda>(w, t). case HAL_GetTick B w of (k, w') \<Rightarrow> (k, w', t))"

definition uart_send :: "'w board \<Rightarrow> u8 list \<Rightarrow> 'w bus_state \<Rightarrow> 'w bus_state" where
  "uart_send B bs = (\<lambda>(w, t). (HAL_UART_Transmit B bs w, t))"

section \<open>One turn\<close>

definition raw3 :: "u8 list \<Rightarrow> nat \<Rightarrow> int \<times> int \<times> int" where
  "raw3 buf k = (s16_le buf k, s16_le buf (k + 2), s16_le buf (k + 4))"

text \<open>A driver call that stores what the bus delivered, at most \<open>n\<close> bytes, at the start of the buffer.\<close>

definition into_buffer :: "nat \<Rightarrow> u8 list \<Rightarrow> u8 list \<Rightarrow> u8 list" where
  "into_buffer n bs buf = take n bs @ drop (length (take n bs)) buf"

definition inertial :: "'w board \<Rightarrow> imu_main \<Rightarrow> 'w bus_state \<Rightarrow> imu_main \<times> 'w bus_state" where
  "inertial B s h =
     (case lsm6ds3_acc_gyro_read_raw_all (board_hal B) (acc s) (data s) h of ((_, buf), h') \<Rightarrow>
       let a = lsm6ds3_acc_recalc (acc s) (raw3 buf 6);
           g = lsm6ds3_gyro_recalc (acc s) (raw3 buf 0)
       in case lsm6ds3_gyro_remove_static_error (f32_lit 10 1) (acc s) g of (g', acc') \<Rightarrow>
         (s\<lparr>data := buf, accel_data := a, gyro_data := g', acc := acc'\<rparr>, h'))"

text \<open>\<^verbatim>\<open>data[i] * sign * 0.58 * 0.001\<close>, in \<^verbatim>\<open>double\<close>.\<close>

definition gauss :: "int \<Rightarrow> int \<Rightarrow> f32" where
  "gauss sign n = f32_of_f64 (F64 (of_int_f binary64 n) * f64_lit sign 1 * f64_lit 58 100 * f64_lit 1 1000)"

definition magnetic :: "'w board \<Rightarrow> imu_main \<Rightarrow> 'w bus_state \<Rightarrow> imu_main \<times> 'w bus_state" where
  "magnetic B s h =
     (case LSM303C_mag_getData (board_hal B) (lsm s) h of ((_, bs), h') \<Rightarrow>
       let buf = into_buffer 6 bs (data s) in
       (s\<lparr>data := buf,
          mag_data := (gauss (-1) (s16_le buf 2), gauss (-1) (s16_le buf 0), gauss 1 (s16_le buf 4))\<rparr>, h'))"

definition filter_step :: "(f64 \<Rightarrow> f64) \<Rightarrow> imu_main \<Rightarrow> imu_main" where
  "filter_step sq s =
     s\<lparr>main_quat := MadgwickAHRSupdate_200 sq (main_beta s) (gyro_data s) (accel_data s) (mag_data s) (main_quat s)\<rparr>"

text \<open>A \<^verbatim>\<open>float\<close> in memory: four bytes, the low one first.\<close>

definition float_bytes :: "f32 \<Rightarrow> u8 list" where
  "float_bytes x =
     (let w = f32_to_bits x in [ucast w, ucast (drop_bit 8 w), ucast (drop_bit 16 w), ucast (drop_bit 24 w)])"

definition report :: "'w board \<Rightarrow> imu_main \<Rightarrow> 'w bus_state \<Rightarrow> 'w bus_state" where
  "report B s h =
     (case tick B h of (t, h1) \<Rightarrow>
       if t mod 50 < 5 then
         case (main_quat s, accel_data s) of ((q0, q1, q2, q3), (ax, ay, az)) \<Rightarrow>
           fold (\<lambda>x. uart_send B (float_bytes x)) [q0, q1, q2, q3, ax, ay, az] h1
       else h1)"

definition lower_gain :: "'w board \<Rightarrow> imu_main \<Rightarrow> 'w bus_state \<Rightarrow> imu_main \<times> 'w bus_state" where
  "lower_gain B s h =
     (if \<not> feq (of_f64 (f64_of_f32 (main_beta s))) (of_f64 (f64_lit 66 1000)) then
        case tick B h of (t, h1) \<Rightarrow>
          (if t > endofcaltime s then s\<lparr>main_beta := f32_of_f64 (f64_lit 66 1000)\<rparr> else s, h1)
      else (s, h))"

definition routine :: "(f64 \<Rightarrow> f64) \<Rightarrow> 'w board \<Rightarrow> imu_main \<Rightarrow> 'w bus_state \<Rightarrow> imu_main \<times> 'w bus_state" where
  "routine sq B s h =
     (case inertial B s h of (s1, h1) \<Rightarrow>
      case magnetic B s1 h1 of (s2, h2) \<Rightarrow>
      let s3 = filter_step sq s2; h3 = report B s3 h2
      in lower_gain B s3 h3)"

section \<open>The loop\<close>

definition SAMPLE_FREQ_Hz :: nat where "SAMPLE_FREQ_Hz = 200"

text \<open>The time that is left of a period, as \<^verbatim>\<open>int32_t\<close>.\<close>

definition loop_delta :: "u32 \<Rightarrow> u32 \<Rightarrow> int" where
  "loop_delta start now = sint (start + of_nat (1000 div SAMPLE_FREQ_Hz) - now)"

definition main_turn :: "(f64 \<Rightarrow> f64) \<Rightarrow> 'w board \<Rightarrow> imu_main \<Rightarrow> 'w bus_state \<Rightarrow> imu_main \<times> 'w bus_state" where
  "main_turn sq B s h =
     (case tick B h of (start, h1) \<Rightarrow>
      case routine sq B s h1 of (s', h2) \<Rightarrow>
      case tick B h2 of (now, h3) \<Rightarrow>
        let delta = loop_delta start now in
        (s', if delta > 0 then (case h3 of (w, t) \<Rightarrow> (HAL_Delay B delta w, t)) else h3))"

section \<open>Start\<close>

definition M_PI :: f64 where "M_PI = f64_lit 314159265358979323846 100000000000000000000"

definition lsm_settings :: lsm6ds3_settings where
  "lsm_settings = \<lparr>tempEnabled = True, gyroEnabled = True, gyroRange = LSM6DS3_GYRO_RANGE_2000,
     gyroSampleRate = LSM6DS3_GYRO_SRATE_104, accelEnabled = True, accelRange = LSM6DS3_ACCEL_RANGE_16,
     accelSampleRate = LSM6DS3_ACCEL_SRATE_104, accelFilterBandWidth = LSM6DS3_ACCEL_FILTER_BW_AUTO\<rparr>"

text \<open>\<^verbatim>\<open>LSM303C_DATARATE_800Hz\<close> is 6, \<^verbatim>\<open>LSM303C_POWERMODE_MEDIUM\<close> is 1.\<close>

definition mag_settings :: LSM303C_config_t where
  "mag_settings = \<lparr>temp_en = True, power_mode = 1, data_rate = 6\<rparr>"

definition main_lsm :: LSM303C_t where
  "main_lsm = \<lparr>cs_port = GPIOA, acc_cs_pin = 4, mag_cs_pin = 2\<rparr>"

definition zeroed :: imu_main where
  "zeroed = \<lparr>acc = \<lparr>address = 0xD6, acc_k = 0, gyro_k = 0, gyro_precalibration_cycles = 0, gyro_calibration_coeffs = (0, 0, 0)\<rparr>,
     lsm = main_lsm, data = replicate 12 0, accel_data = (0, 0, 0), gyro_data = (0, 0, 0), mag_data = (0, 0, 0),
     main_quat = (1, 0, 0, 0), main_beta = f32_lit 10 1, endofcaltime = 0\<rparr>"

text \<open>The scale factors, from mg and mdps to g and radians per second.\<close>

definition scale_factors :: "f32 lsm6ds3_t \<Rightarrow> f32 lsm6ds3_t" where
  "scale_factors a = a\<lparr>acc_k := f32_of_f64 (f64_of_f32 (acc_k a) * f64_lit 1 1000),
     gyro_k := f32_of_f64 (f64_of_f32 (gyro_k a) * (f64_lit 1 1000 * M_PI / f64_lit 180 1))\<rparr>"

text \<open>Every result of \<^verbatim>\<open>init_hardware\<close> is stored in a global that nothing reads.\<close>

definition init_hardware :: "'w board \<Rightarrow> 'w bus_state \<Rightarrow> imu_main \<times> 'w bus_state" where
  "init_hardware B = (\<lambda>(w, t).
     let H = board_hal B;
         h1 = (snd (hal_init H I2C1 100000 w), t @ [Init I2C1 100000])
     in case lsm6ds3_setup H (acc zeroed) lsm_settings h1 of ((_, acc'), (w2, t2)) \<Rightarrow>
          let s = zeroed\<lparr>acc := scale_factors acc'\<rparr>;
              h3 = (snd (hal_init H SPI1 SPI_BAUDRATEPRESCALER_256 w2), t2 @ [Init SPI1 SPI_BAUDRATEPRESCALER_256])
          in (s, snd (LSM303C_mag_setup H (lsm s) mag_settings h3)))"

definition main_start :: "'w board \<Rightarrow> 'w bus_state \<Rightarrow> imu_main \<times> 'w bus_state" where
  "main_start B h =
     (case init_hardware B h of (s, h1) \<Rightarrow>
      case tick B h1 of (t, h2) \<Rightarrow> (s\<lparr>endofcaltime := t + 10000\<rparr>, h2))"

fun main_run :: "(f64 \<Rightarrow> f64) \<Rightarrow> 'w board \<Rightarrow> nat \<Rightarrow> imu_main \<times> 'w bus_state \<Rightarrow> imu_main \<times> 'w bus_state" where
  "main_run sq B 0 x = x"
| "main_run sq B (Suc n) x = main_run sq B n (case x of (s, h) \<Rightarrow> main_turn sq B s h)"

section \<open>The period\<close>

text \<open>The delay fills the period to five milliseconds, also when the tick counter wraps in between; a
turn that took longer is not delayed.\<close>

lemma loop_delta_fills:
  assumes "unat (now - start) \<le> 2 ^ 31"
  shows "loop_delta start now = 5 - int (unat (now - start))"
proof -
  define e where "e = now - start"
  have "loop_delta start now = sint (5 - e)"
    unfolding loop_delta_def by (rule arg_cong [of _ _ sint]) (simp add: SAMPLE_FREQ_Hz_def e_def)
  moreover have "sint (5 - e) = 5 - int (unat e)"
  proof -
    have "uint (5 - e) = take_bit 32 (5 - uint e)" by (simp add: uint_word_arith_bintrs)
    then have "sint (5 - e) = signed_take_bit 31 (5 - uint e)"
      by (simp add: sint_uint signed_take_bit_take_bit)
    also have "\<dots> = 5 - uint e"
    proof (rule signed_take_bit_int_eq_self)
      have "uint e \<le> 2 ^ 31" using assms by (metis e_def of_nat_le_iff of_nat_numeral of_nat_power uint_nat)
      then show "- (2 ^ 31) \<le> 5 - uint e" by simp
      have "0 \<le> uint e" by simp
      then have "5 - uint e < 2147483648" by linarith
      then show "5 - uint e < 2 ^ 31" by simp
    qed
    finally show ?thesis by simp
  qed
  ultimately show ?thesis unfolding e_def by (rule trans)
qed

section \<open>The buffer\<close>

lemma read_raw_all_length:
  "length buf = 12 \<Longrightarrow> length (snd (fst (lsm6ds3_acc_gyro_read_raw_all H a buf h))) = 12"
  by (auto simp: lsm6ds3_acc_gyro_read_raw_all_def read_raw_def split: prod.split)

lemma into_buffer_length: "length buf = 12 \<Longrightarrow> length (into_buffer 6 bs buf) = 12"
  by (simp add: into_buffer_def)

lemma inertial_length: "length (data s) = 12 \<Longrightarrow> length (data (fst (inertial B s h))) = 12"
  using read_raw_all_length [of "data s" "board_hal B" "acc s" h]
  by (auto simp: inertial_def Let_def split: prod.splits)

lemma magnetic_length: "length (data s) = 12 \<Longrightarrow> length (data (fst (magnetic B s h))) = 12"
  by (auto simp: magnetic_def Let_def into_buffer_length split: prod.splits)

lemma filter_step_frame [simp]:
  "data (filter_step sq s) = data s" "gyro_data (filter_step sq s) = gyro_data s"
  "mag_data (filter_step sq s) = mag_data s" "acc (filter_step sq s) = acc s"
  by (simp_all add: filter_step_def)

lemma lower_gain_frame [simp]:
  "data (fst (lower_gain B s h)) = data s" "gyro_data (fst (lower_gain B s h)) = gyro_data s"
  "mag_data (fst (lower_gain B s h)) = mag_data s" "acc (fst (lower_gain B s h)) = acc s"
  by (auto simp: lower_gain_def split: prod.splits)

lemma routine_length: "length (data s) = 12 \<Longrightarrow> length (data (fst (routine sq B s h))) = 12"
  by (simp add: routine_def Let_def split_beta magnetic_length inertial_length)

section \<open>The bus\<close>

abbreviation quiet :: "'w bus_state \<Rightarrow> bool" where
  "quiet h \<equiv> one_device None (snd h) = Some None"

lemma quiet_frame [simp]:
  "snd (snd (tick B h)) = snd h" "snd (uart_send B bs h) = snd h" "snd (report B s h) = snd h"
  "snd (snd (lower_gain B s h)) = snd h"
  subgoal by (cases h) (simp add: tick_def split: prod.split)
  subgoal by (cases h) (simp add: uart_send_def)
  subgoal by (cases h) (auto simp: report_def tick_def uart_send_def split: prod.split)
  subgoal by (cases h) (auto simp: lower_gain_def tick_def split: prod.split)
  done

lemma inertial_quiet: "quiet h \<Longrightarrow> quiet (snd (inertial B s h))"
  using i2c_watch(1) [of h "board_hal B" "acc s" "0x22" 12]
  by (auto simp: inertial_def lsm6ds3_acc_gyro_read_raw_all_def read_raw_def Let_def split: prod.splits)

lemma magnetic_quiet: "quiet h \<Longrightarrow> quiet (snd (magnetic B s h))"
  using mag_read.keeps_watch [of None h "board_hal B" "lsm s" "0x28" SENS_MAG 6]
  by (auto simp: magnetic_def LSM303C_mag_getData_def Let_def split: prod.splits)

lemma routine_quiet: "quiet h \<Longrightarrow> quiet (snd (routine sq B s h))"
  by (simp add: routine_def Let_def split_beta magnetic_quiet inertial_quiet)

lemma main_turn_quiet: "quiet h \<Longrightarrow> quiet (snd (main_turn sq B s h))"
  by (simp add: main_turn_def Let_def split_beta routine_quiet)

lemma main_turn_length: "length (data s) = 12 \<Longrightarrow> length (data (fst (main_turn sq B s h))) = 12"
  by (simp add: main_turn_def Let_def split_beta routine_length)

lemma main_run_invariant:
  "length (data (fst x)) = 12 \<Longrightarrow> quiet (snd x) \<Longrightarrow>
     length (data (fst (main_run sq B n x))) = 12 \<and> quiet (snd (main_run sq B n x))"
proof (induction n arbitrary: x)
  case (Suc n)
  then show ?case
    using main_turn_length [of "fst x" sq B "snd x"] main_turn_quiet [of "snd x" sq B "fst x"]
    by (cases x) simp
qed simp

lemma init_quiet: "quiet (snd (init_hardware B (w, [])))"
  by (simp add: init_hardware_def Let_def split_beta LSM303C_mag_setup_def mag_write.keeps_watch
      one_device_append setup_watch)

lemma init_length: "length (data (fst (init_hardware B h))) = 12"
  by (cases h) (simp add: init_hardware_def Let_def zeroed_def split: prod.split)

text \<open>C19. The attitude program never leaves its buffer and never disturbs its bus: whatever the sensors and
the HAL return, after the start and any number of turns the buffer of raw values has its twelve
bytes, and the bus calls made so far respect the chip selects.\<close>

theorem main_run_safe:
  "length (data (fst (main_run sq B n (main_start B (w, []))))) = 12
 \<and> one_device None (snd (snd (main_run sq B n (main_start B (w, []))))) = Some None"
proof (rule main_run_invariant)
  show "length (data (fst (main_start B (w, [])))) = 12"
    by (simp add: main_start_def split_beta init_length)
  show "quiet (snd (main_start B (w, [])))"
    by (simp add: main_start_def split_beta init_quiet)
qed

section \<open>A failed read\<close>

lemma routine_gyro:
  assumes "lsm6ds3_acc_gyro_read_raw_all (board_hal B) (acc s) (data s) h = ((e, data s), h')"
  shows "gyro_data (fst (routine sq B s h)) =
     fst (lsm6ds3_gyro_remove_static_error (f32_lit 10 1) (acc s) (lsm6ds3_gyro_recalc (acc s) (raw3 (data s) 0)))"
  using assms by (simp add: routine_def inertial_def magnetic_def Let_def split_beta)

lemma routine_mag:
  "mag_data (fst (routine sq B s h)) =
     (case raw3 (data (fst (routine sq B s h))) 0 of (x, y, z) \<Rightarrow> (gauss (-1) y, gauss (-1) x, gauss 1 z))"
  by (simp add: routine_def magnetic_def Let_def split_beta raw3_def numeral_2_eq_2)

text \<open>Both sensors are read into one buffer and no result of a read is looked at: in a turn in which
the inertial sensor fails to answer and leaves the buffer alone, what the filter takes for the rates
of rotation are the counts of the magnetometer of the turn before, scaled as rates (and they enter the
static error while that is being measured).\<close>

theorem failed_read_takes_magnetometer:
  assumes turn: "routine sq B s h = (s1, h1)"
    and failed: "lsm6ds3_acc_gyro_read_raw_all (board_hal B) (acc s1) (data s1) h1 = ((e, data s1), h2)"
  shows "\<exists>x y z. mag_data s1 = (gauss (-1) y, gauss (-1) x, gauss 1 z)
     \<and> gyro_data (fst (routine sq B s1 h1)) =
         fst (lsm6ds3_gyro_remove_static_error (f32_lit 10 1) (acc s1) (lsm6ds3_gyro_recalc (acc s1) (x, y, z)))"
  using routine_mag [of sq B s h] routine_gyro [OF failed, of sq] turn
  by (cases "raw3 (data s1) 0") auto

definition deaf_board :: "unit board" where
  "deaf_board = \<lparr>board_hal = demo_hal\<lparr>hal_mem_read := (\<lambda>_ _ _ _ w. (1, [], w)),
       hal_rx := (\<lambda>_ _ w. (0, [1, 0, 2, 0, 3, 0], w))\<rparr>,
     HAL_GetTick = (\<lambda>w. (100, w)), HAL_Delay = (\<lambda>_ w. w), HAL_UART_Transmit = (\<lambda>_ w. w)\<rparr>"

lemma failed_read_takes_magnetometer_witness:
  "\<exists>s1 h1 x y z. routine id deaf_board zeroed ((), []) = (s1, h1)
     \<and> mag_data s1 = (gauss (-1) y, gauss (-1) x, gauss 1 z)
     \<and> gyro_data (fst (routine id deaf_board s1 h1)) =
         fst (lsm6ds3_gyro_remove_static_error (f32_lit 10 1) (acc s1) (lsm6ds3_gyro_recalc (acc s1) (x, y, z)))"
proof -
  obtain s1 h1 where r: "routine id deaf_board zeroed ((), []) = (s1, h1)" by (cases "routine id deaf_board zeroed ((), [])")
  obtain h2 where "lsm6ds3_acc_gyro_read_raw_all (board_hal deaf_board) (acc s1) (data s1) h1 = ((1, data s1), h2)"
    by (cases h1) (auto simp: lsm6ds3_acc_gyro_read_raw_all_def read_raw_def readRegisterRegion_def deaf_board_def demo_hal_def)
  from failed_read_takes_magnetometer [OF r this] r show ?thesis by blast
qed

end
