(* ===== verification/Imu_Pins.thy ===== *)
theory Imu_Pins
  imports Imu_Main
begin

text \<open>
  The peripherals and pins of the attitude program: the initialisations of \<open>init_hardware\<close> in their order
  with the callbacks the HAL makes for them (\<^verbatim>\<open>HAL_I2C_MspInit\<close>, \<^verbatim>\<open>HAL_UART_MspInit\<close>, \<^verbatim>\<open>HAL_SPI_MspInit\<close> in
  \<^verbatim>\<open>main.c\<close>), and the pins afterwards. Pull and speed are the same everywhere and left out.
\<close>

section \<open>The callbacks\<close>

datatype instance_name = BusInstance periph | USART1

datatype pin_role = AF_PP | AF_OD | OUTPUT_PP
datatype af = AF4_I2C1 | AF7_USART1 | AF5_SPI1

datatype imu_call =
    ClkOf instance_name
  | PortClk gpio_port
  | PinInit gpio_port u16 pin_role af

text \<open>\<open>None\<close> is \<open>abort()\<close>.\<close>

definition HAL_I2C_MspInit :: "instance_name \<Rightarrow> imu_call list option" where
  "HAL_I2C_MspInit i =
     (if i = BusInstance I2C1
      then Some [ClkOf i, PortClk GPIOB, PinInit GPIOB (push_bit 6 1 OR push_bit 7 1) AF_PP AF4_I2C1]
      else None)"

definition HAL_UART_MspInit :: "instance_name \<Rightarrow> imu_call list option" where
  "HAL_UART_MspInit i =
     (if i = USART1 then Some [ClkOf i, PortClk GPIOA, PinInit GPIOA (push_bit 9 1) AF_OD AF7_USART1] else None)"

definition HAL_SPI_MspInit :: "instance_name \<Rightarrow> imu_call list option" where
  "HAL_SPI_MspInit i =
     (if i = BusInstance SPI1
      then Some [ClkOf i, PortClk GPIOA, PinInit GPIOA (push_bit 5 1) AF_PP AF5_SPI1,
                 PinInit GPIOA (push_bit 7 1) AF_OD AF5_SPI1, PinInit GPIOA (push_bit 1 1) OUTPUT_PP AF5_SPI1]
      else None)"

text \<open>The three handles \<open>init_hardware\<close> fills and initialises, in its order, with the fields of \<open>Init\<close> it sets.
Each \<open>HAL_*_Init\<close> makes the callback for its handle.\<close>

datatype handle =
    I2C_Handle instance_name "(string \<times> string) list"
  | UART_Handle instance_name "(string \<times> string) list"
  | SPI_Handle instance_name "(string \<times> string) list"

definition i2c_handle :: handle where
  "i2c_handle = I2C_Handle (BusInstance I2C1)
     [(''AddressingMode'', ''I2C_ADDRESSINGMODE_7BIT''), (''ClockSpeed'', ''100000''),
      (''DualAddressMode'', ''I2C_DUALADDRESS_DISABLE''), (''DutyCycle'', ''I2C_DUTYCYCLE_2''),
      (''GeneralCallMode'', ''I2C_GENERALCALL_DISABLE''), (''NoStretchMode'', ''I2C_NOSTRETCH_DISABLE''),
      (''OwnAddress1'', ''0xFF''), (''OwnAddress2'', ''0xF8'')]"

definition uart_handle :: handle where
  "uart_handle = UART_Handle USART1
     [(''BaudRate'', ''115200''), (''HwFlowCtl'', ''UART_HWCONTROL_NONE''), (''Mode'', ''UART_MODE_TX''),
      (''OverSampling'', ''UART_OVERSAMPLING_8''), (''Parity'', ''UART_PARITY_NONE''),
      (''StopBits'', ''UART_STOPBITS_1''), (''WordLength'', ''UART_WORDLENGTH_8B'')]"

definition spi_handle :: handle where
  "spi_handle = SPI_Handle (BusInstance SPI1)
     [(''Mode'', ''SPI_MODE_MASTER''), (''Direction'', ''SPI_DIRECTION_1LINE''), (''DataSize'', ''SPI_DATASIZE_8BIT''),
      (''CLKPolarity'', ''SPI_POLARITY_LOW''), (''CLKPhase'', ''SPI_PHASE_1EDGE''), (''NSS'', ''SPI_NSS_SOFT''),
      (''BaudRatePrescaler'', ''SPI_BAUDRATEPRESCALER_256''), (''CRCCalculation'', ''SPI_CRCCALCULATION_DISABLE''),
      (''TIMode'', ''SPI_TIMODE_DISABLE''), (''FirstBit'', ''SPI_FIRSTBIT_MSB'')]"

fun msp_init :: "handle \<Rightarrow> imu_call list option" where
  "msp_init (I2C_Handle i s) = HAL_I2C_MspInit i"
| "msp_init (UART_Handle i s) = HAL_UART_MspInit i"
| "msp_init (SPI_Handle i s) = HAL_SPI_MspInit i"

definition pin_setup :: "imu_call list option" where
  "pin_setup =
     do {
       i2c \<leftarrow> msp_init i2c_handle;
       uart \<leftarrow> msp_init uart_handle;
       spi \<leftarrow> msp_init spi_handle;
       Some (i2c @ uart @ spi)
     }"

section \<open>The pins\<close>

fun role_of :: "pin \<Rightarrow> imu_call list \<Rightarrow> pin_role option" where
  "role_of p [] = None"
| "role_of p (c # cs) =
     (case role_of p cs of
        Some r \<Rightarrow> Some r
      | None \<Rightarrow>
          (case c of
             PinInit port pins role alt \<Rightarrow> if port = fst p \<and> pins AND snd p = snd p then Some role else None
           | _ \<Rightarrow> None))"

text \<open>Pins configured on a port whose clock is not on yet.\<close>

fun dark :: "gpio_port list \<Rightarrow> imu_call list \<Rightarrow> gpio_port list" where
  "dark on [] = []"
| "dark on (PortClk p # cs) = dark (p # on) cs"
| "dark on (PinInit p pins role alt # cs) = (if p \<in> set on then [] else [p]) @ dark on cs"
| "dark on (ClkOf i # cs) = dark on cs"

text \<open>The callbacks never abort, every pin is configured with its port's clock on, and the pin the
magnetometer is selected with is an output. The select pin of the accelerometer in the same chip is
not configured: it floats, and \<open>LSM303C_acc_getData\<close> would drive nothing.\<close>

lemma pin_setup_selects:
  "\<exists>cs. pin_setup = Some cs \<and> dark [] cs = []
     \<and> role_of (cs_port main_lsm, mag_cs_pin main_lsm) cs = Some OUTPUT_PP
     \<and> role_of (cs_port main_lsm, acc_cs_pin main_lsm) cs = None"
proof -
  have "pin_setup = Some (the pin_setup)" by code_simp
  moreover have "dark [] (the pin_setup) = []" "role_of (cs_port main_lsm, mag_cs_pin main_lsm) (the pin_setup) = Some OUTPUT_PP"
    "role_of (cs_port main_lsm, acc_cs_pin main_lsm) (the pin_setup) = None"
    by code_simp+
  ultimately show ?thesis by blast
qed

end
