(* ===== verification/Servo.thy ===== *)
theory Servo
  imports Cansat_Prelude Float_Types
begin

text \<open>
  The servo controller (\<^verbatim>\<open>src/board/servo_ctl/Project/stm8_granum_servo_ctl\<close>): an STM8 that is an
  I2C slave and sets the compare register of a timer. \<open>i2c_regs\<close> is what one entry of the
  interrupt finds in the I2C peripheral; \<open>servo\<close> is the handler's static state and the registers
  it writes. \<open>I2C_GetLastEvent\<close>, \<open>I2C_ReceiveData\<close>, \<open>TIM2_SetCompare1\<close> and \<open>GPIO_WriteReverse\<close> are
  those of the peripheral library beside it.
\<close>

section \<open>Registers and state\<close>

record i2c_regs =
  SR1 :: u8
  SR2 :: u8
  SR3 :: u8
  DR :: u8

datatype bite_state = STATE_1BITE | STATE_2BITE

record servo =
  bite :: bite_state
  Slave_Buffer_Rx :: "u8 list"
  CCR1H :: u8
  CCR1L :: u8
  PC_ODR :: u8
  CR2 :: u8
  dr_reads :: nat
  compares :: "u16 list"

text \<open>The last two fields observe: how often \<open>DR\<close> was read, and the values the compare register took.\<close>

definition I2C_SR2_AF :: u8 where "I2C_SR2_AF = 4"
definition I2C_CR2_ACK :: u8 where "I2C_CR2_ACK = 4"
definition GPIO_PIN_3 :: u8 where "GPIO_PIN_3 = 8"
definition I2C_EVENT_SLAVE_RECEIVER_ADDRESS_MATCHED :: u16 where
  "I2C_EVENT_SLAVE_RECEIVER_ADDRESS_MATCHED = 0x0202"
definition I2C_EVENT_SLAVE_BYTE_RECEIVED :: u16 where "I2C_EVENT_SLAVE_BYTE_RECEIVED = 0x0240"
definition I2C_EVENT_SLAVE_STOP_DETECTED :: u16 where "I2C_EVENT_SLAVE_STOP_DETECTED = 0x0010"
definition I2C_EVENT_SLAVE_ACK_FAILURE :: u16 where "I2C_EVENT_SLAVE_ACK_FAILURE = 0x0004"

lemmas i2c_event_defs = I2C_EVENT_SLAVE_RECEIVER_ADDRESS_MATCHED_def I2C_EVENT_SLAVE_BYTE_RECEIVED_def
  I2C_EVENT_SLAVE_STOP_DETECTED_def I2C_EVENT_SLAVE_ACK_FAILURE_def

definition word_of_bytes :: "u8 \<Rightarrow> u8 \<Rightarrow> u16" where
  "word_of_bytes h l = push_bit 8 (ucast h) OR ucast l"

definition I2C_GetLastEvent :: "i2c_regs \<Rightarrow> u16" where
  "I2C_GetLastEvent r =
     (if SR2 r AND I2C_SR2_AF \<noteq> 0 then I2C_EVENT_SLAVE_ACK_FAILURE else word_of_bytes (SR3 r) (SR1 r))"

definition I2C_ReceiveData :: "i2c_regs \<Rightarrow> servo \<Rightarrow> u8 \<times> servo" where
  "I2C_ReceiveData r s = (DR r, s\<lparr>dr_reads := dr_reads s + 1\<rparr>)"

definition TIM2_SetCompare1 :: "u16 \<Rightarrow> servo \<Rightarrow> servo" where
  "TIM2_SetCompare1 c s = s\<lparr>CCR1H := ucast (drop_bit 8 c), CCR1L := ucast c, compares := compares s @ [c]\<rparr>"

definition GPIO_WriteReverse :: "u8 \<Rightarrow> servo \<Rightarrow> servo" where
  "GPIO_WriteReverse pins s = s\<lparr>PC_ODR := PC_ODR s XOR pins\<rparr>"

text \<open>The pointer cast of the handler: the STM8 is big-endian.\<close>

definition u16_at :: "u8 list \<Rightarrow> u16" where
  "u16_at b = word_of_bytes (b ! 0) (b ! 1)"

section \<open>The interrupt handler\<close>

definition store_byte :: "i2c_regs \<Rightarrow> servo \<Rightarrow> servo" where
  "store_byte r s =
     (let (b, s') = I2C_ReceiveData r s; i = (case bite s of STATE_1BITE \<Rightarrow> 0 | STATE_2BITE \<Rightarrow> 1)
      in s'\<lparr>Slave_Buffer_Rx := (Slave_Buffer_Rx s')[i := b]\<rparr>)"

definition byte_received :: "i2c_regs \<Rightarrow> servo \<Rightarrow> servo" where
  "byte_received r s =
     (case bite s of
        STATE_1BITE \<Rightarrow> (store_byte r s)\<lparr>bite := STATE_2BITE\<rparr>
      | STATE_2BITE \<Rightarrow>
          let s1 = GPIO_WriteReverse GPIO_PIN_3 s;
              s2 = store_byte r s1;
              s3 = TIM2_SetCompare1 (u16_at (Slave_Buffer_Rx s2)) s2
          in s3\<lparr>bite := STATE_1BITE\<rparr>)"

definition clear_errors :: "i2c_regs \<Rightarrow> i2c_regs" where
  "clear_errors r = (if SR2 r \<noteq> 0 then r\<lparr>SR2 := 0\<rparr> else r)"

definition I2C_IRQHandler :: "i2c_regs \<Rightarrow> servo \<Rightarrow> servo" where
  "I2C_IRQHandler regs s =
     (let r = clear_errors regs; Event = I2C_GetLastEvent r in
      if Event = I2C_EVENT_SLAVE_RECEIVER_ADDRESS_MATCHED then s\<lparr>bite := STATE_1BITE\<rparr>
      else if Event = I2C_EVENT_SLAVE_BYTE_RECEIVED then byte_received r s
      else if Event = I2C_EVENT_SLAVE_STOP_DETECTED then s\<lparr>CR2 := CR2 s OR I2C_CR2_ACK\<rparr>
      else s)"

definition servo_init :: servo where
  "servo_init = \<lparr>bite = STATE_1BITE, Slave_Buffer_Rx = [0, 0], CCR1H = ucast (drop_bit 8 (4000 :: u16)),
     CCR1L = ucast (4000 :: u16), PC_ODR = 0, CR2 = I2C_CR2_ACK, dr_reads = 0, compares = []\<rparr>"

section \<open>The specification: pairs of bytes of each transfer\<close>

datatype i2c_event = AddressMatched | ByteReceived u8 | Other

definition event_of :: "i2c_regs \<Rightarrow> i2c_event" where
  "event_of r =
     (if SR3 r = 2 \<and> SR1 r = 2 then AddressMatched
      else if SR3 r = 2 \<and> SR1 r = 64 then ByteReceived (DR r) else Other)"

fun transfers_of :: "u8 list \<Rightarrow> i2c_event list \<Rightarrow> u8 list list" where
  "transfers_of acc [] = [acc]"
| "transfers_of acc (AddressMatched # es) = acc # transfers_of [] es"
| "transfers_of acc (ByteReceived b # es) = transfers_of (acc @ [b]) es"
| "transfers_of acc (Other # es) = transfers_of acc es"

fun pairs :: "u8 list \<Rightarrow> u16 list" where
  "pairs (h # l # bs) = word_of_bytes h l # pairs bs"
| "pairs _ = []"

definition setpoints :: "i2c_event list \<Rightarrow> u16 list" where
  "setpoints es = concat (map pairs (transfers_of [] es))"

lemma pairs_snoc_even: "even (length bs) \<Longrightarrow> pairs (bs @ [b]) = pairs bs"
  by (induction bs rule: pairs.induct) auto

lemma pairs_snoc_odd: "odd (length bs) \<Longrightarrow> pairs (bs @ [b]) = pairs bs @ [word_of_bytes (last bs) b]"
  by (induction bs rule: pairs.induct) auto

section \<open>Lemmas\<close>

lemma word_of_bytes_bytes:
  "ucast (drop_bit 8 (word_of_bytes h l)) = h" "ucast (word_of_bytes h l) = l"
  unfolding word_of_bytes_def
  by (rule bit_word_eqI, auto simp: bit_simps dest: bit_imp_le_length)+

lemma word_of_bytes_eq_iff: "word_of_bytes h l = word_of_bytes h' l' \<longleftrightarrow> h = h' \<and> l = l'"
  by (metis word_of_bytes_bytes)

lemma events_as_bytes:
  "I2C_EVENT_SLAVE_RECEIVER_ADDRESS_MATCHED = word_of_bytes 2 2"
  "I2C_EVENT_SLAVE_BYTE_RECEIVED = word_of_bytes 2 64"
  "I2C_EVENT_SLAVE_STOP_DETECTED = word_of_bytes 0 16"
  by (simp_all add: i2c_event_defs word_of_bytes_def)

lemma last_event: "I2C_GetLastEvent (clear_errors r) = word_of_bytes (SR3 r) (SR1 r)"
  by (simp add: I2C_GetLastEvent_def clear_errors_def)

lemma clear_errors_DR [simp]: "DR (clear_errors r) = DR r"
  by (simp add: clear_errors_def)

lemma handler_cases:
  "I2C_IRQHandler r s =
     (case event_of r of
        AddressMatched \<Rightarrow> s\<lparr>bite := STATE_1BITE\<rparr>
      | ByteReceived b \<Rightarrow> byte_received (clear_errors r) s
      | Other \<Rightarrow> if SR3 r = 0 \<and> SR1 r = 16 then s\<lparr>CR2 := CR2 s OR I2C_CR2_ACK\<rparr> else s)"
  by (auto simp: I2C_IRQHandler_def Let_def last_event events_as_bytes word_of_bytes_eq_iff event_of_def)

text \<open>The buffer has its two bytes, and the register holds the last value set.\<close>

definition servo_ok :: "u8 list \<Rightarrow> servo \<Rightarrow> bool" where
  "servo_ok acc s \<longleftrightarrow>
     length (Slave_Buffer_Rx s) = 2
   \<and> (if even (length acc) then bite s = STATE_1BITE
       else bite s = STATE_2BITE \<and> Slave_Buffer_Rx s ! 0 = last acc)"

lemma byte_received_first:
  "servo_ok acc s \<Longrightarrow> even (length acc) \<Longrightarrow>
     servo_ok (acc @ [DR r]) (byte_received r s) \<and> compares (byte_received r s) = compares s"
  by (auto simp: servo_ok_def byte_received_def store_byte_def I2C_ReceiveData_def nth_list_update)

lemma byte_received_second:
  "servo_ok acc s \<Longrightarrow> odd (length acc) \<Longrightarrow>
     servo_ok (acc @ [DR r]) (byte_received r s)
   \<and> compares (byte_received r s) = compares s @ [word_of_bytes (last acc) (DR r)]"
  by (auto simp: servo_ok_def byte_received_def store_byte_def I2C_ReceiveData_def GPIO_WriteReverse_def
      TIM2_SetCompare1_def u16_at_def nth_list_update Let_def)

lemma byte_received_pairs:
  assumes "servo_ok acc s" and "compares s = done @ pairs acc"
  shows "servo_ok (acc @ [DR r]) (byte_received r s)
       \<and> compares (byte_received r s) = done @ pairs (acc @ [DR r])"
  using byte_received_first [OF assms(1), of r] byte_received_second [OF assms(1), of r] assms(2)
  by (cases "even (length acc)") (auto simp: pairs_snoc_even pairs_snoc_odd)

lemma handler_refines:
  assumes "servo_ok acc s" and "compares s = done @ pairs acc"
  shows "compares (fold I2C_IRQHandler rs s)
       = done @ concat (map pairs (transfers_of acc (map event_of rs)))"
  using assms
proof (induction rs arbitrary: acc s "done")
  case (Cons r rs)
  show ?case
  proof (cases "event_of r")
    case AddressMatched
    with Cons.IH [of "[]" "s\<lparr>bite := STATE_1BITE\<rparr>" "done @ pairs acc"] Cons.prems
    show ?thesis by (simp add: handler_cases servo_ok_def)
  next
    case (ByteReceived b)
    then have "b = DR r" by (auto simp: event_of_def split: if_splits)
    with ByteReceived Cons.IH byte_received_pairs [OF Cons.prems, of "clear_errors r"]
    show ?thesis by (simp add: handler_cases)
  next
    case Other
    with Cons.IH [of acc _ "done"] Cons.prems show ?thesis by (simp add: handler_cases servo_ok_def)
  qed
qed simp

section \<open>Properties\<close>

text \<open>C21. Whatever sequence of interrupts the controller sees after reset, the values its compare
register takes are exactly the big-endian pairs of the bytes of each transfer: a transfer starts
at an address match, an odd last byte is dropped, and a broken transfer does not shift the pairs
of the next one.\<close>

theorem servo_setpoints:
  "compares (fold I2C_IRQHandler rs servo_init) = setpoints (map event_of rs)"
  using handler_refines [of "[]" servo_init "[]" rs]
  by (simp add: servo_ok_def servo_init_def setpoints_def)

text \<open>A byte is taken out of the data register only by the exact event "byte received". When
the flags BTF or STOPF are up beside RXNE, the handler returns with nothing read and nothing
acknowledged: it changes no state at all, so the interrupt that the flags keep raising finds the
same registers again, however often it runs.\<close>

theorem servo_overrun_ignored:
  assumes rxne: "bit (SR1 r) 6" and more: "bit (SR1 r) 2 \<or> bit (SR1 r) 4"
  shows "(I2C_IRQHandler r ^^ n) s = s"
proof -
  have "SR1 r \<noteq> 2" "SR1 r \<noteq> 64" "SR1 r \<noteq> 16"
    using assms by (auto simp: bit_numeral_rec)
  then have "I2C_IRQHandler r s = s" for s
    by (simp add: handler_cases event_of_def)
  then show ?thesis by (induction n) simp_all
qed

lemma servo_overrun_ignored_witness:
  "(I2C_IRQHandler \<lparr>SR1 = 0x44, SR2 = 0, SR3 = 2, DR = 7\<rparr> ^^ 3) servo_init = servo_init"
  by (rule servo_overrun_ignored) (simp_all add: bit_numeral_rec)

section \<open>The angle of the servo\<close>

text \<open>The arithmetic of \<open>rotate\<close>: SDCC's \<^verbatim>\<open>double\<close> is binary32; the conversion to \<^verbatim>\<open>uint16_t\<close> is
undefined outside the type.\<close>

definition rotate_time :: "int \<Rightarrow> int option" where
  "rotate_time angle =
     to_int_f 0 65535 (of_f32 (F32 (of_int_f binary32 angle) div f32_lit 180 1 * f32_lit 3600 1 + f32_lit 1600 1))"

definition rotate :: "int \<Rightarrow> servo \<Rightarrow> servo option" where
  "rotate angle s = map_option (\<lambda>time. TIM2_SetCompare1 (word_of_int time) s) (rotate_time angle)"

lemma rotate_time_table: "list_all (\<lambda>a. rotate_time a = Some (20 * a + 1600)) [0..180]"
  by code_simp

text \<open>From 0 to 180 degrees the two roundings of \<open>rotate\<close> cancel: the time is exactly 20 ticks
for a degree above 1600, and the timer gets it.\<close>

theorem rotate_exact:
  assumes "0 \<le> angle" and "angle \<le> 180"
  shows "map_option compares (rotate angle s) = Some (compares s @ [word_of_int (20 * angle + 1600)])"
proof -
  have "rotate_time angle = Some (20 * angle + 1600)"
    using rotate_time_table assms by (auto simp: list_all_iff)
  then show ?thesis by (simp add: rotate_def TIM2_SetCompare1_def)
qed

lemma rotate_exact_witness:
  "map_option compares (rotate 90 servo_init) = Some (compares servo_init @ [word_of_int (20 * 90 + 1600)])"
  by (rule rotate_exact) simp_all

end
