(* ===== verification/Servo_Setup.thy ===== *)
theory Servo_Setup
  imports Servo
begin

text \<open>
  The start of the servo controller: \<open>main\<close> of \<^verbatim>\<open>stm8_granum_servo_ctl/main.c\<close> at register level, with the
  functions of the STM8 library that it calls, and what the timer makes of the registers. The interrupt
  handler of \<open>Servo\<close> then runs on the registers as \<open>main\<close> has left them.
\<close>

section \<open>Registers\<close>

record i2c_dev =
  I2C_CR1 :: u8
  I2C_CR2 :: u8
  I2C_FREQR :: u8
  I2C_OARL :: u8
  I2C_OARH :: u8
  I2C_ITR :: u8
  I2C_CCRL :: u8
  I2C_CCRH :: u8
  I2C_TRISER :: u8

record tim2_dev =
  TIM2_CR1 :: u8
  TIM2_CCMR1 :: u8
  TIM2_CCER1 :: u8
  TIM2_PSCR :: u8
  TIM2_ARRH :: u8
  TIM2_ARRL :: u8
  TIM2_CCR1H :: u8
  TIM2_CCR1L :: u8

record gpio_dev =
  GPIO_ODR :: u8
  GPIO_DDR :: u8
  GPIO_CR1 :: u8
  GPIO_CR2 :: u8

record stm8 =
  CLK_CKDIVR :: u8
  tim2 :: tim2_dev
  i2c :: i2c_dev
  gpioc :: gpio_dev
  gpiod :: gpio_dev
  interrupts :: bool

text \<open>After reset: the HSI divided by eight, the auto-reload register full.\<close>

definition gpio_reset :: gpio_dev where
  "gpio_reset = \<lparr>GPIO_ODR = 0, GPIO_DDR = 0, GPIO_CR1 = 0, GPIO_CR2 = 0\<rparr>"

definition stm8_reset :: stm8 where
  "stm8_reset =
     \<lparr>CLK_CKDIVR = 0x18,
      tim2 = \<lparr>TIM2_CR1 = 0, TIM2_CCMR1 = 0, TIM2_CCER1 = 0, TIM2_PSCR = 0, TIM2_ARRH = 0xFF, TIM2_ARRL = 0xFF,
        TIM2_CCR1H = 0, TIM2_CCR1L = 0\<rparr>,
      i2c = \<lparr>I2C_CR1 = 0, I2C_CR2 = 0, I2C_FREQR = 0, I2C_OARL = 0, I2C_OARH = 0, I2C_ITR = 0, I2C_CCRL = 0,
        I2C_CCRH = 0, I2C_TRISER = 2\<rparr>,
      gpioc = gpio_reset, gpiod = gpio_reset, interrupts = False\<rparr>"

section \<open>The library\<close>

text \<open>Clearing the bits of a mask, and \<open>FunctionalState\<close> for one mask.\<close>

definition clear :: "u8 \<Rightarrow> u8 \<Rightarrow> u8" where "clear m r = r AND NOT m"

definition set_or_clear :: "bool \<Rightarrow> u8 \<Rightarrow> u8 \<Rightarrow> u8" where
  "set_or_clear enable m r = (if enable then r OR m else clear m r)"

definition CLK_HSIPrescalerConfig :: "u8 \<Rightarrow> stm8 \<Rightarrow> stm8" where
  "CLK_HSIPrescalerConfig p m = m\<lparr>CLK_CKDIVR := clear 0x18 (CLK_CKDIVR m) OR p\<rparr>"

definition TIM2_TimeBaseInit :: "u8 \<Rightarrow> u16 \<Rightarrow> tim2_dev \<Rightarrow> tim2_dev" where
  "TIM2_TimeBaseInit prescaler period t =
     t\<lparr>TIM2_PSCR := prescaler, TIM2_ARRH := ucast (drop_bit 8 period), TIM2_ARRL := ucast period\<rparr>"

definition TIM2_OC1Init :: "u8 \<Rightarrow> u8 \<Rightarrow> u16 \<Rightarrow> u8 \<Rightarrow> tim2_dev \<Rightarrow> tim2_dev" where
  "TIM2_OC1Init mode state pulse polarity t =
     (let t1 = t\<lparr>TIM2_CCER1 := clear (0x01 OR 0x02) (TIM2_CCER1 t)\<rparr>;
          t2 = t1\<lparr>TIM2_CCER1 := TIM2_CCER1 t1 OR ((state AND 0x01) OR (polarity AND 0x02))\<rparr>;
          t3 = t2\<lparr>TIM2_CCMR1 := clear 0x70 (TIM2_CCMR1 t2) OR mode\<rparr>
      in t3\<lparr>TIM2_CCR1H := ucast (drop_bit 8 pulse), TIM2_CCR1L := ucast pulse\<rparr>)"

definition TIM2_OC1PreloadConfig :: "bool \<Rightarrow> tim2_dev \<Rightarrow> tim2_dev" where
  "TIM2_OC1PreloadConfig enable t = t\<lparr>TIM2_CCMR1 := set_or_clear enable 0x08 (TIM2_CCMR1 t)\<rparr>"

definition TIM2_Cmd :: "bool \<Rightarrow> tim2_dev \<Rightarrow> tim2_dev" where
  "TIM2_Cmd enable t = t\<lparr>TIM2_CR1 := set_or_clear enable 0x01 (TIM2_CR1 t)\<rparr>"

definition I2C_DeInit :: "i2c_dev \<Rightarrow> i2c_dev" where
  "I2C_DeInit r =
     r\<lparr>I2C_CR1 := 0, I2C_CR2 := 0, I2C_FREQR := 0, I2C_OARL := 0, I2C_OARH := 0, I2C_ITR := 0, I2C_CCRL := 0,
       I2C_CCRH := 0, I2C_TRISER := 2\<rparr>"

datatype i2c_ack = I2C_ACK_NONE | I2C_ACK_CURR | I2C_ACK_NEXT

definition I2C_AcknowledgeConfig :: "i2c_ack \<Rightarrow> i2c_dev \<Rightarrow> i2c_dev" where
  "I2C_AcknowledgeConfig ack r =
     (if ack = I2C_ACK_NONE then r\<lparr>I2C_CR2 := clear 0x04 (I2C_CR2 r)\<rparr>
      else let r1 = r\<lparr>I2C_CR2 := I2C_CR2 r OR 0x04\<rparr> in
        if ack = I2C_ACK_CURR then r1\<lparr>I2C_CR2 := clear 0x08 (I2C_CR2 r1)\<rparr>
        else r1\<lparr>I2C_CR2 := I2C_CR2 r1 OR 0x08\<rparr>)"

text \<open>The clock control value and the rise time. The quotient is of 32 bits and cut to 16; \<open>None\<close> is
a division by zero.\<close>

definition ccr_value :: "u8 \<Rightarrow> u32 \<Rightarrow> u16 \<Rightarrow> u16 option" where
  "ccr_value mhz divisor least =
     (if divisor = 0 then None
      else let result = ucast (ucast mhz * 1000000 div divisor) in Some (if result < least then least else result))"

definition i2c_timing :: "u32 \<Rightarrow> bool \<Rightarrow> u8 \<Rightarrow> (u16 \<times> u8 \<times> u8) option" where
  "i2c_timing out_hz duty_16_9 mhz =
     (if out_hz > 100000 then
        map_option (\<lambda>ccr. (ccr, 0x80 OR (if duty_16_9 then 0x40 else 0), ucast (ucast mhz * 3 div 10 + 1 :: u16)))
          (ccr_value mhz (out_hz * (if duty_16_9 then 25 else 3)) 0x0001)
      else map_option (\<lambda>ccr. (ccr, 0, mhz + 1)) (ccr_value mhz (push_bit 1 out_hz) 0x0004))"

definition I2C_Init :: "u32 \<Rightarrow> u16 \<Rightarrow> bool \<Rightarrow> i2c_ack \<Rightarrow> u8 \<Rightarrow> u8 \<Rightarrow> i2c_dev \<Rightarrow> i2c_dev option" where
  "I2C_Init out_hz own duty_16_9 ack addmode mhz r =
     (let r1 = r\<lparr>I2C_FREQR := clear 0x3F (I2C_FREQR r) OR mhz\<rparr>;
          r2 = r1\<lparr>I2C_CR1 := clear 0x01 (I2C_CR1 r1)\<rparr>;
          r3 = r2\<lparr>I2C_CCRH := clear (0x80 OR 0x40 OR 0x0F) (I2C_CCRH r2), I2C_CCRL := clear 0xFF (I2C_CCRL r2)\<rparr>
      in map_option (\<lambda>(result, tmpccrh, triser).
           let r4 = r3\<lparr>I2C_TRISER := triser, I2C_CCRL := ucast result,
                 I2C_CCRH := (ucast (drop_bit 8 result) AND 0x0F) OR tmpccrh\<rparr>;
               r5 = r4\<lparr>I2C_CR1 := I2C_CR1 r4 OR 0x01\<rparr>;
               r6 = I2C_AcknowledgeConfig ack r5
           in r6\<lparr>I2C_OARL := ucast own, I2C_OARH := (addmode OR 0x40) OR ucast (drop_bit 7 (own AND 0x0300))\<rparr>)
         (i2c_timing out_hz duty_16_9 mhz))"

definition I2C_ITConfig :: "u8 \<Rightarrow> bool \<Rightarrow> i2c_dev \<Rightarrow> i2c_dev" where
  "I2C_ITConfig it enable r = r\<lparr>I2C_ITR := set_or_clear enable it (I2C_ITR r)\<rparr>"

definition GPIO_Init :: "u8 \<Rightarrow> u8 \<Rightarrow> gpio_dev \<Rightarrow> gpio_dev" where
  "GPIO_Init pin mode g =
     (let g1 = g\<lparr>GPIO_CR2 := clear pin (GPIO_CR2 g)\<rparr>;
          g2 = (if mode AND 0x80 \<noteq> 0 then
                  let g' = g1\<lparr>GPIO_ODR := set_or_clear (mode AND 0x10 \<noteq> 0) pin (GPIO_ODR g1)\<rparr>
                  in g'\<lparr>GPIO_DDR := GPIO_DDR g' OR pin\<rparr>
                else g1\<lparr>GPIO_DDR := clear pin (GPIO_DDR g1)\<rparr>);
          g3 = g2\<lparr>GPIO_CR1 := set_or_clear (mode AND 0x40 \<noteq> 0) pin (GPIO_CR1 g2)\<rparr>
      in g3\<lparr>GPIO_CR2 := set_or_clear (mode AND 0x20 \<noteq> 0) pin (GPIO_CR2 g3)\<rparr>)"

section \<open>\<open>main\<close>\<close>

definition SLAVE_ADDRESS :: u16 where "SLAVE_ADDRESS = 0x13"

definition blink :: "stm8 \<Rightarrow> stm8" where
  "blink m = m\<lparr>gpioc := (gpioc m)\<lparr>GPIO_ODR := GPIO_ODR (gpioc m) XOR push_bit 3 1\<rparr>\<rparr>"

definition servo_main :: "stm8 \<Rightarrow> stm8 option" where
  "servo_main m =
     (let m1 = CLK_HSIPrescalerConfig 0x00 m;
          t = TIM2_OC1PreloadConfig True (TIM2_OC1Init 0x70 0x11 4000 0x22 (TIM2_TimeBaseInit 0x03 39624 (tim2 m1)))
      in map_option (\<lambda>i.
           let m2 = m1\<lparr>tim2 := t, i2c := I2C_ITConfig (0x01 OR 0x02 OR 0x04) True i\<rparr>;
               m3 = m2\<lparr>interrupts := True\<rparr>;
               m4 = m3\<lparr>tim2 := TIM2_Cmd True (tim2 m3)\<rparr>
           in m4\<lparr>gpioc := GPIO_Init GPIO_PIN_3 0xA0 (gpioc m4), gpiod := GPIO_Init 0x10 0xD0 (gpiod m4)\<rparr>)
         (I2C_Init 100000 SLAVE_ADDRESS False I2C_ACK_CURR 0x00 16 (I2C_DeInit (i2c m1))))"

section \<open>The timer\<close>

text \<open>The output of channel 1, as the manual of the chip describes it: a counter that runs from 0 to the
auto-reload value, the two PWM modes that compare it, the polarity, and enable bits for the channel
and the counter. The frequency is the HSI's, divided by the clock's and the timer's prescalers.\<close>

definition tim2_period :: "tim2_dev \<Rightarrow> nat" where
  "tim2_period t = unat (word_of_bytes (TIM2_ARRH t) (TIM2_ARRL t)) + 1"

definition pwm_high :: "tim2_dev \<Rightarrow> nat \<Rightarrow> bool" where
  "pwm_high t cnt =
     (let below = cnt < unat (word_of_bytes (TIM2_CCR1H t) (TIM2_CCR1L t));
          active = (TIM2_CCMR1 t AND 0x70 = 0x60 \<and> below \<or> TIM2_CCMR1 t AND 0x70 = 0x70 \<and> \<not> below)
      in TIM2_CCER1 t AND 0x01 \<noteq> 0 \<and> TIM2_CR1 t AND 0x01 \<noteq> 0 \<and> (active \<longleftrightarrow> TIM2_CCER1 t AND 0x02 = 0))"

definition high_ticks :: "tim2_dev \<Rightarrow> nat" where
  "high_ticks t = length (filter (pwm_high t) [0..<tim2_period t])"

definition tick_ns :: "stm8 \<Rightarrow> nat" where
  "tick_ns m = 2 ^ unat (drop_bit 3 (CLK_CKDIVR m AND 0x18)) * 2 ^ unat (TIM2_PSCR (tim2 m)) * 1000 div 16"

text \<open>The address a slave answers to in 7-bit mode, and the registers of the interrupt handler.\<close>

definition own_address :: "i2c_dev \<Rightarrow> u8" where "own_address r = drop_bit 1 (I2C_OARL r)"

definition servo_of :: "stm8 \<Rightarrow> servo" where
  "servo_of m =
     \<lparr>bite = STATE_1BITE, Slave_Buffer_Rx = [0, 0], CCR1H = TIM2_CCR1H (tim2 m), CCR1L = TIM2_CCR1L (tim2 m),
      PC_ODR = GPIO_ODR (gpioc m), CR2 = I2C_CR2 (i2c m), dr_reads = 0, compares = []\<rparr>"

text \<open>The timer after interrupts.\<close>

definition tim2_after :: "i2c_regs list \<Rightarrow> stm8 \<Rightarrow> tim2_dev" where
  "tim2_after rs m =
     (let s = fold I2C_IRQHandler rs (servo_of m) in (tim2 m)\<lparr>TIM2_CCR1H := CCR1H s, TIM2_CCR1L := CCR1L s\<rparr>)"

section \<open>Properties\<close>

text \<open>After reset, \<open>main\<close> leaves the registers that the handler's model starts with, the interrupts on, the
slave address that the programs of the Raspberry Pi use, and ticks of half a microsecond.\<close>

definition servo_started :: stm8 where
  "servo_started =
     \<lparr>CLK_CKDIVR = 0,
      tim2 = \<lparr>TIM2_CR1 = 0x01, TIM2_CCMR1 = 0x78, TIM2_CCER1 = 0x03, TIM2_PSCR = 3, TIM2_ARRH = 0x9A, TIM2_ARRL = 0xC8,
        TIM2_CCR1H = 0x0F, TIM2_CCR1L = 0xA0\<rparr>,
      i2c = \<lparr>I2C_CR1 = 0x01, I2C_CR2 = 0x04, I2C_FREQR = 16, I2C_OARL = 0x13, I2C_OARH = 0x40, I2C_ITR = 0x07,
        I2C_CCRL = 80, I2C_CCRH = 0, I2C_TRISER = 17\<rparr>,
      gpioc = \<lparr>GPIO_ODR = 0, GPIO_DDR = 0x08, GPIO_CR1 = 0, GPIO_CR2 = 0x08\<rparr>,
      gpiod = \<lparr>GPIO_ODR = 0x10, GPIO_DDR = 0x10, GPIO_CR1 = 0x10, GPIO_CR2 = 0\<rparr>,
      interrupts = True\<rparr>"

lemma i2c_standard: "i2c_timing 100000 False 16 = Some (80, 0, 17)"
  by (simp add: i2c_timing_def ccr_value_def Let_def push_bit_eq_mult)

lemma servo_main_started: "servo_main stm8_reset = Some servo_started"
  unfolding servo_main_def I2C_Init_def i2c_standard by code_simp

lemma servo_main_registers:
  "servo_of servo_started = servo_init" "own_address (i2c servo_started) = 0x09" "I2C_OARH (i2c servo_started) AND 0x80 = 0"
  by code_simp+

lemma servo_timer:
  "TIM2_CCMR1 (tim2 servo_started) = 0x78" "TIM2_CCER1 (tim2 servo_started) = 0x03" "TIM2_CR1 (tim2 servo_started) = 0x01"
  "tim2_period (tim2 servo_started) = 39625" "tick_ns servo_started = 500"
  by (simp_all add: servo_started_def tim2_period_def word_of_bytes_def tick_ns_def push_bit_eq_mult)

lemma handler_compare:
  assumes "word_of_bytes (CCR1H s) (CCR1L s) = last (v # compares s)"
  shows "word_of_bytes (CCR1H (I2C_IRQHandler r s)) (CCR1L (I2C_IRQHandler r s)) = last (v # compares (I2C_IRQHandler r s))"
proof -
  have split: "word_of_bytes (ucast (drop_bit 8 w)) (ucast w) = w" for w :: u16
    unfolding word_of_bytes_def by (rule bit_word_eqI) (auto simp: bit_simps)
  show ?thesis using assms
    by (auto simp: handler_cases byte_received_def store_byte_def I2C_ReceiveData_def GPIO_WriteReverse_def
        TIM2_SetCompare1_def Let_def split split: i2c_event.split bite_state.split)
qed

lemma handlers_compare:
  "word_of_bytes (CCR1H s) (CCR1L s) = last (v # compares s) \<Longrightarrow>
    word_of_bytes (CCR1H (fold I2C_IRQHandler rs s)) (CCR1L (fold I2C_IRQHandler rs s)) = last (v # compares (fold I2C_IRQHandler rs s))"
  by (induction rs arbitrary: s) (simp_all add: handler_compare)

lemma filter_below: "length (filter (\<lambda>i. i < k) [0..<n]) = min k n"
  by (induction n) auto

text \<open>C20. From reset to the servo: after \<open>main\<close> and any sequence of interrupts the output pin is high for as many
ticks of each period as the last pair of bytes received says (4000, two milliseconds, before the first),
at most for the whole period; the period has 39625 ticks of 500 ns, just under 20 ms, and the controller
answers to the address 9 that the Raspberry Pi sends to.\<close>

theorem servo_pulse:
  "\<exists>m. servo_main stm8_reset = Some m \<and> own_address (i2c m) = 0x09 \<and> tick_ns m = 500 \<and> tim2_period (tim2_after rs m) = 39625
     \<and> high_ticks (tim2_after rs m) = min (unat (last (4000 # setpoints (map event_of rs)))) 39625"
proof -
  let ?s = "fold I2C_IRQHandler rs servo_init" and ?t = "tim2_after rs servo_started"
  have t: "?t = (tim2 servo_started)\<lparr>TIM2_CCR1H := CCR1H ?s, TIM2_CCR1L := CCR1L ?s\<rparr>"
    by (simp add: tim2_after_def servo_main_registers(1) Let_def)
  have "word_of_bytes (CCR1H servo_init) (CCR1L servo_init) = last (4000 # compares servo_init)" by code_simp
  then have "word_of_bytes (CCR1H ?s) (CCR1L ?s) = last (4000 # compares ?s)" by (rule handlers_compare)
  moreover have "compares ?s = setpoints (map event_of rs)"
    using handler_refines [of "[]" servo_init "[]" rs] by (simp add: servo_ok_def servo_init_def setpoints_def)
  ultimately have "pwm_high ?t = (\<lambda>i. i < unat (last (4000 # setpoints (map event_of rs))))"
    by (simp add: fun_eq_iff t pwm_high_def servo_timer Let_def)
  moreover have "tim2_period ?t = 39625" using servo_timer(4) by (simp add: t tim2_period_def)
  ultimately have "high_ticks ?t = min (unat (last (4000 # setpoints (map event_of rs)))) 39625"
    by (simp add: high_ticks_def filter_below)
  then show ?thesis using servo_main_started servo_main_registers(2) servo_timer(5) \<open>tim2_period ?t = 39625\<close> by blast
qed

end
