(* ===== verification/Timer.thy ===== *)
theory Timer
  imports Cansat_Prelude
begin

text \<open>
  The delay loop of the test programs (\<^verbatim>\<open>research/Madgwick/Madgwick/src/Timer.c\<close>): a busy wait on
  a counter that the SysTick interrupt decrements. The wait and the interrupt interleave, so the
  model is a run over a schedule: \<open>Poll\<close> is one test of the loop's condition, \<open>Tick\<close> one
  \<open>SysTick_Handler\<close>. The wait is not bounded by anything in the code; that it ends is a property
  of the schedule.
\<close>

record timer =
  timer_delayCount :: u32
  uwTick :: u32

datatype sched = Poll | Tick

definition HAL_IncTick :: "timer \<Rightarrow> timer" where
  "HAL_IncTick s = s\<lparr>uwTick := uwTick s + 1\<rparr>"

definition timer_tick :: "timer \<Rightarrow> timer" where
  "timer_tick s =
     (if timer_delayCount s \<noteq> 0 then s\<lparr>timer_delayCount := timer_delayCount s - 1\<rparr> else s)"

definition SysTick_Handler :: "timer \<Rightarrow> timer" where
  "SysTick_Handler s = timer_tick (HAL_IncTick s)"

text \<open>The busy wait, over a schedule; \<open>None\<close> when the schedule ends and the loop has not. The result
is the state at the test that ends the loop and what is left of the schedule.\<close>

fun busy_wait :: "sched list \<Rightarrow> timer \<Rightarrow> (timer \<times> sched list) option" where
  "busy_wait [] s = None"
| "busy_wait (Tick # es) s = busy_wait es (SysTick_Handler s)"
| "busy_wait (Poll # es) s = (if timer_delayCount s \<noteq> 0 then busy_wait es s else Some (s, es))"

definition timer_sleep :: "u32 \<Rightarrow> sched list \<Rightarrow> timer \<Rightarrow> (timer \<times> sched list) option" where
  "timer_sleep ticks es s = busy_wait es (s\<lparr>timer_delayCount := ticks\<rparr>)"

text \<open>The reference: the number of ticks before the wait ends.\<close>

definition ticks_in :: "sched list \<Rightarrow> nat" where
  "ticks_in es = length (filter (\<lambda>e. e = Tick) es)"

lemma ticks_in_simps [simp]:
  "ticks_in [] = 0" "ticks_in (Tick # es) = Suc (ticks_in es)" "ticks_in (Poll # es) = ticks_in es"
  "ticks_in (es @ fs) = ticks_in es + ticks_in fs"
  by (simp_all add: ticks_in_def)

lemma handler_count: "unat (timer_delayCount (SysTick_Handler s)) = unat (timer_delayCount s) - 1"
  by (auto simp: SysTick_Handler_def timer_tick_def HAL_IncTick_def unat_minus_one)

lemma handler_uwTick: "uwTick (SysTick_Handler s) = uwTick s + 1"
  by (simp add: SysTick_Handler_def timer_tick_def HAL_IncTick_def)

lemma busy_wait_returns:
  assumes "unat (timer_delayCount s) \<le> ticks_in es"
  shows "\<exists>s' fs. busy_wait (es @ Poll # rest) s = Some (s', fs)"
  using assms
proof (induction es arbitrary: s)
  case Nil then show ?case by (simp add: unat_eq_zero)
next
  case (Cons e es) then show ?case by (cases e) (auto simp: handler_count)
qed

lemma busy_wait_waits:
  assumes "busy_wait es s = Some (s', fs)"
  shows "\<exists>ds. es = ds @ Poll # fs \<and> unat (timer_delayCount s) \<le> ticks_in ds
     \<and> timer_delayCount s' = 0 \<and> uwTick s' = uwTick s + of_nat (ticks_in ds)"
  using assms
proof (induction es arbitrary: s)
  case (Cons e es)
  show ?case
  proof (cases e)
    case Tick
    with Cons.prems have "busy_wait es (SysTick_Handler s) = Some (s', fs)" by simp
    from Cons.IH [OF this] obtain ds where ds: "es = ds @ Poll # fs"
        "unat (timer_delayCount (SysTick_Handler s)) \<le> ticks_in ds" "timer_delayCount s' = 0"
        "uwTick s' = uwTick (SysTick_Handler s) + of_nat (ticks_in ds)" by blast
    then show ?thesis using Tick
      by (intro exI [of _ "Tick # ds"]) (auto simp: handler_count handler_uwTick add.assoc)
  next
    case Poll
    show ?thesis
    proof (cases "timer_delayCount s = 0")
      case True
      with Cons.prems Poll show ?thesis by (intro exI [of _ "[]"]) auto
    next
      case False
      with Cons.prems Poll have "busy_wait es s = Some (s', fs)" by simp
      from Cons.IH [OF this] obtain ds where "es = ds @ Poll # fs"
          "unat (timer_delayCount s) \<le> ticks_in ds" "timer_delayCount s' = 0"
          "uwTick s' = uwTick s + of_nat (ticks_in ds)" by blast
      then show ?thesis using Poll by (intro exI [of _ "Poll # ds"]) auto
    qed
  qed
qed simp

text \<open>C38. \<open>timer_sleep\<close> ends, on every schedule that has at least the requested ticks and tests
the condition after them, however the ticks and the tests are interleaved; and when it ends, at
least the requested number of ticks has passed, none of them lost to the tick count of the HAL.\<close>

theorem timer_sleep_terminates:
  assumes "unat ticks \<le> ticks_in es"
  shows "\<exists>s' ds fs. timer_sleep ticks (es @ Poll # rest) s = Some (s', fs)
     \<and> es @ Poll # rest = ds @ Poll # fs \<and> unat ticks \<le> ticks_in ds
     \<and> uwTick s' = uwTick s + of_nat (ticks_in ds)"
proof -
  have "unat (timer_delayCount (s\<lparr>timer_delayCount := ticks\<rparr>)) \<le> ticks_in es" using assms by simp
  from busy_wait_returns [OF this, of rest] obtain s' fs
    where w: "busy_wait (es @ Poll # rest) (s\<lparr>timer_delayCount := ticks\<rparr>) = Some (s', fs)" by blast
  from busy_wait_waits [OF w] w show ?thesis by (auto simp: timer_sleep_def)
qed

lemma timer_sleep_terminates_witness:
  "\<exists>s' ds fs. timer_sleep 2 ([Poll, Tick, Tick, Tick] @ Poll # []) \<lparr>timer_delayCount = 0, uwTick = 5\<rparr> = Some (s', fs)
     \<and> [Poll, Tick, Tick, Tick] @ Poll # [] = ds @ Poll # fs \<and> unat (2 :: u32) \<le> ticks_in ds
     \<and> uwTick s' = uwTick \<lparr>timer_delayCount = 0, uwTick = 5\<rparr> + of_nat (ticks_in ds)"
  by (rule timer_sleep_terminates) simp

end
