(* ===== verification/Humidity.thy ===== *)
theory Humidity
  imports Cansat_Prelude Float_Types
begin

text \<open>
  The humidity sensor test of the Raspberry Pi (\<^verbatim>\<open>src/board/rpi/hum-test\<close>): \<open>am2320_get_data\<close> opens
  the I2C device, wakes the sensor, asks for four registers and decodes the reply; \<^verbatim>\<open>main\<close> calls it
  for ever. The device is a parameter. The descriptor table is modelled as POSIX has it: \<^verbatim>\<open>open\<close>
  takes the lowest free number and fails when the table is full; nothing here ever closes one.
\<close>

section \<open>The process and the device\<close>

record 'w i2c_dev =
  dev_open :: "'w \<Rightarrow> bool \<times> 'w"
  dev_ioctl :: "u8 \<Rightarrow> 'w \<Rightarrow> int \<times> 'w"
  dev_write :: "u8 list \<Rightarrow> 'w \<Rightarrow> int \<times> 'w"
  dev_read :: "nat \<Rightarrow> 'w \<Rightarrow> u8 list option \<times> 'w"

datatype call = Usleep nat | Perror string

record 'w proc =
  world :: 'w
  nfds :: nat
  fd_limit :: nat
  calls :: "call list"

datatype am2320_errors_t =
  AM2320_ERROR_OK | AM2320_ERROR_OPEN | AM2320_ERRROR_IOCTL | AM2320_ERROR_WRITE | AM2320_ERROR_READ

text \<open>What a call leaves in \<^verbatim>\<open>*humidity\<close> and \<^verbatim>\<open>*temperature\<close>: nothing, bytes of the buffer that no one
wrote, or two numbers.\<close>

datatype reading = Unwritten | Indeterminate | Values f32 f32

definition AM2320_ADDR :: u8 where "AM2320_ADDR = 0x5C"

definition sys_open :: "'w i2c_dev \<Rightarrow> 'w proc \<Rightarrow> int \<times> 'w proc" where
  "sys_open D s =
     (if nfds s < fd_limit s then
        case dev_open D (world s) of
          (ok, w) \<Rightarrow> if ok then (int (nfds s), s\<lparr>world := w, nfds := nfds s + 1\<rparr>) else (-1, s\<lparr>world := w\<rparr>)
      else (-1, s))"

definition sys_ioctl :: "'w i2c_dev \<Rightarrow> u8 \<Rightarrow> 'w proc \<Rightarrow> int \<times> 'w proc" where
  "sys_ioctl D a s = (case dev_ioctl D a (world s) of (r, w) \<Rightarrow> (r, s\<lparr>world := w\<rparr>))"

definition sys_write :: "'w i2c_dev \<Rightarrow> u8 list \<Rightarrow> 'w proc \<Rightarrow> int \<times> 'w proc" where
  "sys_write D bs s = (case dev_write D bs (world s) of (r, w) \<Rightarrow> (r, s\<lparr>world := w\<rparr>))"

text \<open>\<^verbatim>\<open>read\<close> writes as many bytes of the buffer as it returns, at most as many as asked.\<close>

type_synonym buffer = "u8 option list"

definition overwrite :: "u8 list \<Rightarrow> buffer \<Rightarrow> buffer" where
  "overwrite bs buf = map Some bs @ drop (length bs) buf"

definition sys_read :: "'w i2c_dev \<Rightarrow> nat \<Rightarrow> buffer \<Rightarrow> 'w proc \<Rightarrow> int \<times> buffer \<times> 'w proc" where
  "sys_read D n buf s =
     (case dev_read D n (world s) of
        (None, w) \<Rightarrow> (-1, buf, s\<lparr>world := w\<rparr>)
      | (Some bs, w) \<Rightarrow> let bs' = take n bs in (int (length bs'), overwrite bs' buf, s\<lparr>world := w\<rparr>))"

definition usleep :: "nat \<Rightarrow> 'w proc \<Rightarrow> 'w proc" where
  "usleep us s = s\<lparr>calls := calls s @ [Usleep us]\<rparr>"

definition perror :: "string \<Rightarrow> 'w proc \<Rightarrow> 'w proc" where
  "perror msg s = s\<lparr>calls := calls s @ [Perror msg]\<rparr>"

section \<open>The driver\<close>

definition unite_bytes :: "u8 \<Rightarrow> u8 \<Rightarrow> u16" where
  "unite_bytes msb lsb = push_bit 8 (ucast msb) OR ucast lsb"

definition tenths :: "u16 \<Rightarrow> f32" where
  "tenths w = f32_of_f64 (f64_of_f32 (F32 (of_int_f binary32 (sint w))) div f64_lit 10 1)"

definition decode :: "buffer \<Rightarrow> reading" where
  "decode buf =
     (case (buf ! 2, buf ! 3, buf ! 4, buf ! 5) of
        (Some h1, Some h0, Some t1, Some t0) \<Rightarrow> Values (tenths (unite_bytes h1 h0)) (tenths (unite_bytes t1 t0))
      | _ \<Rightarrow> Indeterminate)"

definition am2320_get_data :: "'w i2c_dev \<Rightarrow> 'w proc \<Rightarrow> am2320_errors_t \<times> reading \<times> 'w proc" where
  "am2320_get_data D s =
     (let (fd, s) = sys_open D s in
      if fd < 0 then (AM2320_ERROR_OPEN, Unwritten, s)
      else
        let (r, s) = sys_ioctl D AM2320_ADDR s in
        if r < 0 then (AM2320_ERRROR_IOCTL, Unwritten, perror ''error in ioctl: '' s)
        else
          let (_, s) = sys_write D [] s;
              s = usleep 1000 s;
              (r, s) = sys_write D [0x03, 0x00, 0x04] s in
          if r < 0 then (AM2320_ERROR_WRITE, Unwritten, perror ''error 3: '' s)
          else
            let s = usleep 1600 s;
                (r, buf, s) = sys_read D 8 [Some 0x03, Some 0x00, Some 0x04, None, None, None, None, None] s in
            if r < 0 then (AM2320_ERROR_READ, Unwritten, perror ''error in reading: '' s)
            else (AM2320_ERROR_OK, decode buf, s))"

text \<open>The loop of \<^verbatim>\<open>main\<close>, \<open>n\<close> times: the lines it prints.\<close>

fun hum_main :: "'w i2c_dev \<Rightarrow> nat \<Rightarrow> 'w proc \<Rightarrow> (am2320_errors_t \<times> reading) list \<times> 'w proc" where
  "hum_main D 0 s = ([], s)"
| "hum_main D (Suc n) s =
     (let (err, v, s1) = am2320_get_data D s; (rest, s2) = hum_main D n s1 in ((err, v) # rest, s2))"

section \<open>Descriptors\<close>

lemma sys_fds [simp]:
  "nfds (snd (sys_ioctl D a s)) = nfds s" "fd_limit (snd (sys_ioctl D a s)) = fd_limit s"
  "nfds (snd (sys_write D bs s)) = nfds s" "fd_limit (snd (sys_write D bs s)) = fd_limit s"
  "nfds (snd (snd (sys_read D n buf s))) = nfds s" "fd_limit (snd (snd (sys_read D n buf s))) = fd_limit s"
  "nfds (usleep us s) = nfds s" "fd_limit (usleep us s) = fd_limit s"
  "nfds (perror m s) = nfds s" "fd_limit (perror m s) = fd_limit s"
  by (auto simp: sys_ioctl_def sys_write_def sys_read_def usleep_def perror_def Let_def split: prod.split option.split)

text \<open>Everything after \<^verbatim>\<open>open\<close> keeps the table.\<close>

lemma get_data_fds:
  "nfds (snd (snd (am2320_get_data D s))) = nfds (snd (sys_open D s))"
  "fd_limit (snd (snd (am2320_get_data D s))) = fd_limit (snd (sys_open D s))"
  by (simp_all add: am2320_get_data_def Let_def split_beta)

lemma open_fds:
  assumes "\<And>w. fst (dev_open D w)"
  shows "fd_limit (snd (sys_open D s)) = fd_limit s"
    and "nfds s < fd_limit s \<Longrightarrow> nfds (snd (sys_open D s)) = nfds s + 1"
    and "\<not> nfds s < fd_limit s \<Longrightarrow> nfds (snd (sys_open D s)) = nfds s"
  using assms by (auto simp: sys_open_def split_beta)

lemma get_data_full: "\<not> nfds s < fd_limit s \<Longrightarrow> am2320_get_data D s = (AM2320_ERROR_OPEN, Unwritten, s)"
  by (simp add: am2320_get_data_def sys_open_def)

lemma hum_main_Suc:
  "fst (hum_main D (Suc n) s) = (fst (am2320_get_data D s), fst (snd (am2320_get_data D s)))
     # fst (hum_main D n (snd (snd (am2320_get_data D s))))"
  "snd (hum_main D (Suc n) s) = snd (hum_main D n (snd (snd (am2320_get_data D s))))"
  by (simp_all add: Let_def split_beta)

text \<open>C39. Every call leaks the descriptor it opened, on every path, the successful one included:
after \<open>n\<close> rounds of \<^verbatim>\<open>main\<close> the table holds \<open>n\<close> more descriptors, up to its limit, and from the round
that finds it full on every call fails in \<^verbatim>\<open>open\<close> and the program prints variables nobody wrote.\<close>

theorem am2320_leaks_descriptors:
  assumes present: "\<And>w. fst (dev_open D w)" and "nfds s \<le> fd_limit s"
  shows "nfds (snd (hum_main D n s)) = min (nfds s + n) (fd_limit s)
     \<and> (\<forall>i < n. fd_limit s - nfds s \<le> i \<longrightarrow> fst (hum_main D n s) ! i = (AM2320_ERROR_OPEN, Unwritten))"
  using assms(2)
proof (induction n arbitrary: s)
  case (Suc n)
  let ?s1 = "snd (snd (am2320_get_data D s))"
  show ?case
  proof (cases "nfds s < fd_limit s")
    case True
    then have s1: "nfds ?s1 = nfds s + 1" "fd_limit ?s1 = fd_limit s"
      using open_fds [where D = D] present by (simp_all add: get_data_fds)
    have "fst (hum_main D (Suc n) s) ! i = (AM2320_ERROR_OPEN, Unwritten)"
      if "i < Suc n" "fd_limit s - nfds s \<le> i" for i
      using that True Suc.IH [of ?s1] s1 by (cases i) (auto simp: hum_main_Suc simp del: hum_main.simps)
    with True Suc.IH [of ?s1] s1 show ?thesis by (simp add: hum_main_Suc del: hum_main.simps)
  next
    case False
    then have full: "am2320_get_data D s = (AM2320_ERROR_OPEN, Unwritten, s)" by (rule get_data_full)
    have "fst (hum_main D (Suc n) s) ! i = (AM2320_ERROR_OPEN, Unwritten)" if "i < Suc n" for i
      using that False Suc.IH [of s] Suc.prems full by (cases i) (auto simp: hum_main_Suc simp del: hum_main.simps)
    with False Suc.IH [of s] Suc.prems full show ?thesis by (simp add: hum_main_Suc del: hum_main.simps)
  qed
qed simp

definition demo_dev :: "unit i2c_dev" where
  "demo_dev = \<lparr>dev_open = (\<lambda>w. (True, w)), dev_ioctl = (\<lambda>_ w. (0, w)), dev_write = (\<lambda>bs w. (int (length bs), w)),
     dev_read = (\<lambda>_ w. (Some [3, 4, 1, 0xF4, 0, 0xFA, 0, 0], w))\<rparr>"

definition demo_proc :: "unit proc" where
  "demo_proc = \<lparr>world = (), nfds = 3, fd_limit = 5, calls = []\<rparr>"

lemma am2320_leaks_descriptors_witness:
  "nfds (snd (hum_main demo_dev 4 demo_proc)) = 5
   \<and> fst (hum_main demo_dev 4 demo_proc) ! 3 = (AM2320_ERROR_OPEN, Unwritten)"
  using am2320_leaks_descriptors [of demo_dev demo_proc 4] by (simp add: demo_dev_def demo_proc_def)

section \<open>The reading\<close>

text \<open>The device answers; what the caller then gets is a function of the bytes of the reply alone.\<close>

definition answers :: "'w i2c_dev \<Rightarrow> 'w \<Rightarrow> u8 list \<Rightarrow> bool" where
  "answers D w bs \<longleftrightarrow>
     (let (ok, w1) = dev_open D w; (r1, w2) = dev_ioctl D AM2320_ADDR w1; (r2, w3) = dev_write D [] w2;
          (r3, w4) = dev_write D [0x03, 0x00, 0x04] w3
      in ok \<and> 0 \<le> r1 \<and> 0 \<le> r3 \<and> fst (dev_read D 8 w4) = Some bs)"

lemma get_data_answered:
  assumes "answers D (world s) bs" and "nfds s < fd_limit s"
  shows "fst (am2320_get_data D s) = AM2320_ERROR_OK"
    and "fst (snd (am2320_get_data D s))
       = decode (overwrite (take 8 bs) [Some 0x03, Some 0x00, Some 0x04, None, None, None, None, None])"
  using assms
  by (auto simp: answers_def am2320_get_data_def sys_open_def sys_ioctl_def sys_write_def sys_read_def
      usleep_def Let_def split_beta split: option.splits)

text \<open>A reading is reported as good whenever the calls succeed, whatever the reply is: a reply of
fewer than six bytes gives indeterminate values with the code of success, and of a full one
neither the function code, nor the length, nor the checksum matters.\<close>

theorem am2320_reply:
  assumes "answers D (world s) bs" and "nfds s < fd_limit s"
  shows "fst (am2320_get_data D s) = AM2320_ERROR_OK
     \<and> fst (snd (am2320_get_data D s)) =
         (if length bs < 6 then Indeterminate
          else Values (tenths (unite_bytes (bs ! 2) (bs ! 3))) (tenths (unite_bytes (bs ! 4) (bs ! 5))))"
  using get_data_answered [OF assms]
  by (auto simp: decode_def overwrite_def nth_append split: option.splits)

lemma am2320_reply_witness:
  "fst (snd (am2320_get_data demo_dev demo_proc)) = Values (tenths 500) (tenths 250)"
  using am2320_reply [of demo_dev demo_proc "[3, 4, 1, 0xF4, 0, 0xFA, 0, 0]"]
  by (simp add: answers_def demo_dev_def demo_proc_def unite_bytes_def)

end
