(* ===== verification/Gps_Test.thy ===== *)
theory Gps_Test
  imports Gps_Line Minmea_Coord Minmea_Parse
begin

text \<open>
  The test application \<^verbatim>\<open>granum/gps_test\<close>: its loop waits for a dollar, then collects bytes to the
  end of the line, then parses. Reads are elements of the input, \<open>None\<close> for a failed one, as in
  \<open>Gps_Line\<close>. Its line collector is the earlier form of \<open>_parseGPS\<close>, and it writes the terminating NUL
  after an overflow too: one byte behind the buffer.
\<close>

datatype line_result =
    Blocked
  | OutOfBounds
  | Line nat string "char option list"

text \<open>\<open>do { ret = read(...); if (ret < 0) continue; } while (_msg_buffer[0] != '$')\<close>: the \<open>continue\<close> goes to
the condition.\<close>

fun wait_dollar :: "string \<Rightarrow> char option list \<Rightarrow> (string \<times> char option list) option" where
  "wait_dollar buf [] = None"
| "wait_dollar buf (r # rs) =
     (let buf' = put_byte 0 r buf in if buf' ! 0 \<noteq> CHR ''$'' then wait_dollar buf' rs else Some (buf', rs))"

text \<open>The second loop; the flag of the result tells that it was left by \<open>break\<close>.\<close>

fun accumulate :: "nat \<Rightarrow> string \<Rightarrow> char option list \<Rightarrow> (nat \<times> string \<times> char option list) option" where
  "accumulate carret buf [] = None"
| "accumulate carret buf (r # rs) =
     (let buf' = put_byte carret r buf; carret' = carret + 1 in
      if carret' \<ge> MSG_BUF_SIZE then Some (carret', buf', rs)
      else if buf' ! (carret' - 2) \<noteq> CHR 0x0D \<or> buf' ! (carret' - 1) \<noteq> CHR 0x0A
      then accumulate carret' buf' rs
      else Some (carret', buf', rs))"

definition gps_test_line :: "string \<Rightarrow> char option list \<Rightarrow> line_result" where
  "gps_test_line buf rs =
     (case wait_dollar buf rs of
        None \<Rightarrow> Blocked
      | Some (buf1, rs1) \<Rightarrow>
          (case accumulate 1 buf1 rs1 of
             None \<Rightarrow> Blocked
           | Some (carret, buf2, rs2) \<Rightarrow>
               if carret < length buf2 then Line carret (buf2[carret := NUL]) rs2 else OutOfBounds))"

text \<open>What is printed of a line: longitude, latitude and height as they stand in the sentence.\<close>

definition gps_test_fix :: "string \<Rightarrow> (fnum \<times> fnum \<times> fnum) option" where
  "gps_test_fix buf =
     (if \<not> minmea_check (c_string buf) False then None
      else case minmea_parse_gga (c_string buf) of
        Parsed frame \<Rightarrow>
          if gga_fix_quality frame = 0 then None
          else Some (minmea_tofloat (gga_longitude frame), minmea_tofloat (gga_latitude frame), minmea_tofloat (gga_altitude frame))
      | _ \<Rightarrow> None)"

section \<open>Lines\<close>

fun no_crlf :: "string \<Rightarrow> bool" where
  "no_crlf (a # b # s) \<longleftrightarrow> \<not> (a = CHR 0x0D \<and> b = CHR 0x0A) \<and> no_crlf (b # s)"
| "no_crlf _ \<longleftrightarrow> True"

lemma put_byte_Some [simp]: "put_byte i (Some c) buf = buf[i := c]"
  by (simp add: put_byte_def)

text \<open>One read that neither ends a line nor fills the buffer.\<close>

lemma accumulate_step:
  assumes "1 \<le> k" "k + 1 < MSG_BUF_SIZE" "length buf = MSG_BUF_SIZE" "\<not> (buf ! (k - 1) = CHR 0x0D \<and> c = CHR 0x0A)"
  shows "accumulate k buf (Some c # rs) = accumulate (k + 1) (buf[k := c]) rs"
  using assms by (auto simp: Let_def nth_list_update numeral_2_eq_2)

lemma accumulate_overflow:
  assumes "1 \<le> k" "k + length cs = MSG_BUF_SIZE" "cs \<noteq> []" "length buf = MSG_BUF_SIZE" "no_crlf (buf ! (k - 1) # cs)"
  shows "\<exists>buf'. accumulate k buf (map Some cs @ rs) = Some (MSG_BUF_SIZE, buf', rs) \<and> length buf' = MSG_BUF_SIZE"
  using assms
proof (induction cs arbitrary: k buf)
  case (Cons c cs)
  show ?case
  proof (cases "cs = []")
    case True
    with Cons.prems show ?thesis by (simp add: Let_def)
  next
    case False
    then have k: "k + 1 < MSG_BUF_SIZE" using Cons.prems(2) by (cases cs) auto
    have "accumulate k buf (map Some (c # cs) @ rs) = accumulate (k + 1) (buf[k := c]) (map Some cs @ rs)"
      using accumulate_step [OF Cons.prems(1) k Cons.prems(4)] Cons.prems(5) by simp
    moreover have "no_crlf (buf[k := c] ! (k + 1 - 1) # cs)" using Cons.prems k by simp
    ultimately show ?thesis using Cons.IH [of "k + 1" "buf[k := c]"] Cons.prems False by simp
  qed
qed simp

lemma accumulate_line:
  assumes "1 \<le> k" "k + length cs + 1 < MSG_BUF_SIZE" "length buf = MSG_BUF_SIZE"
    and "no_crlf (buf ! (k - 1) # cs)" "last (buf ! (k - 1) # cs) = CHR 0x0D"
  shows "\<exists>buf'. accumulate k buf (map Some (cs @ [CHR 0x0A]) @ rs) = Some (k + length cs + 1, buf', rs)
     \<and> length buf' = MSG_BUF_SIZE \<and> take (k + length cs + 1) buf' = take k buf @ cs @ [CHR 0x0A]"
  using assms
proof (induction cs arbitrary: k buf)
  case Nil
  then show ?case by (simp add: Let_def nth_list_update numeral_2_eq_2 take_Suc_conv_app_nth)
next
  case (Cons c cs)
  have k: "k + 1 < MSG_BUF_SIZE" using Cons.prems(2) by simp
  have "accumulate k buf (map Some ((c # cs) @ [CHR 0x0A]) @ rs)
      = accumulate (k + 1) (buf[k := c]) (map Some (cs @ [CHR 0x0A]) @ rs)"
    using accumulate_step [OF Cons.prems(1) k Cons.prems(3)] Cons.prems(4) by simp
  moreover have "take (k + 1) (buf[k := c]) = take k buf @ [c]"
    using k Cons.prems(3) by (simp add: take_Suc_conv_app_nth)
  ultimately show ?case using Cons.IH [of "k + 1" "buf[k := c]"] Cons.prems k by simp
qed

text \<open>A sentence that fits is delivered whole, from the dollar to the line feed.\<close>

lemma gps_test_delivers:
  assumes "length buf = MSG_BUF_SIZE" "length cs + 2 < MSG_BUF_SIZE"
    and "no_crlf (CHR ''$'' # cs)" "last (CHR ''$'' # cs) = CHR 0x0D"
  shows "\<exists>buf'. gps_test_line buf (map Some (CHR ''$'' # cs @ [CHR 0x0A]) @ rs) = Line (length cs + 2) buf' rs
     \<and> take (length cs + 2) buf' = CHR ''$'' # cs @ [CHR 0x0A] \<and> buf' ! (length cs + 2) = NUL"
proof -
  let ?b = "buf[0 := CHR ''$'']"
  have "0 < length buf" using assms(1) by (simp add: MSG_BUF_SIZE_def)
  then have b0: "?b ! 0 = CHR ''$''" "take 1 ?b = [CHR ''$'']" by (cases buf; simp)+
  from accumulate_line [of 1 cs ?b rs] assms b0 obtain buf'
    where b: "accumulate 1 ?b (map Some (cs @ [CHR 0x0A]) @ rs) = Some (length cs + 2, buf', rs)"
      "length buf' = MSG_BUF_SIZE" "take (length cs + 2) buf' = CHR ''$'' # cs @ [CHR 0x0A]"
    by auto
  then have "gps_test_line buf (map Some (CHR ''$'' # cs @ [CHR 0x0A]) @ rs) = Line (length cs + 2) (buf'[length cs + 2 := NUL]) rs"
    using assms(2) b0 by (simp add: gps_test_line_def)
  then show ?thesis using b assms(2) by simp
qed

text \<open>C40. A line of more than 255 bytes makes the program write outside its buffer: after the overflow is
reported, the loop is left with the index at the size, and the NUL goes one byte behind the end.
(\<open>_parseGPS\<close> of the flight program resets the index instead.)\<close>

theorem gps_test_overflow_writes_behind:
  assumes "length buf = MSG_BUF_SIZE" "length cs = MSG_BUF_SIZE - 1" "no_crlf (CHR ''$'' # cs)"
  shows "gps_test_line buf (map Some (CHR ''$'' # cs) @ rs) = OutOfBounds"
proof -
  let ?b = "buf[0 := CHR ''$'']"
  have "0 < length buf" using assms(1) by (simp add: MSG_BUF_SIZE_def)
  then have b0: "?b ! 0 = CHR ''$''" by (cases buf) simp_all
  have "cs \<noteq> []" using assms(2) by (auto simp: MSG_BUF_SIZE_def)
  with accumulate_overflow [of 1 cs ?b rs] assms b0 obtain buf'
    where "accumulate 1 ?b (map Some cs @ rs) = Some (MSG_BUF_SIZE, buf', rs)" "length buf' = MSG_BUF_SIZE"
    by (auto simp: MSG_BUF_SIZE_def)
  then show ?thesis using b0 by (simp add: gps_test_line_def)
qed

lemma gps_test_overflow_writes_behind_witness:
  "gps_test_line (replicate 256 NUL) (map Some (CHR ''$'' # replicate 255 (CHR ''A'')) @ []) = OutOfBounds"
proof (rule gps_test_overflow_writes_behind)
  have "no_crlf (a # replicate n (CHR ''A''))" for a n by (induction n arbitrary: a) simp_all
  then show "no_crlf (CHR ''$'' # replicate 255 (CHR ''A''))" .
qed (simp_all add: MSG_BUF_SIZE_def)

end
