(* ===== verification/Sensor_Tests.thy ===== *)
theory Sensor_Tests
  imports Startup
begin

text \<open>
  The one-device test programs of the board (\<^verbatim>\<open>apps/granum/*_test\<close>, \<^verbatim>\<open>lumen\<close>, \<^verbatim>\<open>sonar\<close>, \<^verbatim>\<open>blinky\<close>): each
  opens its device, sets it up, and then reads or writes it for ever and prints what it has. A turn
  is a function of what the system calls return; what it prints is its output. Buffers keep what a
  call does not store, and \<open>errno\<close> is kept by a call that succeeds.
\<close>

section \<open>System calls\<close>

datatype 'a io = IoErr int | IoOk nat 'a   \<comment> \<open>-1 with an \<open>errno\<close>, or a count of bytes with what was stored\<close>

fun io_ret :: "'a io \<Rightarrow> int" where
  "io_ret (IoErr e) = -1"
| "io_ret (IoOk n x) = int n"

fun errno_after :: "'a io \<Rightarrow> int \<Rightarrow> int" where
  "errno_after (IoErr e) old = e"
| "errno_after (IoOk n x) old = old"

fun held :: "'a io \<Rightarrow> 'a \<Rightarrow> 'a" where
  "held (IoErr e) old = old"
| "held (IoOk n x) old = x"

text \<open>Bytes stored from the start of a buffer; the rest of it stays.\<close>

definition fill :: "u8 list \<Rightarrow> u8 list \<Rightarrow> u8 list" where
  "fill bs buf = take (length buf) bs @ drop (length bs) buf"

lemma length_fill [simp]: "length (fill bs buf) = length buf" by (simp add: fill_def)

lemma fill_all [simp]: "length bs = length buf \<Longrightarrow> fill bs buf = bs" by (simp add: fill_def)

fun filled :: "u8 list io \<Rightarrow> u8 list \<Rightarrow> u8 list" where
  "filled (IoErr e) buf = buf"
| "filled (IoOk n bs) buf = fill bs buf"

lemma length_filled [simp]: "length (filled r buf) = length buf" by (cases r) simp_all

text \<open>Two bytes of a little-endian machine.\<close>

definition u16_at :: "u8 list \<Rightarrow> u16" where
  "u16_at buf = word_cat (buf ! 1) (buf ! 0)"

text \<open>\<open>while (1)\<close> over a finite number of turns: the state and what was printed.\<close>

fun poll :: "('s \<Rightarrow> 'r \<Rightarrow> 's \<times> 'o) \<Rightarrow> 'r list \<Rightarrow> 's \<Rightarrow> 's \<times> 'o list" where
  "poll turn [] s = (s, [])"
| "poll turn (r # rs) s =
     (let (s1, out) = turn s r; (s2, outs) = poll turn rs s1 in (s2, out # outs))"

lemma length_poll [simp]: "length (snd (poll turn rs s)) = length rs"
  by (induction rs arbitrary: s) (auto simp: Let_def split: prod.splits, metis snd_conv)

lemma poll_nth:
  "i < length rs \<Longrightarrow> snd (poll turn rs s) ! i = snd (turn (fst (poll turn (take i rs) s)) (rs ! i))"
proof (induction rs arbitrary: s i)
  case (Cons r rs)
  show ?case
  proof (cases i)
    case (Suc j)
    then show ?thesis using Cons.IH [of j "fst (turn s r)"] Cons.prems by (simp add: case_prod_beta Let_def)
  qed (simp add: case_prod_beta Let_def)
qed simp

lemma poll_state: "fst (poll turn rs s) = fold (\<lambda>r s. fst (turn s r)) rs s"
  by (induction rs arbitrary: s) (simp_all add: case_prod_beta Let_def)

text \<open>A device that does not open ends the program with the message.\<close>

definition test_open :: "(string \<Rightarrow> int) \<Rightarrow> string \<Rightarrow> string \<Rightarrow> string + int" where
  "test_open open_file path message = (let fd = open_file path in if fd < 0 then Inl message else Inr fd)"

definition blinky_open where "blinky_open open_file = test_open open_file ''/dev/userleds'' ''cant open led device''"
definition sonar_open where "sonar_open open_file = test_open open_file ''/dev/sonar0'' ''cant open sonar device''"
definition lumen_open where "lumen_open open_file = test_open open_file ''/dev/lumen0'' ''cant open lumen device''"
definition mpu_test_open where "mpu_test_open open_file = test_open open_file ''/dev/mpu0'' (''Can'' @ [CHR 0x27] @ ''t open /dev/mpu0'')"
definition lsm_test_open where "lsm_test_open open_file = test_open open_file ''/dev/mag0'' (''Can'' @ [CHR 0x27] @ ''t open /dev/mag0'')"
definition nrf_test_open where "nrf_test_open open_file = test_open open_file ''/dev/nrf24l01'' (''Can'' @ [CHR 0x27] @ ''t open /dev/nrf24l01'')"

text \<open>What two of them set up before the loop; \<^verbatim>\<open>lumen\<close> passes an argument it has not initialised.\<close>

definition mpu_test_setup :: "int \<Rightarrow> setup_call list" where "mpu_test_setup fd = [MpuSetConvert fd True]"
definition lumen_setup :: "int \<Rightarrow> setup_call list" where "lumen_setup fd = [LumenSetup fd]"

section \<open>\<^verbatim>\<open>blinky\<close>\<close>

definition blinky_values :: "u8 list" where "blinky_values = [push_bit 0 0, push_bit 0 1]"

text \<open>A turn, from \<open>ptr\<close>: \<open>None\<close> is an index outside the array. The result of \<open>write\<close> is not looked at.\<close>

definition blinky_turn :: "nat \<Rightarrow> (nat \<times> u8) option" where
  "blinky_turn ptr =
     (if length blinky_values \<le> ptr then None
      else let ptr1 = ptr + 1 in Some (if ptr1 \<ge> length blinky_values then 0 else ptr1, blinky_values ! ptr))"

fun blinky_run :: "nat \<Rightarrow> nat \<Rightarrow> u8 list option" where
  "blinky_run 0 ptr = Some []"
| "blinky_run (Suc n) ptr =
     (case blinky_turn ptr of
        None \<Rightarrow> None
      | Some (ptr1, v) \<Rightarrow> (case blinky_run n ptr1 of None \<Rightarrow> None | Some vs \<Rightarrow> Some (v # vs)))"

text \<open>The index stays in the array, and the LED goes off and on in turn for ever.\<close>

lemma blinky_alternates: "p < 2 \<Longrightarrow> blinky_run n p = Some (map (\<lambda>i. of_nat ((p + i) mod 2)) [0..<n])"
proof (induction n arbitrary: p)
  case (Suc n)
  from Suc.prems have "p = 0 \<or> p = 1" by linarith
  then have turn: "blinky_turn p = Some ((p + 1) mod 2, of_nat (p mod 2))"
    by (elim disjE) (simp_all add: blinky_turn_def blinky_values_def Let_def)
  have "map (\<lambda>i. of_nat ((p + i) mod 2)) [0..<Suc n] = (of_nat (p mod 2) :: u8) # map (\<lambda>i. of_nat (((p + 1) mod 2 + i) mod 2)) [0..<n]"
    by (simp add: upt_conv_Cons map_Suc_upt [symmetric] mod_add_left_eq del: upt_Suc)
  with turn Suc.IH [of "(p + 1) mod 2"] show ?case by (simp del: upt_Suc)
qed simp

section \<open>\<^verbatim>\<open>file_test\<close>\<close>

definition file_test_files :: "(string \<times> string) list" where
  "file_test_files =
     [(''/mnt/sd0/test/1'', ''cant open 1 file''), (''/mnt/sd0/test/2'', ''cant open 2 file''),
      (''/mnt/sd0/test/3'', ''cant open 3 file''), (''/mnt/sd0/test/4'', ''cant open 4 file''),
      (''/mnt/sd0/test/5'', ''cant open 5 file''), (''/mnt/sd0/test/6'', ''cant open 6 file'')]"

text \<open>The open files so far, none of which is closed, with the message of the first that does not open.\<close>

fun open_each :: "(string \<Rightarrow> int) \<Rightarrow> (string \<times> string) list \<Rightarrow> int list \<times> string option" where
  "open_each open_file [] = ([], None)"
| "open_each open_file ((path, message) # files) =
     (case test_open open_file path message of
        Inl m \<Rightarrow> ([], Some m)
      | Inr fd \<Rightarrow> (case open_each open_file files of (fds, res) \<Rightarrow> (fd # fds, res)))"

definition file_test_main :: "(string \<Rightarrow> int) \<Rightarrow> int list \<times> string option" where
  "file_test_main open_file = open_each open_file file_test_files"

lemma open_each_cases:
  "open_each open_file files =
     (map open_file (takeWhile (\<lambda>p. 0 \<le> open_file p) (map fst files)),
      map_option snd (find (\<lambda>(p, m). open_file p < 0) files))"
  by (induction files) (auto simp: test_open_def Let_def)

text \<open>It succeeds if all six open, and holds all six then.\<close>

lemma file_test_main_ok:
  "snd (file_test_main open_file) = None \<longleftrightarrow> (\<forall>p \<in> fst ` set file_test_files. 0 \<le> open_file p)"
  "snd (file_test_main open_file) = None \<Longrightarrow> length (fst (file_test_main open_file)) = 6"
proof -
  show *: "snd (file_test_main open_file) = None \<longleftrightarrow> (\<forall>p \<in> fst ` set file_test_files. 0 \<le> open_file p)"
    by (auto simp: file_test_main_def open_each_cases find_None_iff not_less)
  assume "snd (file_test_main open_file) = None"
  with * have "takeWhile (\<lambda>p. 0 \<le> open_file p) (map fst file_test_files) = map fst file_test_files"
    by (auto simp: takeWhile_eq_all_conv)
  then show "length (fst (file_test_main open_file)) = 6"
    by (simp add: file_test_main_def open_each_cases) (simp add: file_test_files_def)
qed

section \<open>\<^verbatim>\<open>lumen\<close> and \<^verbatim>\<open>sonar\<close>\<close>

text \<open>The two bytes of \<open>lux\<close>, which starts at 0; what is printed.\<close>

definition lumen_turn :: "u8 list \<Rightarrow> u8 list io \<Rightarrow> u8 list \<times> u16" where
  "lumen_turn lux r = (let lux1 = filled r lux in (lux1, u16_at lux1))"

definition lumen_run :: "u8 list io list \<Rightarrow> u8 list \<times> u16 list" where
  "lumen_run rs = poll lumen_turn rs [0, 0]"

text \<open>The results of \<open>ioctl\<close> and \<open>read\<close>, and \<open>val\<close>, which starts with whatever the stack holds.\<close>

definition sonar_turn :: "u8 list \<Rightarrow> int \<times> u8 list io \<Rightarrow> u8 list \<times> int \<times> int \<times> u16" where
  "sonar_turn val1 r =
     (case r of (rc1, rd) \<Rightarrow> let val2 = filled rd val1 in (val2, rc1, io_ret rd, u16_at val2))"

definition sonar_run :: "u8 list \<Rightarrow> (int \<times> u8 list io) list \<Rightarrow> u8 list \<times> (int \<times> int \<times> u16) list" where
  "sonar_run stack rs = poll sonar_turn rs stack"

text \<open>Reads that fail leave the light of the last good one on the screen, at whatever time. The lines do
not differ, where \<^verbatim>\<open>sonar\<close> prints the result of the read with the value.\<close>

lemma lumen_repeats:
  assumes "length bs = 2"
  shows "snd (lumen_run (rs @ IoOk 2 bs # map IoErr es)) =
    snd (lumen_run rs) @ replicate (Suc (length es)) (word_cat (bs ! 1) (bs ! 0))"
proof -
  have app: "poll t (as @ bs) s = (let (s1, o1) = poll t as s; (s2, o2) = poll t bs s1 in (s2, o1 @ o2))"
    for t :: "u8 list \<Rightarrow> u8 list io \<Rightarrow> u8 list \<times> u16" and as bs s
    by (induction "as" arbitrary: s) (auto simp: Let_def split: prod.splits)
  have fail: "poll lumen_turn (map IoErr es) buf = (buf, replicate (length es) (u16_at buf))" for buf
    by (induction es) (simp_all add: lumen_turn_def)
  have "length (fst (poll lumen_turn rs [0, 0])) = 2"
    unfolding poll_state by (rule fold_invariant [where P = "\<lambda>b. length b = 2" and Q = "\<lambda>_. True"]) (simp_all add: lumen_turn_def Let_def)
  then show ?thesis using assms
    by (simp add: lumen_run_def app fail lumen_turn_def Let_def case_prod_beta u16_at_def)
qed

section \<open>\<^verbatim>\<open>mpu_test\<close> and \<^verbatim>\<open>lsm_test\<close>\<close>

record mpu_test_record = mpu_record +
  mpu_temperature :: f32

record mpu_line =
  line_acc :: "f32 vec"
  line_gyro :: "f32 vec"
  line_temp :: f32
  line_time :: f32
  line_err :: int

text \<open>\<open>(float)tv_sec + (float)tv_nsec / 1000000000\<close>, in float throughout.\<close>

definition mpu_seconds :: "mpu_test_record \<Rightarrow> f32" where
  "mpu_seconds r = f32_lit (mpu_sec r) 1 + f32_lit (mpu_nsec r) 1 / f32_lit 1000000000 1"

text \<open>The state is \<open>errno\<close> and the record; \<open>ERR\<close> is \<open>get_errno() * isok\<close>.\<close>

definition mpu_test_turn :: "int \<times> mpu_test_record \<Rightarrow> mpu_test_record io \<Rightarrow> (int \<times> mpu_test_record) \<times> mpu_line" where
  "mpu_test_turn s r =
     (case s of (errno, record) \<Rightarrow>
       let isok = io_ret r; errno1 = errno_after r errno; record1 = held r record in
       ((errno1, record1),
        \<lparr>line_acc = mpu_acc record1, line_gyro = mpu_gyro record1, line_temp = mpu_temperature record1,
         line_time = mpu_seconds record1, line_err = errno1 * isok\<rparr>))"

definition mpu_test_run :: "int \<Rightarrow> mpu_test_record \<Rightarrow> mpu_test_record io list \<Rightarrow> (int \<times> mpu_test_record) \<times> mpu_line list" where
  "mpu_test_run errno stack rs = poll mpu_test_turn rs (errno, stack)"

text \<open>A single failed read is reported with its negated \<open>errno\<close>, and every good read after it as an error too:
\<open>errno\<close> is never reset, and the product with the count of bytes is not zero.\<close>

lemma mpu_test_errors_stay:
  "map line_err (snd (mpu_test_run errno stack (rs @ IoErr e # map (IoOk n) recs))) =
    map line_err (snd (mpu_test_run errno stack rs)) @ - e # replicate (length recs) (e * int n)"
proof -
  have app: "snd (poll mpu_test_turn (as @ bs) s) = snd (poll mpu_test_turn as s) @ snd (poll mpu_test_turn bs (fst (poll mpu_test_turn as s)))"
    for "as" bs s by (induction "as" arbitrary: s) (simp_all add: case_prod_beta Let_def)
  have good: "map line_err (snd (poll mpu_test_turn (map (IoOk n) recs) (e, x))) = replicate (length recs) (e * int n)" for x
    by (induction recs arbitrary: x) (simp_all add: mpu_test_turn_def case_prod_beta Let_def)
  show ?thesis by (simp add: mpu_test_run_def app good mpu_test_turn_def case_prod_beta Let_def)
qed

text \<open>\<^verbatim>\<open>lsm_test\<close> asks for the sign of the result first.\<close>

definition lsm_test_turn :: "int \<times> f32 vec \<Rightarrow> f32 vec io \<Rightarrow> (int \<times> f32 vec) \<times> int \<times> int \<times> f32 vec" where
  "lsm_test_turn s r =
     (case s of (errno, field) \<Rightarrow>
       let isok = io_ret r; errno1 = errno_after r errno; field1 = held r field in
       ((errno1, field1),
        (if isok \<ge> 0 then isok else 0), (if isok \<ge> 0 then 0 else - errno1), field1))"

definition lsm_test_run :: "int \<Rightarrow> f32 vec \<Rightarrow> f32 vec io list \<Rightarrow> (int \<times> f32 vec) \<times> (int \<times> int \<times> f32 vec) list" where
  "lsm_test_run errno stack rs = poll lsm_test_turn rs (errno, stack)"

text \<open>So its line is right in every turn: the error is that of the turn's read alone, and the field is
that of the last good read.\<close>

lemma lsm_test_line:
  assumes "i < length rs"
  shows "snd (lsm_test_run errno stack rs) ! i =
    (case rs ! i of IoErr e \<Rightarrow> (0, - e, fold held (take i rs) stack) | IoOk n x \<Rightarrow> (int n, 0, x))"
proof -
  have "snd (fst (poll lsm_test_turn qs s)) = fold held qs (snd s)" for qs s
    by (induction qs arbitrary: s) (simp_all add: lsm_test_turn_def case_prod_beta Let_def)
  then show ?thesis using poll_nth [OF assms, of lsm_test_turn "(errno, stack)"]
    by (simp add: lsm_test_run_def lsm_test_turn_def case_prod_beta Let_def split: io.split)
qed

section \<open>\<^verbatim>\<open>nrf_test\<close>\<close>

text \<open>The radio of this test has its own addresses and retry delay.\<close>

definition nrf_test_pipe :: "u8 \<Rightarrow> pipecfg" where
  "nrf_test_pipe b = \<lparr>en_aa = True, payload_length = ''NRF24L01_DYN_LENGTH'', rx_addr = [b, b, b, b, b]\<rparr>"

definition nrf_test_radio :: "int \<Rightarrow> setup_call list" where
  "nrf_test_radio fd =
     [SetRadioFreq fd 2489, GetRadioFreq fd, SetAddrWidth fd 5, SetTxAddr fd [0x31, 0x31, 0x31, 0x31, 0x31],
      SetTxPower fd 0, SetRetrCfg fd ''DELAY_4000us'' 15,
      SetPipesCfg fd (map Some (nrf_test_pipe 0x32 # replicate 5 (nrf_test_pipe 0xE8))),
      SetPipesEnabled fd 0x01, SetDataRate fd ''RATE_1Mbps'', SetCrcMode fd ''CRC_2BYTE'', SetState fd ''ST_STANDBY'']"

record nrf_line =
  nrf_sent :: "u8 list"
  nrf_write :: int
  nrf_read :: int
  nrf_byte :: u8

text \<open>A turn writes the byte of the buffer and reads one into it.\<close>

definition nrf_test_turn :: "int \<times> u8 list \<Rightarrow> unit io \<times> u8 list io \<Rightarrow> (int \<times> u8 list) \<times> nrf_line" where
  "nrf_test_turn s r =
     (case (s, r) of ((errno, buffer), (w, rd)) \<Rightarrow>
       let errno1 = errno_after w errno; errno2 = errno_after rd errno1; buffer1 = filled rd buffer; isok = io_ret rd in
       ((errno2, buffer1),
        \<lparr>nrf_sent = buffer, nrf_write = errno1 * io_ret w,
         nrf_read = (if isok = -1 then - errno2 else isok), nrf_byte = buffer1 ! 0\<rparr>))"

definition nrf_test_run :: "int \<Rightarrow> (unit io \<times> u8 list io) list \<Rightarrow> (int \<times> u8 list) \<times> nrf_line list" where
  "nrf_test_run errno rs = poll nrf_test_turn rs (errno, [1])"

text \<open>The test is an echo: it sends 1 until a byte arrives, and from then on the last byte received.\<close>

lemma nrf_test_echoes:
  assumes "i < length rs"
  shows "nrf_sent (snd (nrf_test_run errno rs) ! i) = fold filled (map snd (take i rs)) [1]"
proof -
  have "snd (fst (poll nrf_test_turn qs s)) = fold filled (map snd qs) (snd s)" for qs s
    by (induction qs arbitrary: s) (simp_all add: nrf_test_turn_def case_prod_beta Let_def)
  then show ?thesis using poll_nth [OF assms, of nrf_test_turn "(errno, [1])"]
    by (simp add: nrf_test_run_def nrf_test_turn_def case_prod_beta Let_def)
qed

end
