(* ===== verification/Altitude.thy ===== *)
theory Altitude
  imports Flight_Properties Float_Signed
begin

text \<open>
  The altitude of the mission loop against the height that it stands for: \<open>_alt\<close> is
  within ten micrometres of the barometric formula plus what the logarithm of the C library is wrong by,
  and so the decision to fire the parachute is right but for readings within that margin of 250 m.
\<close>

section \<open>The formula\<close>

text \<open>The height at pressure \<open>p\<close> over the place with pressure \<open>p0\<close>, and the bound on what \<open>_alt\<close> makes of
it, for a logarithm that is right to \<open>\<epsilon>\<close> on numbers within \<open>w\<close> of one.\<close>

definition pressure_altitude :: "real \<Rightarrow> real \<Rightarrow> real" where
  "pressure_altitude p p0 = - ln (p / p0) / (118558460224151 / 1000000000000000000)"

definition margin :: "real \<Rightarrow> real" where "margin \<epsilon> = 8435 * \<epsilon> + 1 / 100000"

definition log_ok :: "libc \<Rightarrow> real \<Rightarrow> real \<Rightarrow> bool" where
  "log_ok L w \<epsilon> \<longleftrightarrow> (\<forall>x a. fval binary64 x a \<and> \<bar>a - 1\<bar> \<le> w \<longrightarrow> (\<exists>b. fval binary64 (lib_log L x) b \<and> \<bar>b - ln a\<bar> \<le> \<epsilon>))"

section \<open>Comparison and constants\<close>

lemma fle_value: "fval f x a \<Longrightarrow> fval f y b \<Longrightarrow> fle x y \<longleftrightarrow> a \<le> b"
proof -
  assume "fval f x a" "fval f y b"
  then obtain s1 m1 e1 s2 m2 e2 where x: "x = FFin s1 m1 e1" "a = sign_of s1 * (of_int m1 * 2 powi e1)"
    and y: "y = FFin s2 m2 e2" "b = sign_of s2 * (of_int m2 * 2 powi e2)" by (auto simp: fval_def)
  define k where "k = min e1 e2"
  have "a = of_int (signed_at k s1 m1 e1) * 2 powi k" "b = of_int (signed_at k s2 m2 e2) * 2 powi k"
    using signed_at_value [of k e1 s1 m1] signed_at_value [of k e2 s2 m2]
    by (simp_all add: x y k_def sign_of_def)
  moreover have "(0 :: real) < 2 powi k" by simp
  ultimately have "a \<le> b \<longleftrightarrow> signed_at k s1 m1 e1 \<le> signed_at k s2 m2 e2"
    by (simp only: mult_le_cancel_right_pos of_int_le_iff)
  then show ?thesis by (simp add: fle_def x(1) y(1) Let_def k_def)
qed

lemma fval_fneg: "fval f x a \<Longrightarrow> fval f (fneg x) (- a)"
  unfolding fval_def by (fastforce simp: sign_of_def)

lemma double_format: "1 < fprec binary64" "femin binary64 < femax binary64" "ulp_half binary64 = 1 / 2 ^ 53"
  "tiny binary64 \<le> 1 / 2 ^ 60" "2 ^ 60 \<le> (2 powi (femax binary64 + int (fprec binary64) - 1) :: real)"
proof -
  show "1 < fprec binary64" "femin binary64 < femax binary64" by (simp_all add: binary64_def)
  show "ulp_half binary64 = 1 / 2 ^ 53" by (simp add: ulp_half_def binary64_def power_int_def field_simps)
  have "tiny binary64 \<le> 2 powi (- 60)" unfolding tiny_def by (rule power_int_increasing) (simp_all add: binary64_def)
  then show "tiny binary64 \<le> 1 / 2 ^ 60" by (simp add: power_int_def field_simps)
  have "(2 :: real) powi 60 \<le> 2 powi (femax binary64 + int (fprec binary64) - 1)"
    by (rule power_int_increasing) (simp_all add: binary64_def)
  then show "2 ^ 60 \<le> (2 powi (femax binary64 + int (fprec binary64) - 1) :: real)" by (simp add: power_int_def)
qed

lemma quotient64:
  assumes "fval binary64 x a" "fval binary64 y b" "b \<noteq> 0" and small: "\<bar>a / b\<bar> \<le> 2 ^ 59"
  obtains c where "fval binary64 (ddiv x y) c" "\<bar>c - a / b\<bar> \<le> \<bar>a / b\<bar> / 2 ^ 53 + 1 / 2 ^ 60"
proof -
  have "\<bar>a / b\<bar> < 2 powi (femax binary64 + int (fprec binary64) - 1)" by (rule le_less_trans [OF small], rule less_le_trans [OF _ double_format(5)]) simp
  from fdiv_close [OF assms(1-3) double_format(1,2) this] obtain c where c: "fval binary64 (ddiv x y) c"
    "\<bar>c - a / b\<bar> \<le> ulp_half binary64 * \<bar>a / b\<bar> + tiny binary64" by blast
  then have "\<bar>c - a / b\<bar> \<le> \<bar>a / b\<bar> / 2 ^ 53 + 1 / 2 ^ 60" using double_format(3,4) by simp
  with c(1) that show ?thesis by blast
qed

lemma altitude_constants:
  obtains c where "fval binary64 (dlit 118558460224151 1000000000000000000) c"
    "\<bar>c - 118558460224151 / 1000000000000000000\<bar> \<le> 1 / 2 ^ 60" "fval binary64 (dlit 250 1) 250"
proof -
  have c: "dlit 118558460224151 1000000000000000000 = FFin False 8748070294111948 (-66)" "dlit 250 1 = FFin False 8796093022208000 (-45)"
    by code_simp+
  then have "fval binary64 (dlit 118558460224151 1000000000000000000) (8748070294111948 / 2 ^ 66)" "fval binary64 (dlit 250 1) 250"
    by (auto simp: fval_def sign_of_def power_int_def field_simps)
  moreover have "\<bar>8748070294111948 / 2 ^ 66 - 118558460224151 / 1000000000000000000 :: real\<bar> \<le> 1 / 2 ^ 60" by simp
  ultimately show ?thesis using that by blast
qed

section \<open>The altitude\<close>

lemma ln_close:
  assumes "1 / 2 \<le> x" "1 / 2 \<le> (y :: real)" shows "\<bar>ln x - ln y\<bar> \<le> 2 * \<bar>x - y\<bar>"
proof -
  have half: "(u - v) / v \<le> 2 * \<bar>u - v\<bar>" if "1 / 2 \<le> v" for u v :: real
  proof -
    have "(u - v) / v \<le> \<bar>u - v\<bar> / v" using that by (intro divide_right_mono) auto
    also have "\<dots> \<le> \<bar>u - v\<bar> / (1 / 2)" using that by (intro divide_left_mono) auto
    finally show ?thesis by simp
  qed
  have "ln x - ln y \<le> (x - y) / y" "ln y - ln x \<le> (y - x) / x" using assms by (intro ln_diff_le; simp)+
  moreover note half [OF assms(2), of x] half [OF assms(1), of y]
  ultimately show ?thesis by (simp add: abs_le_iff abs_minus_commute)
qed

text \<open>The logarithm of the rounded ratio.\<close>

lemma log_of_ratio:
  assumes log: "log_ok L w \<epsilon>" and w: "1 / 1000 \<le> w" "w \<le> 3 / 4"
    and p: "fval binary64 x p" "fval binary64 y p0" "p0 \<noteq> 0" and r: "\<bar>p / p0 - 1\<bar> \<le> w / 2"
  obtains b where "fval binary64 (lib_log L (ddiv x y)) b" "\<bar>b - ln (p / p0)\<bar> \<le> \<epsilon> + 1 / 1000000000"
proof -
  define t where "t = p / p0"
  have r2: "5 / 8 \<le> t" "t \<le> 11 / 8" "\<bar>t\<bar> \<le> 11 / 8" using r w unfolding t_def by linarith+
  from r2(3) have "\<bar>p / p0\<bar> \<le> 2 ^ 59" unfolding t_def by (rule order_trans) simp
  with p obtain q where q: "fval binary64 (ddiv x y) q" "\<bar>q - p / p0\<bar> \<le> \<bar>p / p0\<bar> / 2 ^ 53 + 1 / 2 ^ 60"
    by (rule quotient64)
  have qr: "\<bar>q - t\<bar> \<le> 1 / 2000000000"
    using q(2) [folded t_def] divide_right_mono [OF r2(3), of "2 ^ 53"] by simp
  then have "\<bar>q - 1\<bar> \<le> w" "1 / 2 \<le> q" using r [folded t_def] r2 w by linarith+
  then obtain b where b: "fval binary64 (lib_log L (ddiv x y)) b" "\<bar>b - ln q\<bar> \<le> \<epsilon>"
    using log q(1) by (auto simp: log_ok_def)
  have "\<bar>ln q - ln t\<bar> \<le> 2 * \<bar>q - t\<bar>" using \<open>1 / 2 \<le> q\<close> r2 by (intro ln_close) auto
  with qr have "\<bar>ln q - ln t\<bar> \<le> 1 / 1000000000" by simp
  with b(2) have "\<bar>b - ln t\<bar> \<le> \<epsilon> + 1 / 1000000000" by linarith
  with b(1) that show ?thesis unfolding t_def by blast
qed

lemma scale_error:
  fixes b c k l :: real
  assumes k: "1 / 8435 \<le> k" "1 / 10000 \<le> c" and ck: "\<bar>c - k\<bar> \<le> 1 / 2 ^ 60" and b: "\<bar>b\<bar> \<le> 2" "\<bar>b - l\<bar> \<le> d"
  shows "\<bar>b / c - l / k\<bar> \<le> 8435 * d + 1 / 1000000000"
proof -
  have pos: "0 < k" "0 < c" using k by linarith+
  have "b / c - l / k = (b - l) / k + b * (k - c) / (c * k)" using pos by (simp add: field_simps)
  then have "\<bar>b / c - l / k\<bar> \<le> \<bar>b - l\<bar> / k + \<bar>b\<bar> * \<bar>k - c\<bar> / (c * k)"
    using pos by (metis abs_divide abs_mult abs_of_pos abs_triangle_ineq mult_pos_pos)
  also have "\<bar>b - l\<bar> / k \<le> d / (1 / 8435)" using k(1) b by (intro frac_le) auto
  also have "\<bar>b\<bar> * \<bar>k - c\<bar> / (c * k) \<le> 2 * (1 / 2 ^ 60) / (1 / 10000 * (1 / 8435))"
    using k ck b(1) by (intro frac_le mult_mono) (auto simp: abs_minus_commute)
  finally show ?thesis by simp
qed

lemma altitude_value:
  assumes "log_ok L w \<epsilon>" "1 / 1000 \<le> w" "w \<le> 3 / 4" and e: "\<epsilon> \<le> 1"
    and "fval binary64 x p" "fval binary64 y p0" "p0 \<noteq> 0" and r: "\<bar>p / p0 - 1\<bar> \<le> w / 2"
  obtains h where "fval binary64 (alt L x y) h" "\<bar>h - pressure_altitude p p0\<bar> \<le> margin \<epsilon>"
proof -
  define k :: real where "k = 118558460224151 / 1000000000000000000"
  obtain b where b: "fval binary64 (lib_log L (ddiv x y)) b" "\<bar>b - ln (p / p0)\<bar> \<le> \<epsilon> + 1 / 1000000000"
    by (rule log_of_ratio [OF assms(1-3,5-8)])
  obtain c where c: "fval binary64 (dlit 118558460224151 1000000000000000000) c" "\<bar>c - k\<bar> \<le> 1 / 2 ^ 60"
    unfolding k_def by (rule altitude_constants)
  have k: "1 / 8435 \<le> k" "1 / 10000 + 1 / 2 ^ 60 \<le> k" by (simp_all add: k_def)
  have c2: "1 / 10000 \<le> c" using c(2) k(2) by linarith
  have "1 / 2 \<le> p / p0" using r assms(3) by linarith
  then have "\<bar>ln (p / p0) - ln 1\<bar> \<le> 2 * \<bar>p / p0 - 1\<bar>" by (intro ln_close) simp_all
  then have b2: "\<bar>b\<bar> \<le> 2" using b(2) r assms(3) e by simp
  have "\<bar>b / - c\<bar> \<le> 2 / (1 / 10000)" unfolding abs_divide using b2 c2 by (intro frac_le) auto
  then have size: "\<bar>b / - c\<bar> \<le> 20000" by simp
  then have "\<bar>b / - c\<bar> \<le> 2 ^ 59" by (rule order_trans) simp
  from quotient64 [OF b(1) fval_fneg [OF c(1)] _ this] c2 obtain h where h: "fval binary64 (alt L x y) h" "\<bar>h - b / - c\<bar> \<le> \<bar>b / - c\<bar> / 2 ^ 53 + 1 / 2 ^ 60"
    unfolding alt_def by force
  have "\<bar>h + b / c\<bar> \<le> 1 / 1000000000" using h(2) divide_right_mono [OF size, of "2 ^ 53"] by simp
  moreover have "\<bar>b / c - ln (p / p0) / k\<bar> \<le> 8435 * (\<epsilon> + 1 / 1000000000) + 1 / 1000000000"
    by (rule scale_error [OF k(1) c2 c(2) b2 b(2)])
  moreover have "pressure_altitude p p0 = - (ln (p / p0) / k)" by (simp add: pressure_altitude_def k_def)
  ultimately have "\<bar>h - pressure_altitude p p0\<bar> \<le> margin \<epsilon>" unfolding margin_def by argo
  with h(1) that show ?thesis by blast
qed

section \<open>The parachute\<close>

lemma height_block_fires:
  assumes "gr_state s = GR_STATE_FREE_FALL" "fle (altitude L s) (dlit 250 1)" "height_block L i s = Some s'"
  shows "gr_state s' \<notin> unfired"
  using assms by (auto simp: height_block_def Let_def translate_state_def unfired_def split: if_splits)

text \<open>In FREE_FALL an iteration decides by the altitude it computes, in both directions.\<close>

lemma free_fall_decides:
  assumes "iteration L i s = Some s'" "flight_inv s" "gr_state s = GR_STATE_FREE_FALL"
  shows "pyros (trace s') \<noteq> [] \<longleftrightarrow> fle (alt L (held_pressure i s) (ground_pressure s)) (dlit 250 1)"
proof
  assume "pyros (trace s') \<noteq> []"
  moreover have "pyros (trace s) = []" using assms(2,3) by (simp add: inv_unfired unfired_def)
  ultimately show "fle (alt L (held_pressure i s) (ground_pressure s)) (dlit 250 1)"
    using chute_unfired_iteration [OF assms(1,2)] by blast
next
  assume low: "fle (alt L (held_pressure i s) (ground_pressure s)) (dlit 250 1)"
  from assms(1) obtain s1 s2 s3 s4 where st: "time_block i s = Some s1" "lux_block i s1 = Some s2"
    "baro_read i s2 = Some s3" "height_block L i s3 = Some s4" "after_height L i s4 = Some s'"
    by (auto simp: iteration_split after_clock_def andthen_def bind_eq_Some_conv)
  have s: "gr_state s \<in> unfired" using assms(3) by (simp add: unfired_def)
  note f = front_unfired [OF st(1-3) s]
  have "gr_state s3 = GR_STATE_FREE_FALL"
    using st(1-3) assms(3) by (auto simp: time_block_def lux_block_def baro_read_def Let_def emit_def split: option.splits)
  with low st(4) f(2,3) have s4: "gr_state s4 \<notin> unfired" by (intro height_block_fires) (simp_all add: altitude_def)
  have inv4: "flight_inv s4"
    using assms(2) st time.keeps_inv lux.keeps_inv baro.keeps_inv height.keeps_inv by blast
  then have "pyros (trace s4) \<noteq> []" using s4 by (simp add: inv_unfired)
  moreover have "prefix (trace s4) (trace s')" using tail.advance [OF st(5)] by (simp add: advances_def)
  ultimately show "pyros (trace s') \<noteq> []" by (auto simp: prefix_def pyros_append)
qed

text \<open>C3. The parachute is fired at 250 m of true altitude: with pressures whose ratio is in the range of a
flight and a logarithm that is right to \<open>\<epsilon>\<close>, an iteration in FREE_FALL fires it when the height over the
launch pad by the barometric formula, with real numbers, is at most 250 m less a margin, and does not
when it is more than 250 m plus that margin. The margin is \<open>8435 * \<epsilon>\<close> and a hundredth of a millimetre
for all the roundings of the program (for a C library's logarithm, less than a millimetre).\<close>

theorem chute_at_true_altitude:
  assumes "iteration L i s = Some s'" "flight_inv s" "gr_state s = GR_STATE_FREE_FALL"
    and "log_ok L w \<epsilon>" "1 / 1000 \<le> w" "w \<le> 3 / 4" "\<epsilon> \<le> 1"
    and "fval binary64 (held_pressure i s) p" "fval binary64 (ground_pressure s) p0" "0 < p0" "\<bar>p / p0 - 1\<bar> \<le> w / 2"
  shows "(pressure_altitude p p0 \<le> 250 - margin \<epsilon> \<longrightarrow> pyros (trace s') \<noteq> [])
    \<and> (250 + margin \<epsilon> < pressure_altitude p p0 \<longrightarrow> pyros (trace s') = [])"
proof -
  have "p0 \<noteq> 0" using assms(10) by simp
  then obtain h where h: "fval binary64 (alt L (held_pressure i s) (ground_pressure s)) h"
    "\<bar>h - pressure_altitude p p0\<bar> \<le> margin \<epsilon>"
    by (rule altitude_value [OF assms(4-9) _ assms(11)])
  obtain c where "fval binary64 (dlit 250 1) 250" by (rule altitude_constants)
  then have "pyros (trace s') \<noteq> [] \<longleftrightarrow> h \<le> 250" using free_fall_decides [OF assms(1-3)] fle_value [OF h(1)] by blast
  then show ?thesis using h(2) by (auto simp: abs_le_iff)
qed

text \<open>The witness: a logarithm by its tangent, at about 85 m.\<close>

lemma tangent_log_ok: "log_ok demo_libc (1 / 20) (1 / 100)"
  unfolding log_ok_def
proof (intro allI impI, elim conjE)
  fix x a
  assume x: "fval binary64 x a" and a: "\<bar>a - 1\<bar> \<le> 1 / 20"
  have one: "dlit 1 1 = FFin False 4503599627370496 (-52)" by code_simp
  have "fval binary64 (fneg (dlit 1 1)) (- 1)" unfolding one by (auto simp: fval_def sign_of_def power_int_def field_simps)
  moreover have "\<bar>a + - 1\<bar> < 2 powi (femax binary64 + int (fprec binary64) - 1)"
    by (rule less_le_trans [OF _ double_format(5)]) (use a in simp)
  ultimately obtain b where b: "fval binary64 (fadd binary64 x (fneg (dlit 1 1))) b"
    "\<bar>b - (a + - 1)\<bar> \<le> ulp_half binary64 * \<bar>a + - 1\<bar> + tiny binary64"
    using fadd_close [OF x _ double_format(1,2)] by blast
  have "\<bar>b - (a - 1)\<bar> \<le> 1 / 1000" using b(2) a double_format(3,4) by simp
  moreover have "\<bar>ln a - (a - 1)\<bar> \<le> 1 / 200"
  proof -
    have "\<bar>ln (1 + (a - 1)) - (a - 1)\<bar> \<le> 2 * (a - 1)\<^sup>2" by (rule abs_ln_one_plus_x_minus_x_bound) (use a in simp)
    moreover have "\<bar>a - 1\<bar>\<^sup>2 \<le> (1 / 20)\<^sup>2" using a by (rule power_mono) simp
    ultimately show ?thesis by (simp add: power2_eq_square)
  qed
  ultimately have "\<bar>b - ln a\<bar> \<le> 1 / 100" by argo
  moreover have "lib_log demo_libc x = fadd binary64 x (fneg (dlit 1 1))" using x by (auto simp: demo_libc_def fval_def fsub_def)
  ultimately show "\<exists>b. fval binary64 (lib_log demo_libc x) b \<and> \<bar>b - ln a\<bar> \<le> 1 / 100" using b(1) by metis
qed

theorem chute_at_true_altitude_witness:
  "\<exists>s s'. iteration demo_libc (demo_env 400 0 99000 5000) s = Some s' \<and> gr_state s = GR_STATE_FREE_FALL \<and> pyros (trace s') \<noteq> []"
proof -
  let ?i = "demo_env 400 0 99000 5000" and ?s = "demo_start\<lparr>gr_state := GR_STATE_FREE_FALL\<rparr>"
  have "iteration demo_libc ?i ?s \<noteq> None" by code_simp
  then obtain s' where s': "iteration demo_libc ?i ?s = Some s'" by blast
  have inv: "flight_inv ?s" by code_simp
  have pressures: "held_pressure ?i ?s = FFin False 6803228196864000 (-36)" "ground_pressure ?s = FFin False 6871947673600000 (-36)"
    by code_simp+
  have ok: "fval binary64 (held_pressure ?i ?s) 99000" "fval binary64 (ground_pressure ?s) 100000"
    unfolding pressures by (auto simp: fval_def sign_of_def power_int_def field_simps)
  have "\<bar>ln (1 + (- (1 / 100))) - (- (1 / 100 :: real))\<bar> \<le> 2 * (- (1 / 100))\<^sup>2" by (rule abs_ln_one_plus_x_minus_x_bound) simp
  then have "- ln (99 / 100 :: real) \<le> 102 / 10000" by (simp add: power2_eq_square) argo
  from divide_right_mono [OF this, of "118558460224151 / 1000000000000000000"]
  have "pressure_altitude 99000 100000 \<le> 250 - margin (1 / 100)"
    by (simp add: pressure_altitude_def margin_def)
  with chute_at_true_altitude [OF s' inv _ tangent_log_ok _ _ _ ok] s' show ?thesis
    by (intro exI [of _ ?s] exI [of _ s']) simp
qed

end
