(* ===== verification/Telemetry_Threads.thy ===== *)
theory Telemetry_Threads
  imports Telemetry Flight_Properties Madgwick_Thread
begin

text \<open>
  The telemetry of the flight program as a whole: the mission loop and the attitude thread both call
  \<open>send_telem\<close>, without a lock, so their system calls come in any interleaving, and each call may take
  all, some or none of its bytes. What arrives at the three sinks, and what of it is safe on the card at
  any moment. The bytes a \<open>write\<close> takes are not mixed with those of another.
\<close>

section \<open>The calls of the two threads\<close>

fun flight_messages :: "event list \<Rightarrow> gr_msg list" where
  "flight_messages [] = []"
| "flight_messages (Telem m # es) = m # flight_messages es"
| "flight_messages (e # es) = flight_messages es"

text \<open>The MAVLink encoder is a parameter.\<close>

definition main_calls :: "(gr_msg \<Rightarrow> u8 list) \<Rightarrow> (nat \<Rightarrow> telem_io) \<Rightarrow> fds \<Rightarrow> flight \<Rightarrow> syscall list" where
  "main_calls pack io f s = send_all f io (map pack (flight_messages (trace s)))"

definition thread_calls :: "(ahrs_msg \<Rightarrow> u8 list) \<Rightarrow> (nat \<Rightarrow> telem_io) \<Rightarrow> fds \<Rightarrow> ahrs_thread \<Rightarrow> syscall list" where
  "thread_calls pack io f q = send_all f io (map pack (sent q))"

text \<open>Writes to the file that no successful \<open>fsync\<close> has followed, and the \<open>fsync\<close>s that failed.\<close>

fun unsynced :: "int \<Rightarrow> syscall list \<Rightarrow> nat \<Rightarrow> nat" where
  "unsynced fd [] n = n"
| "unsynced fd (Write g bs r # cs) n = unsynced fd cs (if g = fd then Suc n else n)"
| "unsynced fd (Fsync g ok # cs) n = unsynced fd cs (if g = fd \<and> ok then 0 else n)"

fun failed_syncs :: "syscall list \<Rightarrow> nat" where
  "failed_syncs [] = 0"
| "failed_syncs (Fsync g ok # cs) = (if ok then 0 else 1) + failed_syncs cs"
| "failed_syncs (Write g bs r # cs) = failed_syncs cs"

section \<open>Interleavings\<close>

lemma written_shuffles: "zs \<in> shuffles xs ys \<Longrightarrow> written fd zs \<in> shuffles (written fd xs) (written fd ys)"
proof (induction zs arbitrary: xs ys)
  case (Cons z zs)
  then consider xs' where "xs = z # xs'" "zs \<in> shuffles xs' ys" | ys' where "ys = z # ys'" "zs \<in> shuffles xs ys'"
    by (auto simp: Cons_in_shuffles_iff neq_Nil_conv)
  then show ?case
    by cases (use Cons.IH in \<open>cases z; force intro: Cons_in_shuffles_leftI Cons_in_shuffles_rightI\<close>)+
qed simp

lemma prefix_shuffles:
  "zs @ zs' \<in> shuffles xs ys \<Longrightarrow> \<exists>as bs. prefix as xs \<and> prefix bs ys \<and> zs \<in> shuffles as bs"
proof (induction zs arbitrary: xs ys)
  case (Cons z zs)
  then consider xs' where "xs = z # xs'" "zs @ zs' \<in> shuffles xs' ys" | ys' where "ys = z # ys'" "zs @ zs' \<in> shuffles xs ys'"
    by (auto simp: Cons_in_shuffles_iff neq_Nil_conv)
  then show ?case
  proof cases
    case 1
    with Cons.IH obtain as' bs where "prefix as' xs'" "prefix bs ys" "zs \<in> shuffles as' bs" by blast
    with 1 show ?thesis by (intro exI [of _ "z # as'"] exI [of _ bs]) (auto intro: Cons_in_shuffles_leftI)
  next
    case 2
    with Cons.IH obtain as' bs where "prefix as' xs" "prefix bs ys'" "zs \<in> shuffles as' bs" by blast
    with 2 show ?thesis by (intro exI [of _ as'] exI [of _ "z # bs"]) (auto intro: Cons_in_shuffles_rightI)
  qed
qed (auto intro: exI [of _ "[]"])

lemma unsynced_mono: "m \<le> n \<Longrightarrow> unsynced fd cs m \<le> unsynced fd cs n"
  by (induction fd cs m arbitrary: n rule: unsynced.induct) auto

lemma unsynced_shuffles:
  "zs \<in> shuffles xs ys \<Longrightarrow> n \<le> a + b \<Longrightarrow> unsynced fd zs n \<le> unsynced fd xs a + unsynced fd ys b"
proof (induction zs arbitrary: xs ys n a b)
  case (Cons z zs)
  then consider xs' where "xs = z # xs'" "zs \<in> shuffles xs' ys" | ys' where "ys = z # ys'" "zs \<in> shuffles xs ys'"
    by (auto simp: Cons_in_shuffles_iff neq_Nil_conv)
  then show ?case
    by cases (use Cons.IH Cons.prems(2) in \<open>cases z; auto\<close>)+
qed simp

lemma failed_shuffles: "zs \<in> shuffles xs ys \<Longrightarrow> failed_syncs zs = failed_syncs xs + failed_syncs ys"
proof (induction zs arbitrary: xs ys)
  case (Cons z zs)
  then consider xs' where "xs = z # xs'" "zs \<in> shuffles xs' ys" | ys' where "ys = z # ys'" "zs \<in> shuffles xs ys'"
    by (auto simp: Cons_in_shuffles_iff neq_Nil_conv)
  then show ?case by cases (use Cons.IH in \<open>cases z; simp\<close>)+
qed simp

lemma unsynced_append: "unsynced fd (xs @ ys) n = unsynced fd ys (unsynced fd xs n)"
  by (induction fd xs n rule: unsynced.induct) auto

lemma failed_append: "failed_syncs (xs @ ys) = failed_syncs xs + failed_syncs ys"
  by (induction xs rule: failed_syncs.induct) auto

text \<open>A thread has at most one message that is not synced, the one of the call it is in, and one more for
every \<open>fsync\<close> that failed.\<close>

lemma unsynced_send_all:
  assumes "distinct [fd_nrf f, fd_file f, fd_raspberry f]"
  shows "prefix cs (send_all f io ms) \<Longrightarrow> unsynced (fd_file f) cs n \<le> Suc n + failed_syncs cs"
proof (induction ms arbitrary: io cs n)
  case (Cons m ms)
  let ?first = "send_telem f (io 0) m"
  from Cons.prems consider "prefix cs ?first" | cs' where "cs = ?first @ cs'" "prefix cs' (send_all f (\<lambda>k. io (Suc k)) ms)"
    by (auto simp: prefix_append)
  then show ?case
  proof cases
    case 1
    then show ?thesis using assms by (auto simp: send_telem_def prefix_Cons)
  next
    case 2
    define n' where "n' = unsynced (fd_file f) ?first n"
    have "n' \<le> n + failed_syncs ?first" using assms by (simp add: n'_def send_telem_def)
    moreover have "unsynced (fd_file f) cs' n' \<le> Suc n' + failed_syncs cs'" by (rule Cons.IH [OF 2(2)])
    ultimately show ?thesis by (simp add: 2(1) unsynced_append failed_append flip: n'_def)
  qed
qed simp

section \<open>What arrives\<close>

text \<open>C22. However the system calls of the mission loop and of the attitude thread interleave, and whichever of
them are refused or cut short: each of the three sinks is handed every message of both threads once, the
messages of each thread in their order, and gets of each what it takes of it, whatever happens at the
other two sinks (all of it, when it takes all; a message that is cut or refused is lost there, and
nothing tells the program); and whenever the program is stopped, all but the last two messages of the
file have been synced to the card, but for one more for every \<open>fsync\<close> that failed.\<close>

theorem telemetry_interleaved:
  assumes "distinct [fd_nrf f, fd_file f, fd_raspberry f]"
    and "calls @ rest \<in> shuffles (main_calls pack io f s) (thread_calls pack' io' f q)"
  shows "written (fd_of f k) (calls @ rest)
      \<in> shuffles (chunks f k io (map pack (flight_messages (trace s)))) (chunks f k io' (map pack' (sent q)))
    \<and> unsynced (fd_file f) calls 0 \<le> 2 + failed_syncs calls"
proof
  show "written (fd_of f k) (calls @ rest)
      \<in> shuffles (chunks f k io (map pack (flight_messages (trace s)))) (chunks f k io' (map pack' (sent q)))"
    using written_shuffles [OF assms(2), of "fd_of f k"]
    by (simp only: main_calls_def thread_calls_def written_send_all [OF assms(1)])
  from prefix_shuffles [OF assms(2)] obtain as bs
    where p: "prefix as (main_calls pack io f s)" "prefix bs (thread_calls pack' io' f q)" "calls \<in> shuffles as bs" by blast
  have "unsynced (fd_file f) calls 0 \<le> unsynced (fd_file f) as 0 + unsynced (fd_file f) bs 0"
    by (rule unsynced_shuffles [OF p(3)]) simp
  also have "\<dots> \<le> (Suc 0 + failed_syncs as) + (Suc 0 + failed_syncs bs)"
    using unsynced_send_all [OF assms(1)] p(1,2) unfolding main_calls_def thread_calls_def by (intro add_mono) blast+
  finally show "unsynced (fd_file f) calls 0 \<le> 2 + failed_syncs calls" by (simp add: failed_shuffles [OF p(3)])
qed

text \<open>The sinks need not agree on the order of two messages of different threads.\<close>

definition demo_fds :: fds where "demo_fds = \<lparr>fd_nrf = 3, fd_file = 4, fd_raspberry = - 1\<rparr>"

definition demo_io :: "wret \<Rightarrow> telem_io" where
  "demo_io r = \<lparr>io_file = Wrote 9, io_sync = True, io_nrf = r, io_raspberry = Refused\<rparr>"

lemma sinks_may_differ:
  "\<exists>zs \<in> shuffles (send_all demo_fds (\<lambda>_. demo_io (Wrote 9)) [[1]]) (send_all demo_fds (\<lambda>_. demo_io (Wrote 9)) [[2]]).
     written 4 zs = [[1], [2]] \<and> written 3 zs = [[2], [1]]"
  by (rule bexI [of _ "[Write 4 [1] (Wrote 9), Write 4 [2] (Wrote 9), Fsync 4 True, Write 3 [2] (Wrote 9), Write (- 1) [2] Refused,
        Fsync 4 True, Write 3 [1] (Wrote 9), Write (- 1) [1] Refused]"])
    (simp_all add: send_telem_def demo_fds_def demo_io_def taken_def Cons_in_shuffles_iff)

text \<open>The witness: both threads send, the radio cuts one message and refuses the other, the Raspberry Pi is
not open, and the program is stopped between the two writes to the file and their \<open>fsync\<close>s.\<close>

theorem telemetry_interleaved_witness:
  "written 3 [Write 4 [7, 8] (Wrote 9), Write 4 [5] (Wrote 9), Fsync 4 True, Fsync 4 True, Write 3 [5] Refused,
      Write 3 [7, 8] (Wrote 1), Write (- 1) [7, 8] Refused, Write (- 1) [5] Refused] \<in> shuffles [[7]] [[]]
   \<and> unsynced 4 [Write 4 [7, 8] (Wrote 9), Write 4 [5 :: u8] (Wrote 9)] 0 \<le> 2"
proof -
  define q where "q = (thread_start [] [] \<lparr>mpu_sec = 0, mpu_nsec = 0, mpu_acc = (0, 0, 0), mpu_gyro = (0, 0, 0)\<rparr> (0, 0, 0))
    \<lparr>sent := [MsgQuaternion (0, 0, 0, 0)]\<rparr>"
  define s where "s = demo_start\<lparr>trace := [Telem (MsgLuminosity 0 0)]\<rparr>"
  have main: "main_calls (\<lambda>_. [7, 8]) (\<lambda>_. demo_io (Wrote 1)) demo_fds s =
      [Write 4 [7, 8] (Wrote 9), Fsync 4 True, Write 3 [7, 8] (Wrote 1), Write (- 1) [7, 8] Refused]"
    by (simp add: main_calls_def send_telem_def demo_fds_def demo_io_def s_def)
  have thread: "thread_calls (\<lambda>_. [5]) (\<lambda>_. demo_io Refused) demo_fds q =
      [Write 4 [5] (Wrote 9), Fsync 4 True, Write 3 [5] Refused, Write (- 1) [5] Refused]"
    by (simp add: thread_calls_def send_telem_def demo_fds_def demo_io_def q_def)
  have "[Write 4 [7, 8] (Wrote 9), Write 4 [5] (Wrote 9)] @ [Fsync 4 True, Fsync 4 True, Write 3 [5] Refused,
      Write 3 [7, 8] (Wrote 1), Write (- 1) [7, 8] Refused, Write (- 1) [5] Refused]
      \<in> shuffles (main_calls (\<lambda>_. [7, 8]) (\<lambda>_. demo_io (Wrote 1)) demo_fds s) (thread_calls (\<lambda>_. [5]) (\<lambda>_. demo_io Refused) demo_fds q)"
    unfolding main thread by (simp add: Cons_in_shuffles_iff)
  from telemetry_interleaved [OF _ this, of Radio] show ?thesis
    by (simp add: demo_fds_def demo_io_def s_def q_def taken_def)
qed

end
