(* ===== verification/Board_Start.thy ===== *)
theory Board_Start
  imports Cansat_Prelude
begin

text \<open>
  The start of the board software (\<^verbatim>\<open>research/omnubus-reborn\<close>) before \<open>main\<close>: \<open>__initialize_hardware\<close> and
  \<open>SystemClock_Config\<close>, the time base of \<^verbatim>\<open>stm32f4xx_hal_timebase_tim.c\<close>, and the functions of the HAL that they
  configure the clocks with, at register level. Whether the crystal starts, the PLL locks and the clock is
  switched within the time the HAL allows is the environment's; what does not come in that time is taken
  never to come. The attitude program has the same clock setup.
\<close>

section \<open>Registers\<close>

record clocks =
  RCC_CFGR :: u32
  RCC_PLLCFGR :: u32
  HSERDY :: bool
  PLLRDY :: bool
  FLASH_LATENCY :: u32
  SystemCoreClock :: u32
  TIM6_PSC :: u32
  TIM6_ARR :: u32
  SYSTICK_LOAD :: u32

record crystal =
  starts :: bool
  locks :: bool
  switches :: bool

definition HSI_VALUE :: u32 where "HSI_VALUE = 16000000"
definition RCC_CFGR_SWS :: u32 where "RCC_CFGR_SWS = 0x0C"
definition RCC_CFGR_SWS_HSE :: u32 where "RCC_CFGR_SWS_HSE = 0x04"
definition RCC_CFGR_SWS_PLL :: u32 where "RCC_CFGR_SWS_PLL = 0x08"
definition RCC_CFGR_HPRE :: u32 where "RCC_CFGR_HPRE = 0xF0"
definition RCC_CFGR_PPRE1 :: u32 where "RCC_CFGR_PPRE1 = 0x1C00"
definition RCC_CFGR_PPRE2 :: u32 where "RCC_CFGR_PPRE2 = 0xE000"
definition RCC_PLLSOURCE_HSE :: u32 where "RCC_PLLSOURCE_HSE = 0x400000"

definition APBAHBPrescTable :: "nat list" where "APBAHBPrescTable = [0, 0, 0, 0, 1, 2, 3, 4, 1, 2, 3, 4, 6, 7, 8, 9]"
definition AHBPrescTable :: "nat list" where "AHBPrescTable = [0, 0, 0, 0, 0, 0, 0, 0, 1, 2, 3, 4, 6, 7, 8, 9]"

definition modify_reg :: "u32 \<Rightarrow> u32 \<Rightarrow> u32 \<Rightarrow> u32" where
  "modify_reg m v r = (r AND NOT m) OR v"

section \<open>The clock functions of the HAL\<close>

text \<open>The divisor PLLM of the last two is at least one for every crystal of a megahertz or more.\<close>

definition pll_output :: "u32 \<Rightarrow> clocks \<Rightarrow> u32" where
  "pll_output hse c =
     (let pllm = RCC_PLLCFGR c AND 0x3F;
          src = (if RCC_PLLCFGR c AND RCC_PLLSOURCE_HSE \<noteq> 0 then hse else HSI_VALUE);
          pllvco = src div pllm * drop_bit 6 (RCC_PLLCFGR c AND 0x7FC0);
          pllp = (drop_bit 16 (RCC_PLLCFGR c AND 0x30000) + 1) * 2
      in pllvco div pllp)"

definition HAL_RCC_GetSysClockFreq :: "u32 \<Rightarrow> clocks \<Rightarrow> u32" where
  "HAL_RCC_GetSysClockFreq hse c =
     (let sws = RCC_CFGR c AND RCC_CFGR_SWS in
      if sws = RCC_CFGR_SWS_HSE then hse else if sws = RCC_CFGR_SWS_PLL then pll_output hse c else HSI_VALUE)"

definition HAL_RCC_GetPCLK1Freq :: "clocks \<Rightarrow> u32" where
  "HAL_RCC_GetPCLK1Freq c = drop_bit (APBAHBPrescTable ! unat (drop_bit 10 (RCC_CFGR c AND RCC_CFGR_PPRE1))) (SystemCoreClock c)"

definition HAL_RCC_GetPCLK2Freq :: "clocks \<Rightarrow> u32" where
  "HAL_RCC_GetPCLK2Freq c = drop_bit (APBAHBPrescTable ! unat (drop_bit 13 (RCC_CFGR c AND RCC_CFGR_PPRE2))) (SystemCoreClock c)"

definition SystemCoreClockUpdate :: "u32 \<Rightarrow> clocks \<Rightarrow> clocks" where
  "SystemCoreClockUpdate hse c =
     (let tmp = RCC_CFGR c AND RCC_CFGR_SWS;
          f = (if tmp = 0x04 then hse else if tmp = 0x08 then pll_output hse c else HSI_VALUE)
      in c\<lparr>SystemCoreClock := drop_bit (AHBPrescTable ! unat (drop_bit 4 (RCC_CFGR c AND RCC_CFGR_HPRE))) f\<rparr>)"

text \<open>The time base: TIM6 at a megahertz, with an interrupt every thousand ticks.\<close>

definition HAL_InitTick :: "clocks \<Rightarrow> clocks" where
  "HAL_InitTick c =
     (let uwAPB1Prescaler = RCC_CFGR c AND RCC_CFGR_PPRE1;
          uwTimclock = (if uwAPB1Prescaler = 0 then HAL_RCC_GetPCLK1Freq c else 2 * HAL_RCC_GetPCLK1Freq c)
      in c\<lparr>TIM6_ARR := 1000000 div 1000 - 1, TIM6_PSC := uwTimclock div 1000000 - 1\<rparr>)"

definition HAL_SYSTICK_Config :: "u32 \<Rightarrow> clocks \<Rightarrow> clocks" where
  "HAL_SYSTICK_Config ticks c = (if ticks - 1 > 0xFFFFFF then c else c\<lparr>SYSTICK_LOAD := ticks - 1\<rparr>)"

datatype hal_status = HAL_OK | HAL_ERROR | HAL_TIMEOUT

record pll_init =
  PLLSource :: u32
  PLLM :: u32
  PLLN :: u32
  PLLP :: u32
  PLLQ :: u32

text \<open>\<open>HAL_RCC_OscConfig\<close> for an oscillator type of HSE, with the HSE and the PLL to be on.\<close>

definition osc_hse :: "crystal \<Rightarrow> clocks \<Rightarrow> hal_status \<times> clocks" where
  "osc_hse x c =
     (let sws = RCC_CFGR c AND RCC_CFGR_SWS in
      if sws = RCC_CFGR_SWS_HSE \<or> sws = RCC_CFGR_SWS_PLL \<and> RCC_PLLCFGR c AND RCC_PLLSOURCE_HSE = RCC_PLLSOURCE_HSE
      then (HAL_OK, c)
      else if starts x then (HAL_OK, c\<lparr>HSERDY := True\<rparr>) else (HAL_TIMEOUT, c\<lparr>HSERDY := False\<rparr>))"

definition osc_pll :: "crystal \<Rightarrow> pll_init \<Rightarrow> clocks \<Rightarrow> hal_status \<times> clocks" where
  "osc_pll x p c =
     (if RCC_CFGR c AND RCC_CFGR_SWS = RCC_CFGR_SWS_PLL then (HAL_ERROR, c)
      else let c1 = c\<lparr>PLLRDY := False\<rparr>;
               c2 = c1\<lparr>RCC_PLLCFGR := PLLSource p OR PLLM p OR push_bit 6 (PLLN p)
                        OR push_bit 16 (drop_bit 1 (PLLP p) - 1) OR push_bit 24 (PLLQ p)\<rparr>
           in if locks x then (HAL_OK, c2\<lparr>PLLRDY := True\<rparr>) else (HAL_TIMEOUT, c2))"

definition HAL_RCC_OscConfig :: "crystal \<Rightarrow> pll_init \<Rightarrow> clocks \<Rightarrow> hal_status \<times> clocks" where
  "HAL_RCC_OscConfig x p c =
     (case osc_hse x c of (r, c1) \<Rightarrow> if r = HAL_OK then osc_pll x p c1 else (r, c1))"

record clk_init =
  AHBCLKDivider :: u32
  APB1CLKDivider :: u32
  APB2CLKDivider :: u32

text \<open>\<open>HAL_RCC_ClockConfig\<close> for all four clocks, with the PLL as the source.\<close>

definition HAL_RCC_ClockConfig :: "u32 \<Rightarrow> crystal \<Rightarrow> clk_init \<Rightarrow> u32 \<Rightarrow> clocks \<Rightarrow> hal_status \<times> clocks" where
  "HAL_RCC_ClockConfig hse x k latency c =
     (let c1 = (if latency > FLASH_LATENCY c then c\<lparr>FLASH_LATENCY := latency\<rparr> else c);
          c2 = c1\<lparr>RCC_CFGR := modify_reg RCC_CFGR_HPRE (AHBCLKDivider k) (RCC_CFGR c1)\<rparr> in
      if \<not> PLLRDY c2 then (HAL_ERROR, c2)
      else let c3 = c2\<lparr>RCC_CFGR := modify_reg 0x03 0x02 (RCC_CFGR c2)\<rparr> in
        if \<not> switches x then (HAL_TIMEOUT, c3)
        else let c4 = c3\<lparr>RCC_CFGR := modify_reg RCC_CFGR_SWS RCC_CFGR_SWS_PLL (RCC_CFGR c3)\<rparr>;
                 c5 = (if latency < FLASH_LATENCY c4 then c4\<lparr>FLASH_LATENCY := latency\<rparr> else c4);
                 c6 = c5\<lparr>RCC_CFGR := modify_reg RCC_CFGR_PPRE1 (APB1CLKDivider k) (RCC_CFGR c5)\<rparr>;
                 c7 = c6\<lparr>RCC_CFGR := modify_reg RCC_CFGR_PPRE2 (push_bit 3 (APB2CLKDivider k)) (RCC_CFGR c6)\<rparr>;
                 c8 = c7\<lparr>SystemCoreClock := drop_bit (APBAHBPrescTable ! unat (drop_bit 4 (RCC_CFGR c7 AND RCC_CFGR_HPRE)))
                          (HAL_RCC_GetSysClockFreq hse c7)\<rparr>
             in (HAL_OK, HAL_InitTick c8))"

section \<open>The program\<close>

text \<open>\<open>hse\<close> is the build symbol \<^verbatim>\<open>HSE_VALUE\<close>. The results of the two functions are not looked at.\<close>

definition SystemClock_Config :: "u32 \<Rightarrow> crystal \<Rightarrow> clocks \<Rightarrow> clocks" where
  "SystemClock_Config hse x c =
     (let pll = \<lparr>PLLSource = RCC_PLLSOURCE_HSE, PLLM = hse div 1000000, PLLN = 336, PLLP = 2, PLLQ = 7\<rparr>;
          (_, c1) = HAL_RCC_OscConfig x pll c;
          (_, c2) = HAL_RCC_ClockConfig hse x \<lparr>AHBCLKDivider = 0, APB1CLKDivider = 0x1400, APB2CLKDivider = 0x1000\<rparr> 5 c1
      in HAL_SYSTICK_Config (SystemCoreClock c2 div 1000) c2)"

text \<open>\<open>HAL_Init\<close> starts the time base with the clock after reset.\<close>

definition initialize_hardware :: "u32 \<Rightarrow> crystal \<Rightarrow> clocks \<Rightarrow> clocks" where
  "initialize_hardware hse x c = SystemCoreClockUpdate hse (SystemClock_Config hse x (HAL_InitTick c))"

definition clocks_reset :: clocks where
  "clocks_reset = \<lparr>RCC_CFGR = 0, RCC_PLLCFGR = 0x24003010, HSERDY = False, PLLRDY = False, FLASH_LATENCY = 0,
     SystemCoreClock = HSI_VALUE, TIM6_PSC = 0, TIM6_ARR = 0, SYSTICK_LOAD = 0\<rparr>"

section \<open>The clocks of the chip\<close>

text \<open>What the registers mean, by the manual of the chip, with a crystal of \<open>h\<close> hertz: the system clock, and
the clock of TIM6, which is twice that of its bus unless the bus runs at the system clock.\<close>

definition sysclk_hz :: "int \<Rightarrow> clocks \<Rightarrow> int" where
  "sysclk_hz h c =
     (let sws = RCC_CFGR c AND 0x0C; r = RCC_PLLCFGR c; f = (if bit r 22 then h else 16000000) in
      if sws = 4 then h
      else if sws = 8 then f * uint (drop_bit 6 r AND 0x1FF) div (uint (r AND 0x3F) * (2 * (uint (drop_bit 16 r AND 3) + 1)))
      else 16000000)"

definition apb1_divisor :: "clocks \<Rightarrow> int" where
  "apb1_divisor c = (let v = uint (drop_bit 10 (RCC_CFGR c) AND 7) in if v < 4 then 1 else 2 ^ (nat v - 3))"

definition tim6_hz :: "int \<Rightarrow> clocks \<Rightarrow> int" where
  "tim6_hz h c = (let d = apb1_divisor c in if d = 1 then sysclk_hz h c else 2 * (sysclk_hz h c div d))"

text \<open>Interrupts every millisecond from both timers, and the frequency that the program believes in is real.\<close>

definition right_time :: "int \<Rightarrow> clocks \<Rightarrow> bool" where
  "right_time h c \<longleftrightarrow> uint (SystemCoreClock c) = sysclk_hz h c
     \<and> (uint (TIM6_PSC c) + 1) * (uint (TIM6_ARR c) + 1) * 1000 = tim6_hz h c
     \<and> (uint (SYSTICK_LOAD c) + 1) * 1000 = sysclk_hz h c"

definition run_clock :: "int \<Rightarrow> crystal \<Rightarrow> clocks" where
  "run_clock mhz x = initialize_hardware (word_of_int (mhz * 1000000)) x clocks_reset"

lemmas board_defs = run_clock_def initialize_hardware_def SystemClock_Config_def HAL_RCC_OscConfig_def osc_hse_def osc_pll_def
  HAL_RCC_ClockConfig_def HAL_InitTick_def HAL_SYSTICK_Config_def SystemCoreClockUpdate_def pll_output_def
  HAL_RCC_GetSysClockFreq_def HAL_RCC_GetPCLK1Freq_def HSI_VALUE_def RCC_CFGR_SWS_def RCC_CFGR_SWS_HSE_def
  RCC_CFGR_SWS_PLL_def RCC_CFGR_HPRE_def RCC_CFGR_PPRE1_def RCC_CFGR_PPRE2_def RCC_PLLSOURCE_HSE_def
  APBAHBPrescTable_def AHBPrescTable_def modify_reg_def clocks_reset_def Let_def

text \<open>When the crystal, the PLL or the switch fails, nothing but the internal oscillator has been in use.\<close>

lemma failed_clock:
  assumes "\<not> (starts x \<and> locks x \<and> switches x)"
  shows "RCC_CFGR (run_clock mhz x) AND 0x0C = 0" "RCC_CFGR (run_clock mhz x) AND 0x1C00 = 0"
    "SystemCoreClock (run_clock mhz x) = 16000000" "TIM6_PSC (run_clock mhz x) = 15" "TIM6_ARR (run_clock mhz x) = 999"
    "SYSTICK_LOAD (run_clock mhz x) = 15999"
  using assms by (cases "starts x"; cases "locks x"; simp add: board_defs)+

text \<open>The value \<open>HAL_RCC_OscConfig\<close> writes, for a divisor \<open>m\<close>, and its fields.\<close>

definition pll_register :: "u32 \<Rightarrow> u32" where
  "pll_register m = RCC_PLLSOURCE_HSE OR m OR push_bit 6 336 OR push_bit 16 (drop_bit 1 2 - 1) OR push_bit 24 7"

lemma pll_fields:
  assumes "4 \<le> mhz" "mhz \<le> 26"
  defines "w \<equiv> word_of_int mhz :: u32"
  shows "pll_register w AND 0x3F = w" "pll_register w AND 0x400000 \<noteq> 0" "drop_bit 6 (pll_register w AND 0x7FC0) = 336"
    "drop_bit 16 (pll_register w AND 0x30000) = 0" "word_of_int (mhz * 1000000) div 1000000 = w"
    "word_of_int (mhz * 1000000) div w = 1000000" "bit (pll_register w) 22" "drop_bit 6 (pll_register w) AND 0x1FF = 336"
    "drop_bit 16 (pll_register w) AND 3 = 0" "uint w = mhz"
proof -
  have "list_all (\<lambda>m. let w = word_of_int m :: u32 in pll_register w AND 0x3F = w \<and> pll_register w AND 0x400000 \<noteq> 0
      \<and> drop_bit 6 (pll_register w AND 0x7FC0) = 336 \<and> drop_bit 16 (pll_register w AND 0x30000) = 0
      \<and> word_of_int (m * 1000000) div 1000000 = w \<and> word_of_int (m * 1000000) div w = 1000000 \<and> bit (pll_register w) 22
      \<and> drop_bit 6 (pll_register w) AND 0x1FF = 336 \<and> drop_bit 16 (pll_register w) AND 3 = 0 \<and> uint w = m) [4..26]"
    by (simp add: pll_register_def RCC_PLLSOURCE_HSE_def bit_numeral_rec Let_def)
  moreover have "mhz \<in> set [4..26]" unfolding set_upto using assms(1,2) by simp
  ultimately show "pll_register w AND 0x3F = w" "pll_register w AND 0x400000 \<noteq> 0" "drop_bit 6 (pll_register w AND 0x7FC0) = 336"
    "drop_bit 16 (pll_register w AND 0x30000) = 0" "word_of_int (mhz * 1000000) div 1000000 = w"
    "word_of_int (mhz * 1000000) div w = 1000000" "bit (pll_register w) 22" "drop_bit 6 (pll_register w) AND 0x1FF = 336"
    "drop_bit 16 (pll_register w) AND 3 = 0" "uint w = mhz"
    unfolding list_all_iff Let_def w_def by blast+
qed

lemma pll_output_168:
  assumes "4 \<le> mhz" "mhz \<le> 26" "RCC_PLLCFGR c = pll_register (word_of_int mhz)"
  shows "pll_output (word_of_int (mhz * 1000000)) c = 168000000"
proof -
  define hse w :: u32 where "hse = word_of_int (mhz * 1000000)" and "w = word_of_int mhz"
  note f = pll_fields [OF assms(1,2), folded hse_def w_def]
  show ?thesis unfolding hse_def [symmetric] pll_output_def using f by (simp add: assms(3) [folded w_def] RCC_PLLSOURCE_HSE_def Let_def)
qed

lemma started_osc:
  assumes "starts x" "locks x" "RCC_CFGR c = 0"
  shows "HAL_RCC_OscConfig x \<lparr>PLLSource = RCC_PLLSOURCE_HSE, PLLM = m, PLLN = 336, PLLP = 2, PLLQ = 7\<rparr> c =
    (HAL_OK, c\<lparr>HSERDY := True, PLLRDY := True, RCC_PLLCFGR := pll_register m\<rparr>)"
  using assms by (simp add: HAL_RCC_OscConfig_def osc_hse_def osc_pll_def pll_register_def RCC_CFGR_SWS_def RCC_CFGR_SWS_HSE_def
      RCC_CFGR_SWS_PLL_def Let_def)

lemma started_clock:
  assumes "starts x" "locks x" "switches x" "4 \<le> mhz" "mhz \<le> 26"
  shows "run_clock mhz x = \<lparr>RCC_CFGR = 0x940A, RCC_PLLCFGR = pll_register (word_of_int mhz), HSERDY = True, PLLRDY = True,
    FLASH_LATENCY = 5, SystemCoreClock = 168000000, TIM6_PSC = 83, TIM6_ARR = 999, SYSTICK_LOAD = 167999\<rparr>"
proof -
  define hse w :: u32 where "hse = word_of_int (mhz * 1000000)" and "w = word_of_int mhz"
  have "hse div 1000000 = w" "\<And>c. RCC_PLLCFGR c = pll_register w \<Longrightarrow> pll_output hse c = 168000000"
    using pll_fields(5) [OF assms(4,5)] pll_output_168 [OF assms(4,5)] by (simp_all only: hse_def w_def)
  then show ?thesis unfolding run_clock_def hse_def [symmetric] w_def [symmetric] using assms(1-3)
    by (simp add: initialize_hardware_def SystemClock_Config_def started_osc HAL_RCC_ClockConfig_def HAL_InitTick_def
        HAL_SYSTICK_Config_def SystemCoreClockUpdate_def HAL_RCC_GetSysClockFreq_def HAL_RCC_GetPCLK1Freq_def HSI_VALUE_def
        RCC_CFGR_SWS_def RCC_CFGR_SWS_HSE_def RCC_CFGR_SWS_PLL_def RCC_CFGR_HPRE_def RCC_CFGR_PPRE1_def RCC_CFGR_PPRE2_def
        APBAHBPrescTable_def AHBPrescTable_def modify_reg_def clocks_reset_def Let_def)
qed

text \<open>C23. Whether or not the crystal starts, the PLL locks and the clock is switched in time, the board software goes
on with a right time base: both timers interrupt every millisecond, and the frequency it believes in is the
real one. With a crystal of 4 to 26 MHz that starts the processor runs at 168 MHz, its limit, and the two
peripheral buses at 42 and 84 MHz; else everything runs at the 16 MHz of the internal oscillator.\<close>

theorem board_clock_right:
  assumes "4 \<le> mhz" "mhz \<le> 26"
  shows "let c = run_clock mhz x; h = mhz * 1000000 in
      right_time h c \<and> sysclk_hz h c = (if starts x \<and> locks x \<and> switches x then 168000000 else 16000000)
    \<and> sysclk_hz h c div apb1_divisor c \<le> 42000000 \<and> uint (HAL_RCC_GetPCLK2Freq c) \<le> 84000000"
proof -
  define c h where "c = run_clock mhz x" and "h = mhz * 1000000"
  have "right_time h c \<and> sysclk_hz h c = (if starts x \<and> locks x \<and> switches x then 168000000 else 16000000)
    \<and> sysclk_hz h c div apb1_divisor c \<le> 42000000 \<and> uint (HAL_RCC_GetPCLK2Freq c) \<le> 84000000"
  proof (cases "starts x \<and> locks x \<and> switches x")
    case True
    note f = pll_fields [OF assms(1,2)]
    have c: "c = \<lparr>RCC_CFGR = 0x940A, RCC_PLLCFGR = pll_register (word_of_int mhz), HSERDY = True, PLLRDY = True,
      FLASH_LATENCY = 5, SystemCoreClock = 168000000, TIM6_PSC = 83, TIM6_ARR = 999, SYSTICK_LOAD = 167999\<rparr>"
      unfolding c_def using True assms(1,2) by (intro started_clock) auto
    have "sysclk_hz h c = mhz * 336000000 div (mhz * 2)" using f by (simp add: c sysclk_hz_def h_def Let_def)
    also have "\<dots> = 168000000" using assms(1) by (simp add: mult.commute [of mhz])
    finally have s: "sysclk_hz h c = 168000000" .
    have d: "apb1_divisor c = 4" by (simp add: c apb1_divisor_def)
    have "uint (HAL_RCC_GetPCLK2Freq c) = 84000000"
      by (simp add: c HAL_RCC_GetPCLK2Freq_def RCC_CFGR_PPRE2_def APBAHBPrescTable_def)
    then show ?thesis using True s d by (simp add: right_time_def tim6_hz_def c)
  next
    case False
    note c = failed_clock [OF False, of mhz, folded c_def]
    have s: "sysclk_hz h c = 16000000" using c(1) by (simp add: sysclk_hz_def)
    have "drop_bit 10 (RCC_CFGR c) AND 7 = drop_bit 10 (RCC_CFGR c AND 0x1C00)" by (simp add: drop_bit_and)
    then have d: "apb1_divisor c = 1" using c(2) by (simp add: apb1_divisor_def)
    have "uint (drop_bit k (16000000 :: u32)) \<le> 16000000" for k
    proof -
      have "uint (drop_bit k (16000000 :: u32)) = drop_bit k 16000000" by (simp only: unsigned_drop_bit_eq) simp
      also have "\<dots> \<le> 16000000" using zdiv_mono2 [of 16000000 1 "2 ^ k"] by (simp only: drop_bit_eq_div) simp
      finally show ?thesis .
    qed
    then have "uint (HAL_RCC_GetPCLK2Freq c) \<le> 84000000"
      unfolding HAL_RCC_GetPCLK2Freq_def c(3) by (rule order_trans) simp
    then show ?thesis using False s d by (simp add: right_time_def tim6_hz_def c(3-6))
  qed
  then show ?thesis unfolding Let_def c_def h_def .
qed

theorem board_clock_right_witness:
  "let c = run_clock 8 \<lparr>starts = True, locks = True, switches = False\<rparr> in right_time 8000000 c \<and> sysclk_hz 8000000 c = 16000000"
  using board_clock_right [of 8 "\<lparr>starts = True, locks = True, switches = False\<rparr>"] by (simp add: Let_def)

end
