(* ===== verification/Board_Pins.thy ===== *)
theory Board_Pins
  imports Spi_Bus
begin

text \<open>
  The pins of the board software's own start: \<open>HAL_MspInit\<close> and \<open>HAL_MspDeInit\<close> of \<^verbatim>\<open>stm32f4xx_hal_msp.c\<close>, and
  the pins of SPI3 of \<^verbatim>\<open>stm32f4xx_hal_spi_msp.c\<close>, as the lists of calls they make (speed and pull left
  out), and a model of the port registers those calls write. Shown: at no moment of the start is a chip select
  driven low, and the SPI pins and the chip selects do not get into each other's way.
\<close>

section \<open>The calls\<close>

datatype board_mode = OUTPUT_OD | OUTPUT_PP | AF6_SPI3_PP

datatype board_call =
    ClockOn gpio_port
  | WriteHigh gpio_port u16
  | InitPins gpio_port u16 board_mode
  | DeInitPins gpio_port u16
  | SPI3_Clock
  | SPI3_Reset

definition pin_bit :: "nat \<Rightarrow> u16" where "pin_bit k = push_bit k 1"

definition HAL_MspInit :: "board_call list" where
  "HAL_MspInit = [ClockOn GPIOB,
     WriteHigh GPIOB (pin_bit 5), InitPins GPIOB (pin_bit 5) OUTPUT_OD,
     ClockOn GPIOB,
     WriteHigh GPIOB (pin_bit 3), InitPins GPIOB (pin_bit 3) OUTPUT_PP,
     ClockOn GPIOA,
     WriteHigh GPIOA (pin_bit 15), InitPins GPIOA (pin_bit 15) OUTPUT_PP]"

definition HAL_MspDeInit :: "board_call list" where
  "HAL_MspDeInit = [DeInitPins GPIOB (pin_bit 5), DeInitPins GPIOB (pin_bit 3)]"

definition spi3_init :: "board_call list" where
  "spi3_init = [ClockOn GPIOC, InitPins GPIOC (pin_bit 10) AF6_SPI3_PP, InitPins GPIOC (pin_bit 12) AF6_SPI3_PP,
     InitPins GPIOC (pin_bit 11) AF6_SPI3_PP, SPI3_Clock]"

definition spi3_deinit :: "board_call list" where
  "spi3_deinit = [SPI3_Reset, DeInitPins GPIOC (pin_bit 10 OR pin_bit 11 OR pin_bit 12)]"

definition HAL_SPI_MspInit_board :: "bool \<Rightarrow> board_call list" where
  "HAL_SPI_MspInit_board is_spi3 = (if is_spi3 then spi3_init else [])"

definition HAL_SPI_MspDeInit_board :: "bool \<Rightarrow> board_call list" where
  "HAL_SPI_MspDeInit_board is_spi3 = (if is_spi3 then spi3_deinit else [])"

section \<open>The ports\<close>

text \<open>A port that has no clock takes no write. \<open>None\<close> is the mode of a pin that drives nothing.\<close>

record ports =
  clocked :: "gpio_port list"
  latch :: "(gpio_port \<times> nat) list"
  modes :: "((gpio_port \<times> nat) \<times> board_mode option) list"
  spi3_on :: bool

definition pins_of :: "u16 \<Rightarrow> nat list" where
  "pins_of m = List.filter (bit m) [0..<16]"

definition board_step :: "board_call \<Rightarrow> ports \<Rightarrow> ports" where
  "board_step c s =
     (case c of
        ClockOn p \<Rightarrow> s\<lparr>clocked := p # clocked s\<rparr>
      | WriteHigh p m \<Rightarrow> if p \<in> set (clocked s) then s\<lparr>latch := List.map (Pair p) (pins_of m) @ latch s\<rparr> else s
      | InitPins p m k \<Rightarrow>
          if p \<in> set (clocked s) then s\<lparr>modes := List.map (\<lambda>i. ((p, i), Some k)) (pins_of m) @ modes s\<rparr> else s
      | DeInitPins p m \<Rightarrow>
          if p \<in> set (clocked s) then s\<lparr>modes := List.map (\<lambda>i. ((p, i), None)) (pins_of m) @ modes s\<rparr> else s
      | SPI3_Clock \<Rightarrow> s\<lparr>spi3_on := True\<rparr>
      | SPI3_Reset \<Rightarrow> s)"

definition ports_reset :: ports where
  "ports_reset = \<lparr>clocked = [], latch = [], modes = [], spi3_on = False\<rparr>"

definition mode_of :: "ports \<Rightarrow> gpio_port \<times> nat \<Rightarrow> board_mode option" where
  "mode_of s p = (case map_of (modes s) p of Some m \<Rightarrow> m | None \<Rightarrow> None)"

definition driven_low :: "ports \<Rightarrow> (gpio_port \<times> nat) \<Rightarrow> bool" where
  "driven_low s p \<longleftrightarrow> mode_of s p \<in> {Some OUTPUT_OD, Some OUTPUT_PP} \<and> p \<notin> set (latch s)"

text \<open>All the states on the way.\<close>

fun on_the_way :: "board_call list \<Rightarrow> ports \<Rightarrow> ports list" where
  "on_the_way [] s = [s]"
| "on_the_way (c # cs) s = s # on_the_way cs (board_step c s)"

section \<open>What the start does\<close>

lemma filter_upt_single: "k < n \<Longrightarrow> List.filter (\<lambda>i. i = k) [0..<n] = [k]"
  by (induction n) (auto simp: less_Suc_eq filter_empty_conv)

lemma pins_of_one [simp]: "k < 16 \<Longrightarrow> pins_of (pin_bit k) = [k]"
proof -
  assume k: "k < 16"
  have "pins_of (pin_bit k) = List.filter (\<lambda>i. i = k) [0..<16]"
    unfolding pins_of_def pin_bit_def using k by (intro filter_cong) (auto simp: bit_exp_iff possible_bit_word)
  also have "\<dots> = [k]" using k filter_upt_single [of k 16] by simp
  finally show ?thesis .
qed

lemmas board_calls = HAL_MspInit_def HAL_MspDeInit_def spi3_init_def spi3_deinit_def

text \<open>After the start both chip selects are high outputs, and the lamp is off.\<close>

lemma selects_high:
  defines "s \<equiv> fold board_step (HAL_MspInit @ HAL_SPI_MspInit_board True) ports_reset"
  shows "mode_of s (GPIOB, 3) = Some OUTPUT_PP" "mode_of s (GPIOA, 15) = Some OUTPUT_PP" "mode_of s (GPIOB, 5) = Some OUTPUT_OD"
    "mode_of s (GPIOC, 10) = Some AF6_SPI3_PP" "mode_of s (GPIOC, 11) = Some AF6_SPI3_PP" "mode_of s (GPIOC, 12) = Some AF6_SPI3_PP"
    "\<not> driven_low s p" "spi3_on s"
  unfolding s_def by (simp_all add: board_calls HAL_SPI_MspInit_board_def board_step_def ports_reset_def mode_of_def driven_low_def)

text \<open>At no moment of the start is any pin driven low: each level is set before its pin becomes an output.\<close>

lemma never_low:
  "list_all (\<lambda>s. \<forall>p. \<not> driven_low s p) (on_the_way (HAL_MspInit @ HAL_SPI_MspInit_board True) ports_reset)"
  by (simp add: board_calls HAL_SPI_MspInit_board_def board_step_def ports_reset_def mode_of_def driven_low_def)

text \<open>\<open>HAL_MspDeInit\<close> takes back the lamp and one select, but not the select of the video chip.\<close>

lemma video_select_stays:
  defines "s \<equiv> fold board_step (HAL_MspInit @ HAL_MspDeInit) ports_reset"
  shows "mode_of s (GPIOB, 3) = None" "mode_of s (GPIOB, 5) = None" "mode_of s (GPIOA, 15) = Some OUTPUT_PP"
  unfolding s_def by (simp_all add: board_calls board_step_def ports_reset_def mode_of_def)

end
