(* ===== verification/Spec2Isabelle.thy ===== *)
theory Spec2Isabelle
  imports Minmea_Roundtrip Telemetry Bmp280_Comp Madgwick_Gradient Inv_Sqrt Attitude_Safe Quaternion
    Startup Granum_Pins Drivers Imu_Pins Servo_Setup Timer Humidity Gps_Test Sensor_Tests
    Altitude Telemetry_Threads Board_Start Board_Pins
begin

text \<open>
  \<^bold>\<open>The software of the CanSat.\<close>

  The repository holds the programs of a CanSat (a can-sized probe dropped by a rocket). The flight
  program (\<^verbatim>\<open>src/board/omnibus/apps/granum/granum\<close>, on NuttX) reads its sensors once per turn, sends
  telemetry, and fires the parachute, the legs and the cutter from a state machine; a thread of it
  runs the attitude filter. It parses the GPS with the minmea library
  (\<^verbatim>\<open>apps/gpsutils/minmea\<close>). Beside it are the earlier FreeRTOS board software with its device layer and
  the BMP280 driver (\<^verbatim>\<open>research/omnubus-reborn\<close>), the attitude program with its sensor drivers
  (\<^verbatim>\<open>research/Madgwick\<close>), the servo controller on an STM8 (\<^verbatim>\<open>src/board/servo_ctl\<close>) and the humidity
  sensor of the Raspberry Pi (\<^verbatim>\<open>src/board/rpi/hum-test\<close>).

  \<^bold>\<open>Theories and code.\<close>

  \<^item> Prelude: \<open>Cansat_Prelude\<close> (C integers, undefined behaviour as \<open>None\<close>, C strings); \<open>Ieee754\<close>,
    \<open>Float_Types\<close> (binary32 and binary64, executable, with the classes of HOL's arithmetic) and
    \<open>Float_Error\<close>, \<open>Float_Signed\<close> (their values as reals and the error of an operation, in the normal
    range and below, with its sign), \<open>Sum_Squares\<close> and \<open>Float_Range\<close> (sums of squares; one rule per
    operator for the range of a result).
  \<^item> minmea: \<open>Minmea_Check\<close> (\<open>minmea_check\<close>), \<open>Minmea_Scan\<close> (the field scanner, every case of the
    switch of \<open>minmea_scan\<close>), \<open>Minmea_Fields\<close> (what a field is read as), \<open>Minmea_Print\<close> (printing, for
    the round trips), \<open>Minmea_Parse\<close> (\<open>minmea_parse_*\<close>, \<open>minmea_rescale\<close>), \<open>Minmea_Roundtrip\<close>,
    \<open>Minmea_Coord\<close> (\<open>minmea_tofloat\<close>, \<open>minmea_tocoord\<close>).
  \<^item> Flight program: \<open>Gps_Line\<close> (\<open>_parseGPS\<close> with its static buffer), \<open>Flight\<close> (\<open>_translate_state\<close> and
    the loop body of \<open>granum_main\<close>, one definition per block of the source, composed in its order;
    a turn is a function of what the sensors return), \<open>Flight_Safety\<close> and \<open>Flight_Properties\<close> (the
    invariant of the mission and its consequences), \<open>Altitude\<close> (the altitude formula against the
    barometric formula with real numbers), \<open>Telemetry\<close> (the telemetry file, the descriptors,
    \<open>send_telem\<close>), \<open>Telemetry_Threads\<close> (the calls of the mission loop and of the attitude thread in any
    interleaving), \<open>Startup\<close> (the configuration of radio, devices and serial line, as the
    calls made in order).
  \<^item> Attitude: \<open>Madgwick\<close> (\<open>MadgwickAHRS.c\<close>: written once over any arithmetic; at binary32 it is the
    code, at the reals what the code approximates), \<open>Madgwick_Gradient\<close> (the formulas are the
    gradients they stand for; NaN), \<open>Inv_Sqrt\<close> (the fast inverse square root),
    \<open>Unit_Quaternion\<close> (what normalisation in float gives), \<open>Madgwick_Thread\<close>
    (\<open>madgwick_thread.c\<close>), \<open>Filter_Range\<close> (ranges of every step of the filter), \<open>Filter_Unit\<close> (how far an
    update moves the quaternion), \<open>Attitude_Safe\<close> (both for the thread, over all rounds), \<open>Quaternion\<close>
    (\<open>quaternion.c\<close>), \<open>Imu_Main\<close> and \<open>Imu_Pins\<close> (\<open>main.c\<close> of \<^verbatim>\<open>research/Madgwick\<close>: the program, and its
    peripherals and pins).
  \<^item> Drivers: \<open>Spi_Bus\<close> (the HAL as a parameter, the watch over a trace of its calls, and the locale
    \<open>spi_transaction\<close>, the contract of every function that uses a chip select), \<open>Board_Ctl\<close>
    (\<open>board_ctl.c\<close>, \<open>bmp280_local.c\<close> and the task of \<open>main.c\<close>), \<open>Devctl\<close> (\<open>devctl.c\<close>), \<open>Granum_Pins\<close>
    (\<open>granum_common.c\<close>), \<open>Lsm6ds3\<close>, \<open>Magnetometer\<close>; \<open>Drivers\<close> composes them.
  \<^item> BMP280: \<open>Bmp280_Regs\<close> (bit slices of the header), \<open>Bmp280\<close> (the driver over a bus that is a record
    of functions), \<open>Bmp280_Properties\<close>, \<open>Bmp280_Comp\<close> (the compensation formulas with overflow).
  \<^item> \<open>Board_Start\<close> (\<open>__initialize_hardware\<close>, \<open>SystemClock_Config\<close>, \<open>HAL_InitTick\<close> and the clock functions of
    the HAL, on the registers of the clock tree), \<open>Board_Pins\<close> (\<^verbatim>\<open>stm32f4xx_hal_msp.c\<close> and
    \<^verbatim>\<open>stm32f4xx_hal_spi_msp.c\<close>, on the port registers).
  \<^item> \<open>Servo\<close> (the I2C interrupt handler at register level), \<open>Servo_Setup\<close> (\<open>main\<close> of the servo controller and
    the functions of the STM8 library that it calls), \<open>Timer\<close> (\<open>timer_sleep\<close> interleaved with its
    interrupt), \<open>Humidity\<close> (\<open>am2320_get_data\<close> and its caller, with the descriptor table).
  \<^item> Test applications: \<open>Gps_Test\<close> (\<open>gps_test_main.c\<close>, the earlier line collector) and \<open>Mavlink_Test\<close>
    (\<open>mavlink_test_main.c\<close>, start-up, thread and main loop), the stages before the flight program;
    \<open>Sensor_Tests\<close> (the one-device programs).

  \<^bold>\<open>What the theorems show.\<close>

  \<^item> Parsing: \<open>minmea_check\<close> accepts exactly the documented sentences and detects a corrupted byte (a NUL
    only in strict mode); a field is read as the number it denotes or rejected, with the one overflow the guard misses; the
    scanner refines a reader of the list of fields; a printed GGA record is parsed back.
  \<^item> Mission: what was fired is a function of the state (each charge once, in order); nothing is fired
    in the first 300 seconds; the parachute is fired at 250 m, of the computed altitude exactly
    (\<open>chute_only_below_250m\<close>) and of the true one up to a margin of roundings and of the logarithm
    (\<open>chute_at_true_altitude\<close>); the legs 30 seconds after it whatever
    the barometer says; and where the program fails (no barometer, landing at the pad's height).
  \<^item> Lines and telemetry: \<open>_parseGPS\<close> delivers the lines of the stream however it is cut, stays in its
    buffer (every access is checked in the model), and repeats a line when the port fails; the
    messages of a turn and their schedule; with both threads sending and any writes refused or cut
    short, each sink is handed every message once, in its thread's order, and what it gets does not
    depend on the other sinks; all but the last two messages are on the card, and one more for every
    \<open>fsync\<close> that failed (\<open>telemetry_interleaved\<close>).
  \<^item> Attitude: both corrections are gradients of the error they minimise; the inverse square root is
    within 0.18 percent for every number in its range, roundings included, and an update ends with a
    quaternion within 0.19 percent of the exactly normalised one; a NaN is never left again, and with
    readings in the sensors' range none arises: the thread's conversions are all defined and its
    quaternion finite (\<open>attitude_thread_safe\<close>), and a unit quaternion, to 0.19 percent, once the gain is
    lowered (\<open>attitude_stays_unit\<close>);
    \<open>vect_rotate\<close>, over the reals, turns a vector by the angle and around the axis of its quaternion;
    the attitude is a function of the readings of the good rounds, each filtered once with its gain,
    and every fifth is sent (\<open>ahrs_schedule\<close>); a failed read of the attitude
    program feeds it magnetometer counts as rates.
  \<^item> Drivers: in any order of calls, with any errors, the bus discipline holds, for single calls
    (\<open>drivers_one_device\<close>) and for the attitude program as a whole (\<open>main_run_safe\<close>); parameters are
    never changed by \<open>gr_if_set_params\<close>; the calibration block round-trips; the setters keep other
    fields; waiting times cover the conversion; the 32-bit temperature and the 64-bit pressure formula are
    defined and accurate over the operating range (of the 32-bit pressure formula, which the driver
    calls, only the data sheet's example is shown).
  \<^item> Start of the board: whether or not the crystal starts, the time base is right and the clocks are
    within the limits of the chip (\<open>board_clock_right\<close>); no chip select is ever driven low on the way
    (\<open>Board_Pins.never_low\<close>).
  \<^item> Small controllers: from reset, the servo's pulse has the width that the last pair of bytes asks for
    (\<open>servo_pulse\<close>); the handler takes exactly the pairs of bytes of each transfer, and ignores a byte
    whose event carries a further flag; \<open>timer_sleep\<close> ends, and not early; the humidity program runs
    out of descriptors; the GPS test writes behind its buffer after a line that is too long; the one-device
    tests print the last good reading, and one of them an error that is over.

  \<^bold>\<open>Conventions and bounds.\<close> Loops of the source are structural recursions over what the environment
  delivers (turns, bytes, interrupts), so no fuel is needed: \<open>while(1)\<close> is the fold over any finite
  number of turns, and each theorem holds for all of them. A call that may not return (\<open>timer_sleep\<close>)
  yields \<open>None\<close> on a schedule that ends first, and its termination is a theorem. Signed overflow, an
  out-of-range conversion and an index outside a buffer are \<open>None\<close> or \<open>Undefined\<close>. Floating point is
  IEEE with one NaN, round to nearest even, no fused operations; the fast inverse square root takes the
  bits of its argument through a pointer, which the model reads as GCC does without strict aliasing,
  and its subtraction, which overflows only for negative arguments, wraps. \<open>long\<close> is 32 bits and \<open>>>\<close> of a
  negative number is arithmetic (as GCC defines it); the ARM is little-endian, the STM8 big-endian; on
  the STM8 \<^verbatim>\<open>double\<close> is binary32 (SDCC).

  \<^bold>\<open>Hypotheses about code outside the repository.\<close> The HAL, the sensor devices, \<open>pow\<close> and \<open>sqrt\<close> of the
  C library and the bus of the BMP280 are arguments of the definitions; a theorem that relies on one
  says how in its hypotheses (of \<open>sqrt\<close> only that it is right to within half of the root:
  \<open>Filter_Range.sqrt_ok\<close>; of \<open>log\<close> that it is right to an \<open>\<epsilon>\<close> near one: \<open>Altitude.log_ok\<close>). What the
  registers of the timer of the STM8 and of the clock tree of the STM32 do is stated as their manuals
  describe it (\<open>pwm_high\<close>, \<open>sysclk_hz\<close>, \<open>tim6_hz\<close>); the bytes that a call of \<^verbatim>\<open>write\<close> takes are not mixed
  with those of another; \<^verbatim>\<open>time_t\<close> is unsigned with 32 bits, and the monotonic clock does not go back. The components of the sensor records of NuttX drivers are floats (the test
  programs print them as such).

  \<^bold>\<open>Not modelled.\<close> MAVLink packing (its headers are generated and not in the repository: messages are
  values of a datatype, whose fields have the types of the message definitions: an integer is cut to
  its field, a double that does not fit is undefined behaviour); the drivers behind \<open>ioctl\<close> and the calls that create threads and timers;
  the bits of power control and of interrupt priorities at start-up, and the waits of the HAL (their
  outcome is an argument); trace output; the vendored NuttX applications, STM32 HAL (but for the clock
  functions), STM8 library (but for the functions the servo controller calls) and FreeRTOS kernel; the Python,
  JavaScript and C++ programs of the Raspberry Pi and the ground station.

  \<^bold>\<open>Not proved.\<close> A bound on the length of the quaternion during the filter's first hundred updates, where
  the gain of 10 makes a correction as long as the quaternion: there only \<open>attitude_thread_safe\<close> holds.
\<close>

end
